(* ===== verification/Prelude.thy ===== *)
theory Prelude
  imports Main "HOL-Library.Word" "HOL-Library.State_Monad"
begin

text \<open>
  Shared vocabulary of the development: the theorem collections the component theories fill and
  use, the error values of the Go code, Go's 64-bit signed integer arithmetic, and generic lemmas
  on lists of rows (the tables of the database) that every data component needs.
\<close>

section \<open>Theorem collections\<close>

named_theorems wp_simps "weakest-precondition equations of the actions of the model"
named_theorems keeps "which parts of the world an action leaves alone"
named_theorems ok_intros "integrity of the database kept by a statement"

section \<open>Errors\<close>

text \<open>
  Go's \<open>error\<close> values as far as the code tells them apart: \<open>sql.ErrNoRows\<close>,
  \<open>auth.ErrUnauthorized\<close>, \<open>urlfetch.ErrURLNotAllowed\<close>, an error PostgreSQL reports for a violated
  constraint of the schema, and any other error with its message.
\<close>

datatype err =
    ErrNoRows
  | ErrUnauthorized
  | ErrURLNotAllowed
  | ErrConstraint
  | Err string

type_synonym 'a result = "err + 'a"

type_synonym uuid = "128 word"

definition is_ok :: "'a result \<Rightarrow> bool" where
  "is_ok r = (case r of Inl _ \<Rightarrow> False | Inr _ \<Rightarrow> True)"

lemma is_ok_simps [simp]: "is_ok (Inr x)" "\<not> is_ok (Inl e)"
  by (simp_all add: is_ok_def)

lemma is_ok_iff: "is_ok r \<longleftrightarrow> (\<exists>x. r = Inr x)"
  by (cases r) auto

text \<open>The zero value of a Go string stands for an invalid \<open>sql.NullString\<close>'s \<open>String\<close> field.\<close>

definition ns_str :: "string option \<Rightarrow> string" where
  "ns_str s = (case s of None \<Rightarrow> [] | Some x \<Rightarrow> x)"

lemma ns_str_simps [simp]: "ns_str None = []" "ns_str (Some s) = s"
  by (simp_all add: ns_str_def)

section \<open>Go's int: 64-bit two's complement\<close>

definition max_int64 :: int where "max_int64 = 9223372036854775807"
definition min_int64 :: int where "min_int64 = -9223372036854775808"

definition wrap64 :: "int \<Rightarrow> int" where
  "wrap64 n = (n + 9223372036854775808) mod 18446744073709551616 - 9223372036854775808"

definition in_int64 :: "int \<Rightarrow> bool" where
  "in_int64 n \<longleftrightarrow> min_int64 \<le> n \<and> n \<le> max_int64"

lemma wrap64_id: "in_int64 n \<Longrightarrow> wrap64 n = n"
  by (simp add: wrap64_def in_int64_def min_int64_def max_int64_def)

lemma wrap64_range: "in_int64 (wrap64 n)"
proof -
  have "0 \<le> (n + 9223372036854775808) mod 18446744073709551616"
    and "(n + 9223372036854775808) mod 18446744073709551616 < 18446744073709551616"
    by (rule pos_mod_sign, simp) (rule pos_mod_bound, simp)
  then show ?thesis
    by (simp add: wrap64_def in_int64_def min_int64_def max_int64_def)
qed

text \<open>The wrap is the value a 64-bit word reads back as a signed number.\<close>

lemma wrap64_sint: "wrap64 n = sint (word_of_int n :: 64 word)"
  by (simp add: wrap64_def sint_sbintrunc' signed_take_bit_eq_take_bit_shift take_bit_eq_mod)

section \<open>Rows with a key\<close>

text \<open>
  A table is the list of its rows in scan order. \<open>find_by\<close> is what a query with one row expected
  returns (\<open>GetContext\<close> takes the first row), \<open>upd_where\<close> and \<open>filter\<close> are the row sets of
  an UPDATE and a DELETE.
\<close>

definition find_by :: "('r \<Rightarrow> bool) \<Rightarrow> 'r list \<Rightarrow> 'r result" where
  "find_by P rs = (case find P rs of None \<Rightarrow> Inl ErrNoRows | Some r \<Rightarrow> Inr r)"

definition upd_where :: "('r \<Rightarrow> bool) \<Rightarrow> ('r \<Rightarrow> 'r) \<Rightarrow> 'r list \<Rightarrow> 'r list" where
  "upd_where P f rs = map (\<lambda>r. if P r then f r else r) rs"

lemma find_by_Inr: "find_by P rs = Inr r \<Longrightarrow> r \<in> set rs \<and> P r"
  by (auto simp: find_by_def find_Some_iff split: option.splits)

lemma find_by_Inl: "find_by P rs = Inl e \<Longrightarrow> e = ErrNoRows \<and> (\<forall>r\<in>set rs. \<not> P r)"
  by (auto simp: find_by_def find_None_iff split: option.splits)

lemma find_by_none: "find_by P rs = Inl ErrNoRows \<longleftrightarrow> (\<forall>r\<in>set rs. \<not> P r)"
  by (induction rs) (auto simp: find_by_def)

lemma find_by_Nil [simp]: "find_by P [] = Inl ErrNoRows"
  by (simp add: find_by_def)

lemma find_by_Cons: "find_by P (r # rs) = (if P r then Inr r else find_by P rs)"
  by (simp add: find_by_def)

lemma find_by_append_fresh:
  "\<forall>r\<in>set rs. \<not> P r \<Longrightarrow> find_by P (rs @ rs') = find_by P rs'"
  by (induction rs) (auto simp: find_by_Cons)

lemma find_by_unique:
  assumes "distinct (map key rs)" and "r \<in> set rs" and "P r"
    and same: "\<And>r'. r' \<in> set rs \<Longrightarrow> P r' \<Longrightarrow> key r' = key r"
  shows "find_by P rs = Inr r"
proof (cases "find_by P rs")
  case (Inl e)
  with assms(2,3) show ?thesis by (auto dest: find_by_Inl)
next
  case (Inr r')
  from find_by_Inr[OF Inr] have r': "r' \<in> set rs" "P r'" by simp_all
  from assms(1) have "inj_on key (set rs)" by (simp add: distinct_map)
  from inj_onD[OF this same[OF r'] r'(1) assms(2)] Inr show ?thesis by simp
qed

lemma set_upd_where: "set (upd_where P f rs) = {f r |r. r \<in> set rs \<and> P r} \<union> {r \<in> set rs. \<not> P r}"
  by (auto simp: upd_where_def)

lemma map_upd_where: "(\<And>r. k (f r) = k r) \<Longrightarrow> map k (upd_where P f rs) = map k rs"
  by (simp add: upd_where_def)

lemma upd_where_Nil [simp]: "upd_where P f [] = []"
  by (simp add: upd_where_def)

lemma upd_where_Cons:
  "upd_where P f (r # rs) = (if P r then f r else r) # upd_where P f rs"
  by (simp add: upd_where_def)

lemma upd_where_none: "(\<forall>r\<in>set rs. \<not> P r) \<Longrightarrow> upd_where P f rs = rs"
  by (simp add: upd_where_def map_idI)

lemma find_by_upd_where:
  assumes "\<And>r. Q (f r) = Q r"
  shows "find_by Q (upd_where P f rs)
           = (case find_by Q rs of Inl e \<Rightarrow> Inl e | Inr r \<Rightarrow> Inr (if P r then f r else r))"
  by (induction rs) (auto simp: upd_where_Cons find_by_Cons assms)

lemma find_by_filter_same: "find_by P (filter (\<lambda>r. \<not> P r) rs) = Inl ErrNoRows"
  by (simp add: find_by_none)

lemma find_by_filter:
  "(\<And>r. r \<in> set rs \<Longrightarrow> P r \<Longrightarrow> Q r) \<Longrightarrow> find_by P (filter Q rs) = find_by P rs"
  by (induction rs) (auto simp: find_by_Cons)

lemma distinct_map_filter_key: "distinct (map k rs) \<Longrightarrow> distinct (map k (filter P rs))"
  by (induction rs) auto

section \<open>Codecs\<close>

text \<open>
  The interface of a pair of functions of which one reads back what the other writes. The program
  has such pairs for env file values and for decimal numbers in query strings.
\<close>

locale codec =
  fixes enc :: "'a \<Rightarrow> 'b"
    and dec :: "'b \<Rightarrow> 'a"
    and valid :: "'a \<Rightarrow> bool"
  assumes dec_enc: "valid x \<Longrightarrow> dec (enc x) = x"
begin

lemma enc_inj: "valid x \<Longrightarrow> valid y \<Longrightarrow> enc x = enc y \<Longrightarrow> x = y"
  by (metis dec_enc)

lemma enc_eq_iff: "valid x \<Longrightarrow> valid y \<Longrightarrow> (enc x = enc y) = (x = y)"
  by (metis dec_enc)

end

end
