(* ===== verification/Float64.thy ===== *)
theory Float64
  imports Complex_Main Prelude
begin

text \<open>
  Go's float64 as far as the program computes with it: the IEEE 754 binary64 value of a rational,
  rounded to nearest with ties to even, subnormals and overflow included; there is no negative zero.
  \<open>math.Round\<close> rounds half away from zero.
\<close>

section \<open>Values\<close>

datatype float64 = NaN | Inf bool | Fin rat

fun bit_len :: "nat \<Rightarrow> nat" where
  "bit_len n = (if n = 0 then 0 else Suc (bit_len (n div 2)))"

declare bit_len.simps [simp del]

definition pow2 :: "int \<Rightarrow> rat" where
  "pow2 e = (if 0 \<le> e then 2 ^ nat e else 1 / 2 ^ nat (- e))"

text \<open>The largest \<open>e\<close> with \<open>2^e \<le> q\<close>, for a positive rational.\<close>

definition log2_floor :: "rat \<Rightarrow> int" where
  "log2_floor q = (case quotient_of q of (n, d) \<Rightarrow>
     (let e = int (bit_len (nat n)) - int (bit_len (nat d)) in if pow2 e \<le> q then e else e - 1))"

definition round_even :: "rat \<Rightarrow> int" where
  "round_even q = (let f = \<lfloor>q\<rfloor>; r = q - of_int f in
     if r < 1 / 2 then f else if r > 1 / 2 then f + 1 else if even f then f else f + 1)"

definition round64 :: "rat \<Rightarrow> float64" where
  "round64 q = (if q = 0 then Fin 0 else
     (let a = \<bar>q\<bar>; u = pow2 (max (log2_floor a - 52) (- 1074));
          v = of_int (round_even (a / u)) * u
      in if pow2 1024 \<le> v then Inf (q < 0) else Fin (if q < 0 then - v else v)))"

definition float_of_int :: "int \<Rightarrow> float64" where
  "float_of_int n = round64 (of_int n)"

section \<open>Operations\<close>

definition fmul :: "float64 \<Rightarrow> float64 \<Rightarrow> float64" where
  "fmul x y = (case (x, y) of
     (Fin a, Fin b) \<Rightarrow> round64 (a * b)
   | (NaN, _) \<Rightarrow> NaN | (_, NaN) \<Rightarrow> NaN
   | (Inf s, Inf t) \<Rightarrow> Inf (s \<noteq> t)
   | (Inf s, Fin b) \<Rightarrow> if b = 0 then NaN else Inf (s \<noteq> (b < 0))
   | (Fin a, Inf t) \<Rightarrow> if a = 0 then NaN else Inf (t \<noteq> (a < 0)))"

definition fdiv :: "float64 \<Rightarrow> float64 \<Rightarrow> float64" where
  "fdiv x y = (case (x, y) of
     (Fin a, Fin b) \<Rightarrow> if b = 0 then (if a = 0 then NaN else Inf (a < 0)) else round64 (a / b)
   | (NaN, _) \<Rightarrow> NaN | (_, NaN) \<Rightarrow> NaN
   | (Inf s, Inf t) \<Rightarrow> NaN
   | (Inf s, Fin b) \<Rightarrow> Inf (s \<noteq> (b < 0))
   | (Fin a, Inf t) \<Rightarrow> Fin 0)"

definition fadd :: "float64 \<Rightarrow> float64 \<Rightarrow> float64" where
  "fadd x y = (case (x, y) of
     (Fin a, Fin b) \<Rightarrow> round64 (a + b)
   | (NaN, _) \<Rightarrow> NaN | (_, NaN) \<Rightarrow> NaN
   | (Inf s, Inf t) \<Rightarrow> if s = t then Inf s else NaN
   | (Inf s, Fin b) \<Rightarrow> Inf s
   | (Fin a, Inf t) \<Rightarrow> Inf t)"

definition fle_zero :: "float64 \<Rightarrow> bool" where
  "fle_zero x = (case x of NaN \<Rightarrow> False | Inf s \<Rightarrow> s | Fin a \<Rightarrow> a \<le> 0)"

text \<open>\<open>int(math.Round(x))\<close>; the conversion is only defined for values of the range of int.\<close>

definition round_half_away :: "rat \<Rightarrow> int" where
  "round_half_away q = (if 0 \<le> q then \<lfloor>q + 1 / 2\<rfloor> else - \<lfloor>- q + 1 / 2\<rfloor>)"

definition to_int :: "float64 \<Rightarrow> int option" where
  "to_int x = (case x of Fin a \<Rightarrow>
     (let n = round_half_away a in if in_int64 n then Some n else None) | _ \<Rightarrow> None)"

end
