(* ===== verification/Json.thy ===== *)
theory Json
  imports GoStrings
begin

text \<open>
  What the program uses of \<open>encoding/json\<close>: the parser, the raw text of a member
  (\<open>json.RawMessage\<close>), and how a struct's string fields are filled. Numbers keep their text. Object
  members keep their order and duplicates, since a later member overwrites an earlier one. Strings
  are UTF-8 bytes; bytes that are not valid UTF-8 are kept (the library replaces them).
\<close>

section \<open>Values\<close>

datatype json =
    JNull
  | JBool bool
  | JNum string
  | JStr string
  | JArr "json list"
  | JObj "(string \<times> string \<times> json) list"

section \<open>Strings\<close>

definition is_ws :: "char \<Rightarrow> bool" where
  "is_ws c \<longleftrightarrow> c = CHR '' '' \<or> c = CHR 0x09 \<or> c = CHR 0x0A \<or> c = CHR 0x0D"

abbreviation ws :: "string \<Rightarrow> string" where
  "ws \<equiv> dropWhile is_ws"

definition byte :: "nat \<Rightarrow> char" where
  "byte n = char_of (n mod 256)"

definition utf8 :: "nat \<Rightarrow> string" where
  "utf8 v = (if v < 0x80 then [byte v]
     else if v < 0x800 then [byte (0xC0 + v div 64), byte (0x80 + v mod 64)]
     else if v < 0x10000 then
       [byte (0xE0 + v div 4096), byte (0x80 + v div 64 mod 64), byte (0x80 + v mod 64)]
     else [byte (0xF0 + v div 262144), byte (0x80 + v div 4096 mod 64),
           byte (0x80 + v div 64 mod 64), byte (0x80 + v mod 64)])"

definition hex_digit :: "char \<Rightarrow> nat option" where
  "hex_digit c = (let n = of_char c :: nat in
     if 48 \<le> n \<and> n \<le> 57 then Some (n - 48)
     else if 97 \<le> n \<and> n \<le> 102 then Some (n - 87)
     else if 65 \<le> n \<and> n \<le> 70 then Some (n - 55) else None)"

definition hex4 :: "string \<Rightarrow> nat option" where
  "hex4 s = (if length s < 4 then None else
     (case map hex_digit (take 4 s) of
        [Some a, Some b, Some c, Some d] \<Rightarrow> Some (4096 * a + 256 * b + 16 * c + d)
      | _ \<Rightarrow> None))"

text \<open>
  After a backslash and \<open>u\<close>: the code point and how many characters it takes. A surrogate that does
  not start a pair is the replacement character.
\<close>

definition u_escape :: "string \<Rightarrow> (nat \<times> nat) option" where
  "u_escape r = (case hex4 r of None \<Rightarrow> None
     | Some v \<Rightarrow>
         if 0xD800 \<le> v \<and> v < 0xDC00 then
           (if take 2 (drop 4 r) = [CHR 0x5C, CHR ''u''] then
              (case hex4 (drop 6 r) of
                 Some l \<Rightarrow> if 0xDC00 \<le> l \<and> l < 0xE000
                   then Some (0x10000 + (v - 0xD800) * 1024 + (l - 0xDC00), 10) else Some (0xFFFD, 4)
               | None \<Rightarrow> Some (0xFFFD, 4))
            else Some (0xFFFD, 4))
         else if 0xDC00 \<le> v \<and> v < 0xE000 then Some (0xFFFD, 4)
         else Some (v, 4))"

definition simple_escape :: "char \<Rightarrow> char option" where
  "simple_escape e = (if e = CHR 0x22 \<or> e = CHR 0x5C \<or> e = CHR ''/'' then Some e
     else if e = CHR ''b'' then Some (CHR 0x08) else if e = CHR ''f'' then Some (CHR 0x0C)
     else if e = CHR ''n'' then Some (CHR 0x0A) else if e = CHR ''r'' then Some (CHR 0x0D)
     else if e = CHR ''t'' then Some (CHR 0x09) else None)"

definition prepend :: "string \<Rightarrow> (string \<times> string) option \<Rightarrow> (string \<times> string) option" where
  "prepend s r = map_option (\<lambda>(x, rest). (s @ x, rest)) r"

text \<open>The rest of a string literal after its opening quote, and what follows it.\<close>

function p_str :: "string \<Rightarrow> (string \<times> string) option" where
  "p_str [] = None"
| "p_str (c # cs) =
     (if c = CHR 0x22 then Some ([], cs)
      else if c = CHR 0x5C then
        (case cs of [] \<Rightarrow> None
         | e # r \<Rightarrow>
             if e = CHR ''u'' then
               (case u_escape r of None \<Rightarrow> None
                | Some (v, k) \<Rightarrow> prepend (utf8 v) (p_str (drop k r)))
             else (case simple_escape e of None \<Rightarrow> None | Some x \<Rightarrow> prepend [x] (p_str r)))
      else if (of_char c :: nat) < 32 then None
      else prepend [c] (p_str cs))"
  by pat_completeness auto
termination by (relation "measure length") auto

lemma p_str_shrinks: "p_str s = Some (x, r) \<Longrightarrow> length r < length s"
proof (induction s arbitrary: x r rule: p_str.induct)
  case 1
  then show ?case by simp
next
  case (2 c cs)
  from 2 show ?case
    by (fastforce simp: prepend_def split: if_splits list.splits option.splits)
qed

section \<open>Numbers\<close>

definition p_digits :: "string \<Rightarrow> (string \<times> string) option" where
  "p_digits s = (let d = takeWhile is_digit s in if d = [] then None else Some (d, dropWhile is_digit s))"

definition p_int :: "string \<Rightarrow> (string \<times> string) option" where
  "p_int s = (case s of [] \<Rightarrow> None
     | c # cs \<Rightarrow> if c = CHR ''0'' then Some ([c], cs) else p_digits s)"

definition p_frac :: "string \<Rightarrow> (string \<times> string) option" where
  "p_frac s = (case s of [] \<Rightarrow> Some ([], s)
     | c # cs \<Rightarrow> if c = CHR ''.'' then prepend [c] (p_digits cs) else Some ([], s))"

definition p_exp :: "string \<Rightarrow> (string \<times> string) option" where
  "p_exp s = (case s of [] \<Rightarrow> Some ([], s)
     | c # cs \<Rightarrow> if c = CHR ''e'' \<or> c = CHR ''E'' then
         (case cs of [] \<Rightarrow> None
          | g # r \<Rightarrow> if g = CHR ''+'' \<or> g = CHR ''-'' then prepend [c, g] (p_digits r)
                    else prepend [c] (p_digits cs))
       else Some ([], s))"

definition p_num :: "string \<Rightarrow> (string \<times> string) option" where
  "p_num s =
     (let neg = (s \<noteq> [] \<and> hd s = CHR ''-''); s' = (if neg then tl s else s) in
      Option.bind (p_int s') (\<lambda>(a, r).
      Option.bind (p_frac r) (\<lambda>(b, r).
      Option.bind (p_exp r) (\<lambda>(c, r).
      Some ((if neg then ''-'' else []) @ a @ b @ c, r)))))"

section \<open>The parser\<close>

text \<open>The fuel bounds the nesting and the members; more than the length of the text is enough.\<close>

definition p_lit :: "string \<Rightarrow> json \<Rightarrow> string \<Rightarrow> (json \<times> string) option" where
  "p_lit l v s = (if HasPrefix s l then Some (v, drop (length l) s) else None)"

definition starts :: "char \<Rightarrow> string \<Rightarrow> bool" where
  "starts c s \<longleftrightarrow> s \<noteq> [] \<and> hd s = c"

fun p_value :: "nat \<Rightarrow> string \<Rightarrow> (json \<times> string) option"
and p_elems :: "nat \<Rightarrow> string \<Rightarrow> (json list \<times> string) option"
and p_members :: "nat \<Rightarrow> string \<Rightarrow> ((string \<times> string \<times> json) list \<times> string) option" where
  "p_value 0 s = None"
| "p_value (Suc n) s =
     (case ws s of [] \<Rightarrow> None
      | c # cs \<Rightarrow>
          if c = CHR ''{'' then
            (if starts (CHR ''}'') (ws cs) then Some (JObj [], tl (ws cs))
             else map_option (\<lambda>(ms, r). (JObj ms, r)) (p_members n cs))
          else if c = CHR ''['' then
            (if starts (CHR '']'') (ws cs) then Some (JArr [], tl (ws cs))
             else map_option (\<lambda>(vs, r). (JArr vs, r)) (p_elems n cs))
          else if c = CHR 0x22 then map_option (\<lambda>(x, r). (JStr x, r)) (p_str cs)
          else if c = CHR ''t'' then p_lit ''true'' (JBool True) (c # cs)
          else if c = CHR ''f'' then p_lit ''false'' (JBool False) (c # cs)
          else if c = CHR ''n'' then p_lit ''null'' JNull (c # cs)
          else map_option (\<lambda>(x, r). (JNum x, r)) (p_num (c # cs)))"
| "p_elems 0 s = None"
| "p_elems (Suc n) s =
     (case p_value n s of None \<Rightarrow> None
      | Some (v, r) \<Rightarrow>
          if starts (CHR '']'') (ws r) then Some ([v], tl (ws r))
          else if starts (CHR '','') (ws r) then
            map_option (\<lambda>(vs, r). (v # vs, r)) (p_elems n (tl (ws r)))
          else None)"
| "p_members 0 s = None"
| "p_members (Suc n) s =
     (if \<not> starts (CHR 0x22) (ws s) then None else
      (case p_str (tl (ws s)) of None \<Rightarrow> None
       | Some (k, r) \<Rightarrow>
          if \<not> starts (CHR '':'') (ws r) then None else
          (let r = ws (tl (ws r)) in
           (case p_value n r of None \<Rightarrow> None
            | Some (v, r') \<Rightarrow>
               (let m = (k, take (length r - length r') r, v) in
                if starts (CHR ''}'') (ws r') then Some ([m], tl (ws r'))
                else if starts (CHR '','') (ws r') then
                  map_option (\<lambda>(ms, r). (m # ms, r)) (p_members n (tl (ws r')))
                else None)))))"

text \<open>\<open>json.Unmarshal\<close> wants the whole text, a decoder only the first value of a stream.\<close>

definition json_parse :: "string \<Rightarrow> json option" where
  "json_parse s = (case p_value (2 * length s + 2) s of
     Some (v, r) \<Rightarrow> if ws r = [] then Some v else None | None \<Rightarrow> None)"

definition json_first :: "string \<Rightarrow> json option" where
  "json_first s = map_option fst (p_value (2 * length s + 2) s)"

section \<open>The fuel is enough\<close>

lemma ws_shorter: "length (ws s) \<le> length s"
  by (rule length_dropWhile_le)

lemma starts_shorter: "starts c s \<Longrightarrow> length (tl s) < length s"
  by (cases s) (simp_all add: starts_def)

lemma p_digits_shrinks: "p_digits s = Some (x, r) \<Longrightarrow> length r < length s"
  by (cases s) (auto simp: p_digits_def Let_def length_dropWhile_le le_imp_less_Suc split: if_splits)

lemma p_num_shrinks: "p_num s = Some (x, r) \<Longrightarrow> length r < length s"
proof -
  have i: "length r < length s" if "p_int s = Some (x, r)" for s x r
    using that p_digits_shrinks[of s x r] by (auto simp: p_int_def split: list.splits if_splits)
  have f: "length r \<le> length s" if "p_frac s = Some (x, r)" for s x r
    using that p_digits_shrinks by (fastforce simp: p_frac_def prepend_def split: list.splits if_splits)
  have e: "length r \<le> length s" if "p_exp s = Some (x, r)" for s x r
    using that p_digits_shrinks by (fastforce simp: p_exp_def prepend_def split: list.splits if_splits)
  assume "p_num s = Some (x, r)"
  then obtain a r1 b r2 c where "p_int (if s \<noteq> [] \<and> hd s = CHR ''-'' then tl s else s) = Some (a, r1)"
    "p_frac r1 = Some (b, r2)" "p_exp r2 = Some (c, r)"
    by (auto simp: p_num_def Let_def bind_eq_Some_conv)
  with i[OF this(1)] f[OF this(2)] e[OF this(3)] show ?thesis
    by (auto split: if_splits)
qed

lemma p_lit_shrinks: "p_lit l v s = Some (w, r) \<Longrightarrow> l \<noteq> [] \<Longrightarrow> length r < length s"
  by (auto simp: p_lit_def HasPrefix_def split: if_splits) (metis diff_less length_greater_0_conv take_Nil)

lemma parsers_shrink:
  "p_value n s = Some (v, r) \<Longrightarrow> length r < length s"
  "p_elems n s = Some (vs, r) \<Longrightarrow> length r < length s"
  "p_members n s = Some (ms, r) \<Longrightarrow> length r < length s"
proof (induction n s and n s and n s arbitrary: v r and vs r and ms r
    rule: p_value_p_elems_p_members.induct)
  case (2 n s)
  show ?case
  proof (cases "ws s")
    case Nil
    with 2 show ?thesis by simp
  next
    case (Cons c cs)
    have "length (c # cs) \<le> length s" using ws_shorter[of s] by (simp only: Cons)
    moreover have "length r < length (c # cs)"
      using 2 Cons ws_shorter[of cs] p_lit_shrinks[of _ _ "c # cs" v r]
        p_num_shrinks[of "c # cs"] p_str_shrinks[of cs] starts_shorter[of _ "ws cs"]
      by (fastforce split: if_splits)
    ultimately show ?thesis by simp
  qed
next
  case (4 n s)
  then obtain v r1 where v: "p_value n s = Some (v, r1)" by (auto split: option.splits)
  from 4(1)[OF v] have "length r1 < length s" .
  with 4 v ws_shorter[of r1] starts_shorter[of _ "ws r1"] show ?case
    by (fastforce split: if_splits)
next
  case (6 n s)
  then obtain k r1 where k: "p_str (tl (ws s)) = Some (k, r1)" "starts (CHR 0x22) (ws s)"
    "starts (CHR '':'') (ws r1)"
    by (auto simp: Let_def split: if_splits option.splits)
  with 6(3) obtain v r2 where v: "p_value n (ws (tl (ws r1))) = Some (v, r2)"
    by (auto simp: Let_def split: option.splits)
  have s: "length r1 < length s"
    using p_str_shrinks[OF k(1)] starts_shorter[OF k(2)] ws_shorter[of s] by simp
  have "length r2 < length (ws (tl (ws r1)))"
    using 6(1) k v by blast
  then have s2: "length r2 < length s"
    using s ws_shorter[of "tl (ws r1)"] starts_shorter[OF k(3)] ws_shorter[of r1] by simp
  show ?case
  proof (cases "starts (CHR ''}'') (ws r2)")
    case True
    with 6(3) k v have "r = tl (ws r2)" by (simp add: Let_def)
    with s2 starts_shorter[OF True] ws_shorter[of r2] show ?thesis by simp
  next
    case False
    with 6(3) k v have c: "starts (CHR '','') (ws r2)" by (simp add: Let_def split: if_splits)
    with False 6(3) k v obtain ms' where "p_members n (tl (ws r2)) = Some (ms', r)"
      by (auto simp: Let_def)
    with 6(2) k v False c have "length r < length (tl (ws r2))" by blast
    with s2 starts_shorter[OF c] ws_shorter[of r2] show ?thesis by simp
  qed
qed simp_all


text \<open>Any two amounts of fuel beyond twice the length give the same result.\<close>

lemma parsers_fuel:
  "2 * length s + 1 \<le> n \<Longrightarrow> n \<le> m \<Longrightarrow> p_value m s = p_value n s"
  "2 * length s + 2 \<le> n \<Longrightarrow> n \<le> m \<Longrightarrow> p_elems m s = p_elems n s"
  "2 * length s + 2 \<le> n \<Longrightarrow> n \<le> m \<Longrightarrow> p_members m s = p_members n s"
proof (induction n s and n s and n s arbitrary: m and m and m
    rule: p_value_p_elems_p_members.induct)
  case (2 n s)
  obtain k where m: "m = Suc k" "n \<le> k" using 2(4) by (cases m) auto
  show ?case
  proof (cases "ws s")
    case Nil
    then show ?thesis by (simp only: m p_value.simps list.case)
  next
    case (Cons c cs)
    then have "length cs < length s" using ws_shorter[of s] by (metis Suc_le_lessD length_Cons)
    then have n: "2 * length cs + 2 \<le> n" using 2(3) by simp
    have "p_members k cs = p_members n cs"
      if "c = CHR ''{''" "\<not> starts (CHR ''}'') (ws cs)"
      using 2(1)[OF Cons that n m(2)] .
    moreover have "p_elems k cs = p_elems n cs"
      if "c = CHR ''[''" "\<not> starts (CHR '']'') (ws cs)"
      using 2(2)[OF Cons _ that n m(2)] that by simp
    ultimately show ?thesis unfolding m(1) p_value.simps Cons list.case
      by (intro if_cong refl) simp_all
  qed
next
  case (4 n s)
  obtain k where m: "m = Suc k" "n \<le> k" using 4(4) by (cases m) auto
  have v: "p_value k s = p_value n s" using 4(1)[OF _ m(2)] 4(3) by simp
  show ?case
  proof (cases "p_value n s")
    case None
    then show ?thesis by (simp add: m v)
  next
    case (Some vr)
    then obtain v0 r where vr: "p_value n s = Some (v0, r)" by (cases vr) auto
    have "p_elems k (tl (ws r)) = p_elems n (tl (ws r))"
      if e: "\<not> starts (CHR '']'') (ws r)" "starts (CHR '','') (ws r)"
    proof -
      have "2 * length (tl (ws r)) + 2 \<le> n"
        using parsers_shrink(1)[OF vr] starts_shorter[OF e(2)] ws_shorter[of r] 4(3) by linarith
      from 4(2)[OF vr refl e this m(2)] show ?thesis .
    qed
    then show ?thesis unfolding m(1) p_elems.simps v vr option.case prod.case
      by (intro if_cong refl) simp
  qed
next
  case (6 n s)
  obtain k where m: "m = Suc k" "n \<le> k" using 6(4) by (cases m) auto
  show ?case
  proof (cases "starts (CHR 0x22) (ws s)")
    case False
    then show ?thesis by (simp add: m)
  next
    case q: True
    show ?thesis
    proof (cases "p_str (tl (ws s))")
      case None
      with q show ?thesis by (simp add: m)
    next
      case (Some kr)
      then obtain key r1 where k: "p_str (tl (ws s)) = Some (key, r1)" by (cases kr) auto
      show ?thesis
      proof (cases "starts (CHR '':'') (ws r1)")
        case False
        with q k show ?thesis by (simp add: m)
      next
        case c: True
        have "length r1 < length s"
          using p_str_shrinks[OF k] starts_shorter[OF q] ws_shorter[of s] by simp
        then have s: "length (ws (tl (ws r1))) + 1 < length s"
          using ws_shorter[of "tl (ws r1)"] starts_shorter[OF c] ws_shorter[of r1] by simp
        then have v: "p_value k (ws (tl (ws r1))) = p_value n (ws (tl (ws r1)))"
          using 6(1)[OF _ k refl _ refl _ m(2)] q c 6(3) by simp
        show ?thesis
        proof (cases "p_value n (ws (tl (ws r1)))")
          case None
          with q k c show ?thesis by (simp add: m v Let_def)
        next
          case (Some vr)
          then obtain v0 r2 where vr: "p_value n (ws (tl (ws r1))) = Some (v0, r2)" by (cases vr) auto
          have rest: "p_members k (tl (ws r2)) = p_members n (tl (ws r2))"
            if "\<not> starts (CHR ''}'') (ws r2)" "starts (CHR '','') (ws r2)"
          proof -
            have "length (tl (ws r2)) + 1 < length s"
              using parsers_shrink(1)[OF vr] s starts_shorter[OF that(2)] ws_shorter[of r2] by simp
            then show ?thesis
              using 6(2)[OF _ k refl _ refl vr refl refl that, of k] q c 6(3) m(2) by simp
          qed
          show ?thesis
            unfolding m(1) p_members.simps k vr v option.case prod.case Let_def
            by (intro if_cong refl) (simp add: rest)
        qed
      qed
    qed
  qed
qed simp_all

section \<open>Filling a struct\<close>

text \<open>
  A member goes to the field whose name it equals up to case; the last one wins. \<open>null\<close> leaves a
  field as it is (a pointer becomes nil, a raw message the text \<open>null\<close>), a value of another type is an
  error, reported after the whole object has been read.
\<close>

definition field_of :: "string \<Rightarrow> (string \<times> string \<times> json) list \<Rightarrow> (string \<times> json) list" where
  "field_of name ms = map snd (filter (\<lambda>m. EqualFold (fst m) name) ms)"

definition string_field :: "(string \<times> json) list \<Rightarrow> string" where
  "string_field vs = foldl (\<lambda>cur (raw, v). case v of JStr x \<Rightarrow> x | _ \<Rightarrow> cur) [] vs"

definition string_field_ok :: "(string \<times> json) list \<Rightarrow> bool" where
  "string_field_ok vs = list_all (\<lambda>(raw, v). case v of JStr x \<Rightarrow> True | JNull \<Rightarrow> True | _ \<Rightarrow> False) vs"

definition bool_field :: "(string \<times> json) list \<Rightarrow> bool" where
  "bool_field vs = foldl (\<lambda>cur (raw, v). case v of JBool b \<Rightarrow> b | _ \<Rightarrow> cur) False vs"

definition bool_field_ok :: "(string \<times> json) list \<Rightarrow> bool" where
  "bool_field_ok vs = list_all (\<lambda>(raw, v). case v of JBool x \<Rightarrow> True | JNull \<Rightarrow> True | _ \<Rightarrow> False) vs"

definition string_ptr :: "(string \<times> json) list \<Rightarrow> string option" where
  "string_ptr vs = foldl (\<lambda>cur (raw, v). case v of JStr x \<Rightarrow> Some x | JNull \<Rightarrow> None | _ \<Rightarrow> cur) None vs"

definition bool_ptr :: "(string \<times> json) list \<Rightarrow> bool option" where
  "bool_ptr vs = foldl (\<lambda>cur (raw, v). case v of JBool x \<Rightarrow> Some x | JNull \<Rightarrow> None | _ \<Rightarrow> cur) None vs"

definition raw_field :: "(string \<times> json) list \<Rightarrow> string" where
  "raw_field vs = (if vs = [] then [] else fst (last vs))"

text \<open>The members of a value decoded into a struct: \<open>null\<close> has none, any other value is an error.\<close>

definition members :: "json \<Rightarrow> (string \<times> string \<times> json) list option" where
  "members v = (case v of JObj ms \<Rightarrow> Some ms | JNull \<Rightarrow> Some [] | _ \<Rightarrow> None)"

end
