(* ===== verification/GoFloat.thy ===== *)
theory GoFloat
  imports Float64 Json
begin

text \<open>
  Texts of numbers: \<open>strconv.ParseFloat\<close> (decimal and hexadecimal, with exponents and underscores, as
  \<open>readFloat\<close> scans them) and \<open>%g\<close> of a positive float64 (the shortest decimal that reads back).
\<close>

section \<open>\<open>strconv.ParseFloat\<close>\<close>

abbreviation is_hex :: "char \<Rightarrow> bool" where
  "is_hex c \<equiv> hex_digit c \<noteq> None"

definition read_sign :: "string \<Rightarrow> bool \<times> string" where
  "read_sign s = (if starts (CHR ''-'') s then (True, tl s)
     else if starts (CHR ''+'') s then (False, tl s) else (False, s))"

text \<open>The digits of the mantissa, how many of them follow the dot, and the rest.\<close>

fun scan_mantissa :: "bool \<Rightarrow> bool \<Rightarrow> string \<Rightarrow> string \<times> nat \<times> string" where
  "scan_mantissa hex dot [] = ([], 0, [])"
| "scan_mantissa hex dot (c # cs) =
     (if c = CHR ''_'' then scan_mantissa hex dot cs
      else if c = CHR ''.'' then (if dot then ([], 0, c # cs) else scan_mantissa hex True cs)
      else if is_digit c \<or> hex \<and> is_hex c then
        (case scan_mantissa hex dot cs of (ds, k, r) \<Rightarrow> (c # ds, if dot then Suc k else k, r))
      else ([], 0, c # cs))"

text \<open>The exponent, the rest, and whether there was one; the value stops growing at 10000.\<close>

definition read_exponent :: "char \<Rightarrow> string \<Rightarrow> (int \<times> string \<times> bool) option" where
  "read_exponent e r =
     (if r \<noteq> [] \<and> lower_char (hd r) = e then
        (case read_sign (tl r) of (neg, ds) \<Rightarrow>
           if ds = [] \<or> \<not> is_digit (hd ds) then None
           else (let p = (\<lambda>c. is_digit c \<or> c = CHR ''_'');
                     n = foldl (\<lambda>a c. if a < 10000 then 10 * a + digit_val c else a) 0
                           (filter is_digit (takeWhile p ds))
                 in Some (if neg then - n else n, dropWhile p ds, True)))
      else Some (0, r, False))"

text \<open>\<open>saw\<close> is the kind of the last character: start, digit, underscore, or another one.\<close>

fun underscores_ok :: "bool \<Rightarrow> char \<Rightarrow> string \<Rightarrow> bool" where
  "underscores_ok hex saw [] \<longleftrightarrow> saw \<noteq> CHR ''_''"
| "underscores_ok hex saw (c # cs) \<longleftrightarrow>
     (if is_digit c \<or> hex \<and> is_hex c then underscores_ok hex (CHR ''0'') cs
      else if c = CHR ''_'' then saw = CHR ''0'' \<and> underscores_ok hex (CHR ''_'') cs
      else saw \<noteq> CHR ''_'' \<and> underscores_ok hex (CHR ''!'') cs)"

definition hex_val :: "string \<Rightarrow> int" where
  "hex_val s = foldl (\<lambda>a c. 16 * a + int (case hex_digit c of Some n \<Rightarrow> n | None \<Rightarrow> 0)) 0 s"

definition pow10 :: "int \<Rightarrow> rat" where
  "pow10 e = (if 0 \<le> e then 10 ^ nat e else 1 / 10 ^ nat (- e))"

definition readFloat :: "string \<Rightarrow> rat option" where
  "readFloat s = (case read_sign s of (neg, b) \<Rightarrow>
     let hex = (length b > 2 \<and> b ! 0 = CHR ''0'' \<and> lower_char (b ! 1) = CHR ''x'');
         body = (if hex then drop 2 b else b) in
     case scan_mantissa hex False body of (ds, k, r) \<Rightarrow>
       if ds = [] then None
       else (case read_exponent (if hex then CHR ''p'' else CHR ''e'') r of
           None \<Rightarrow> None
         | Some (e, rest, seen) \<Rightarrow>
             if rest \<noteq> [] \<or> hex \<and> \<not> seen then None
             else if CHR ''_'' \<in> set b \<and> \<not> underscores_ok hex (if hex then CHR ''0'' else CHR ''^'') body
               then None
             else (let q = (if hex then of_int (hex_val ds) * pow2 (e - 4 * int k)
                            else of_int (digits_val ds) * pow10 (e - int k))
                   in Some (if neg then - q else q))))"

text \<open>
  The value and whether there was no error. A syntax error gives 0, a value out of range an
  infinity, both with an error.
\<close>

definition ParseFloat :: "string \<Rightarrow> float64 \<times> bool" where
  "ParseFloat s = (case read_sign s of (neg, b) \<Rightarrow>
     if ToLower b \<in> {''inf'', ''infinity''} then (Inf neg, True)
     else if ToLower s = ''nan'' then (NaN, True)
     else (case readFloat s of None \<Rightarrow> (Fin 0, False)
       | Some q \<Rightarrow> (case round64 q of Inf sg \<Rightarrow> (Inf sg, False) | v \<Rightarrow> (v, True))))"

section \<open>\<open>%g\<close>\<close>

text \<open>The position of the decimal point: \<open>10^(p-1) \<le> q < 10^p\<close>, for a positive float64.\<close>

fun lead_zeros :: "nat \<Rightarrow> rat \<Rightarrow> nat" where
  "lead_zeros 0 q = 0"
| "lead_zeros (Suc n) q = (if 1 \<le> 10 * q then 0 else Suc (lead_zeros n (10 * q)))"

definition dec_point :: "rat \<Rightarrow> int" where
  "dec_point q = (if 1 \<le> q then int (length (nat_digits (nat \<lfloor>q\<rfloor>))) else - int (lead_zeros 400 q))"

text \<open>The \<open>n\<close> digits that read back as \<open>q\<close> and are nearest to it, if there are any.\<close>

definition digits_at :: "rat \<Rightarrow> nat \<Rightarrow> int option" where
  "digits_at q n =
     (let x = dec_point q - int n; u = pow10 x; lo = \<lfloor>q / u\<rfloor>;
          back = (\<lambda>m. round64 (of_int m * u) = Fin q); near = round_even (q / u)
      in if back near then Some near else if back lo then Some lo
         else if back (lo + 1) then Some (lo + 1) else None)"

fun shortest :: "rat \<Rightarrow> nat list \<Rightarrow> int \<times> int" where
  "shortest q [] = (\<lfloor>q / pow10 (dec_point q - 17)\<rfloor>, dec_point q - 17)"
| "shortest q (n # ns) = (case digits_at q n of Some m \<Rightarrow> (m, dec_point q - int n) | None \<Rightarrow> shortest q ns)"

definition exp_text :: "int \<Rightarrow> string" where
  "exp_text e = (let d = Itoa \<bar>e\<bar> in
     CHR ''e'' # (if e < 0 then CHR ''-'' else CHR ''+'') # (if length d < 2 then CHR ''0'' # d else d))"

definition FormatG :: "rat \<Rightarrow> string" where
  "FormatG q = (case shortest q (map Suc [0..<17]) of (m, x) \<Rightarrow>
     let ds = TrimRight (Itoa m) ''0''; p = int (length (Itoa m)) + x in
     if p - 1 < -4 \<or> 6 \<le> p - 1 then
       hd ds # (if tl ds = [] then [] else CHR ''.'' # tl ds) @ exp_text (p - 1)
     else if p \<le> 0 then ''0.'' @ replicate (nat (- p)) (CHR ''0'') @ ds
     else if int (length ds) \<le> p then ds @ replicate (nat p - length ds) (CHR ''0'')
     else take (nat p) ds @ CHR ''.'' # drop (nat p) ds)"

end
