(* ===== verification/GoTime.thy ===== *)
theory GoTime
  imports GoStrings
begin

text \<open>
  \<open>time.Parse\<close> for the two layouts of the program, \<open>2006-01-02T15:04:05Z07:00\<close> (RFC 3339) and
  \<open>2006-01-02 15:04:05-07:00\<close>. Instants are nanoseconds since 1970 in UTC.
\<close>

section \<open>The calendar\<close>

definition leap :: "int \<Rightarrow> bool" where
  "leap y \<longleftrightarrow> y mod 4 = 0 \<and> (y mod 100 \<noteq> 0 \<or> y mod 400 = 0)"

definition days_in :: "int \<Rightarrow> int \<Rightarrow> int" where
  "days_in m y = (if m = 2 then (if leap y then 29 else 28) else if m \<in> {4, 6, 9, 11} then 30 else 31)"

text \<open>The days before the first of January of a year, counted from that of year 1.\<close>

definition days_before_year :: "int \<Rightarrow> int" where
  "days_before_year y = (let n = y - 1 in 365 * n + n div 4 - n div 100 + n div 400)"

definition days_before_month :: "int \<Rightarrow> int \<Rightarrow> int" where
  "days_before_month m y = (\<Sum>i\<leftarrow>[1..m - 1]. days_in i y)"

text \<open>719162 days lie between the first of January of year 1 and that of 1970.\<close>

definition instant :: "int \<Rightarrow> int \<Rightarrow> int \<Rightarrow> int \<Rightarrow> int \<Rightarrow> int \<Rightarrow> int \<Rightarrow> int" where
  "instant y mo d h mi s ns =
     (((days_before_year y + days_before_month mo y + d - 1 - 719162) * 86400
        + h * 3600 + mi * 60 + s) * 1000000000) + ns"

section \<open>Scanning\<close>

text \<open>Two digits; \<open>strict = False\<close> accepts one.\<close>

definition getnum :: "bool \<Rightarrow> string \<Rightarrow> (int \<times> string) option" where
  "getnum strict s = (case s of
     a # b # r \<Rightarrow> if is_digit a then
         (if is_digit b then Some (10 * digit_val a + digit_val b, r)
          else if strict then None else Some (digit_val a, b # r)) else None
   | [a] \<Rightarrow> if is_digit a \<and> \<not> strict then Some (digit_val a, []) else None
   | [] \<Rightarrow> None)"

definition ranged :: "int \<Rightarrow> int \<Rightarrow> (int \<times> string) option \<Rightarrow> (int \<times> string) option" where
  "ranged lo hi r = (case r of Some (v, s) \<Rightarrow> if lo \<le> v \<and> v \<le> hi then r else None | None \<Rightarrow> None)"

definition expect :: "char \<Rightarrow> string \<Rightarrow> string option" where
  "expect c s = (case s of a # r \<Rightarrow> if a = c then Some r else None | [] \<Rightarrow> None)"

text \<open>A blank of the layout stands for any number of blanks, but not for another character.\<close>

definition expect_blank :: "string \<Rightarrow> string option" where
  "expect_blank s = (if s \<noteq> [] \<and> hd s \<noteq> CHR '' '' then None else Some (dropWhile (\<lambda>c. c = CHR '' '') s))"

definition get_year :: "string \<Rightarrow> (int \<times> string) option" where
  "get_year s = (if length s < 4 \<or> \<not> list_all is_digit (take 4 s) then None
     else Some (digits_val (take 4 s), drop 4 s))"

text \<open>A fraction of a second is accepted where the layout has none; nine digits of it count.\<close>

definition get_fraction :: "string \<Rightarrow> int \<times> string" where
  "get_fraction s = (case s of
     c # d # r \<Rightarrow> if (c = CHR ''.'' \<or> c = CHR '','') \<and> is_digit d then
         (let ds = takeWhile is_digit (d # r); u = take 9 ds in
          (digits_val u * 10 ^ (9 - length u), dropWhile is_digit (d # r)))
       else (0, s)
   | _ \<Rightarrow> (0, s))"

text \<open>A numeric offset in seconds; 24 hours and 60 minutes are accepted.\<close>

definition get_offset :: "string \<Rightarrow> (int \<times> string) option" where
  "get_offset s = (if length s < 6 \<or> s ! 3 \<noteq> CHR '':'' then None
     else (case (ranged 0 24 (getnum True (take 2 (drop 1 s))), ranged 0 60 (getnum True (take 2 (drop 4 s)))) of
         (Some (h, _), Some (m, _)) \<Rightarrow>
           if hd s = CHR ''+'' then Some ((h * 60 + m) * 60, drop 6 s)
           else if hd s = CHR ''-'' then Some (- ((h * 60 + m) * 60), drop 6 s) else None
       | _ \<Rightarrow> None))"

definition get_zone :: "bool \<Rightarrow> string \<Rightarrow> (int \<times> string) option" where
  "get_zone allowZ s = (if allowZ \<and> s \<noteq> [] \<and> hd s = CHR ''Z'' then Some (0, tl s) else get_offset s)"

section \<open>\<open>time.Parse\<close>\<close>

definition parse_date :: "string \<Rightarrow> ((int \<times> int \<times> int) \<times> string) option" where
  "parse_date s =
     Option.bind (get_year s) (\<lambda>(y, s).
     Option.bind (expect (CHR ''-'') s) (\<lambda>s.
     Option.bind (ranged 1 12 (getnum True s)) (\<lambda>(mo, s).
     Option.bind (expect (CHR ''-'') s) (\<lambda>s.
     Option.bind (getnum True s) (\<lambda>(d, s). Some ((y, mo, d), s))))))"

definition parse_clock :: "string \<Rightarrow> ((int \<times> int \<times> int \<times> int) \<times> string) option" where
  "parse_clock s =
     Option.bind (ranged 0 23 (getnum False s)) (\<lambda>(h, s).
     Option.bind (expect (CHR '':'') s) (\<lambda>s.
     Option.bind (ranged 0 59 (getnum True s)) (\<lambda>(mi, s).
     Option.bind (expect (CHR '':'') s) (\<lambda>s.
     Option.bind (ranged 0 59 (getnum True s)) (\<lambda>(sec, s).
     case get_fraction s of (ns, s) \<Rightarrow> Some ((h, mi, sec, ns), s))))))"

definition parse_time :: "(string \<Rightarrow> string option) \<Rightarrow> bool \<Rightarrow> string \<Rightarrow> int option" where
  "parse_time sep allowZ s =
     Option.bind (parse_date s) (\<lambda>((y, mo, d), s).
     Option.bind (sep s) (\<lambda>s.
     Option.bind (parse_clock s) (\<lambda>((h, mi, sec, ns), s).
     Option.bind (get_zone allowZ s) (\<lambda>(off, s).
     if s \<noteq> [] \<or> d < 1 \<or> days_in mo y < d then None
     else Some (instant y mo d h mi sec ns - off * 1000000000)))))"

definition parse_rfc3339 :: "string \<Rightarrow> int option" where
  "parse_rfc3339 = parse_time (expect (CHR ''T'')) True"

definition parse_spaced :: "string \<Rightarrow> int option" where
  "parse_spaced = parse_time expect_blank False"

section \<open>Reading back\<close>

text \<open>RFC 3339 text: two digits, four digits, a numeric offset, and the whole.\<close>

definition digit :: "int \<Rightarrow> char" where
  "digit n = char_of (nat n + 48)"

definition two :: "int \<Rightarrow> string" where
  "two n = [digit (n div 10), digit (n mod 10)]"

definition offset_text :: "bool \<Rightarrow> int \<Rightarrow> int \<Rightarrow> string" where
  "offset_text neg h m = (if neg then CHR ''-'' else CHR ''+'') # two h @ '':'' @ two m"

definition rfc3339 :: "int \<Rightarrow> int \<Rightarrow> int \<Rightarrow> int \<Rightarrow> int \<Rightarrow> int \<Rightarrow> string \<Rightarrow> string" where
  "rfc3339 y mo d h mi s zone = two (y div 100) @ two (y mod 100) @ ''-'' @ two mo @ ''-'' @ two d @ ''T''
     @ two h @ '':'' @ two mi @ '':'' @ two s @ zone"

lemma digit_facts: "0 \<le> n \<Longrightarrow> n \<le> 9 \<Longrightarrow> is_digit (digit n) \<and> digit_val (digit n) = n"
  by (auto simp: is_digit_def digit_val_def digit_def)

lemma two_digits:
  assumes "0 \<le> n" "n \<le> 99"
  shows "getnum strict (two n @ r) = Some (n, r)" "list_all is_digit (two n)"
    "digit_val (digit (n div 10)) = n div 10" "digit_val (digit (n mod 10)) = n mod 10"
proof -
  have "0 \<le> n div 10 \<and> n div 10 \<le> 9" "0 \<le> n mod 10 \<and> n mod 10 \<le> 9" using assms by auto
  then have "is_digit (digit (n div 10))" "is_digit (digit (n mod 10))"
    "digit_val (digit (n div 10)) = n div 10" "digit_val (digit (n mod 10)) = n mod 10"
    using digit_facts by auto
  then show "getnum strict (two n @ r) = Some (n, r)" "list_all is_digit (two n)"
    "digit_val (digit (n div 10)) = n div 10" "digit_val (digit (n mod 10)) = n mod 10"
    by (simp_all add: getnum_def two_def)
qed

lemma get_year_append: "length p = 4 \<Longrightarrow> list_all is_digit p \<Longrightarrow> get_year (p @ r) = Some (digits_val p, r)"
  by (simp add: get_year_def)

lemma get_year_text:
  assumes "0 \<le> y" "y \<le> 9999"
  shows "get_year (two (y div 100) @ two (y mod 100) @ r) = Some (y, r)"
proof -
  have a: "0 \<le> y div 100" "y div 100 \<le> 99" and b: "0 \<le> y mod 100" "y mod 100 \<le> 99" using assms by auto
  have "digits_val (two (y div 100) @ two (y mod 100)) = y"
    using two_digits(3,4)[OF a] two_digits(3,4)[OF b] by (simp add: digits_val_def two_def)
  moreover have "get_year ((two (y div 100) @ two (y mod 100)) @ r)
      = Some (digits_val (two (y div 100) @ two (y mod 100)), r)"
    by (rule get_year_append) (use two_digits(2)[OF a] two_digits(2)[OF b] in \<open>simp_all add: two_def\<close>)
  ultimately show ?thesis by simp
qed

lemma get_offset_text:
  assumes "0 \<le> h" "h \<le> 23" "0 \<le> m" "m \<le> 59"
  shows "get_offset (offset_text neg h m @ r) = Some ((if neg then -1 else 1) * ((h * 60 + m) * 60), r)"
proof -
  have "getnum True (two h) = Some (h, [])" "getnum True (two m) = Some (m, [])"
    using two_digits(1)[of h True "[]"] two_digits(1)[of m True "[]"] assms by simp_all
  then show ?thesis using assms by (simp add: get_offset_def offset_text_def two_def ranged_def)
qed

lemma get_zone_text:
  "get_zone True ''Z'' = Some (0, [])" "get_fraction ''Z'' = (0, ''Z'')"
  "0 \<le> h \<Longrightarrow> h \<le> 23 \<Longrightarrow> 0 \<le> m \<Longrightarrow> m \<le> 59
     \<Longrightarrow> get_zone True (offset_text neg h m) = Some ((if neg then -1 else 1) * ((h * 60 + m) * 60), [])"
  "get_fraction (offset_text neg h m) = (0, offset_text neg h m)"
proof -
  show "get_zone True ''Z'' = Some (0, [])" "get_fraction ''Z'' = (0, ''Z'')"
    by (simp_all add: get_zone_def get_fraction_def)
  show "get_fraction (offset_text neg h m) = (0, offset_text neg h m)"
    by (cases neg) (simp_all add: get_fraction_def offset_text_def two_def)
  have "get_zone True (offset_text neg h m) = get_offset (offset_text neg h m @ [])"
    by (simp add: get_zone_def offset_text_def)
  also assume "0 \<le> h" "h \<le> 23" "0 \<le> m" "m \<le> 59"
  then have "get_offset (offset_text neg h m @ []) = Some ((if neg then -1 else 1) * ((h * 60 + m) * 60), [])"
    by (rule get_offset_text)
  finally show "get_zone True (offset_text neg h m) = Some ((if neg then -1 else 1) * ((h * 60 + m) * 60), [])" .
qed

text \<open>The date and the clock, with the fraction of a second and the zone behind them.\<close>

lemma parse_rfc3339_parts:
  assumes "0 \<le> y" "y \<le> 9999" and "1 \<le> mo" "mo \<le> 12" and "1 \<le> d" "d \<le> days_in mo y"
    and "0 \<le> h" "h \<le> 23" and "0 \<le> mi" "mi \<le> 59" and "0 \<le> s" "s \<le> 59"
    and z: "get_fraction z = (ns, z')" "get_zone True z' = Some (off, [])"
  shows "parse_rfc3339 (rfc3339 y mo d h mi s z) = Some (instant y mo d h mi s ns - off * 1000000000)"
proof -
  have d: "d \<le> 99" using assms by (auto simp: days_in_def split: if_splits)
  have "parse_date (two (y div 100) @ two (y mod 100) @ ''-'' @ two mo @ ''-'' @ two d @ r) = Some ((y, mo, d), r)" for r
    using assms d two_digits(1)[of mo True] two_digits(1)[of d True]
    by (simp add: parse_date_def get_year_text expect_def ranged_def)
  moreover have "parse_clock (two h @ '':'' @ two mi @ '':'' @ two s @ z) = Some ((h, mi, s, ns), z')"
    using assms two_digits(1)[of h False] two_digits(1)[of mi True] two_digits(1)[of s True]
    by (simp add: parse_clock_def expect_def ranged_def)
  ultimately show ?thesis
    using assms by (simp add: parse_rfc3339_def parse_time_def rfc3339_def expect_def)
qed

lemma parse_rfc3339_text:
  assumes "0 \<le> y" "y \<le> 9999" and "1 \<le> mo" "mo \<le> 12" and "1 \<le> d" "d \<le> days_in mo y"
    and "0 \<le> h" "h \<le> 23" and "0 \<le> mi" "mi \<le> 59" and "0 \<le> s" "s \<le> 59"
  shows "parse_rfc3339 (rfc3339 y mo d h mi s ''Z'') = Some (instant y mo d h mi s 0)"
    "0 \<le> zh \<Longrightarrow> zh \<le> 23 \<Longrightarrow> 0 \<le> zm \<Longrightarrow> zm \<le> 59
      \<Longrightarrow> parse_rfc3339 (rfc3339 y mo d h mi s (offset_text neg zh zm))
        = Some (instant y mo d h mi s 0 - (if neg then -1 else 1) * (zh * 3600 + zm * 60) * 1000000000)"
  using parse_rfc3339_parts[OF assms get_zone_text(2,1)]
    parse_rfc3339_parts[OF assms get_zone_text(4) get_zone_text(3), of zh zm neg]
  by (simp_all add: algebra_simps)

end
