(* ===== verification/GoNet.thy ===== *)
theory GoNet
  imports Json
begin

text \<open>
  IP addresses and \<open>net.ParseIP\<close>, which gives the 16-byte form: dotted decimals (four numbers up to
  255 without leading zeros) and the colon form of IPv6 with an optional ellipsis and an optional
  dotted tail, as \<open>net/netip\<close> scans them. A zone makes the text no address.
\<close>

text \<open>An IP address: its bytes, 4 or 16 of them.\<close>

type_synonym ip = "nat list"

section \<open>Dotted decimals\<close>

definition octet :: "string \<Rightarrow> nat option" where
  "octet s = (if s = [] \<or> \<not> list_all is_digit s \<or> (length s > 1 \<and> hd s = CHR ''0'') \<or> digits_val s > 255
     then None else Some (nat (digits_val s)))"

definition parseIPv4 :: "string \<Rightarrow> ip option" where
  "parseIPv4 s = (case map octet (split_on (CHR ''.'') s) of
     [Some a, Some b, Some c, Some d] \<Rightarrow> Some [a, b, c, d] | _ \<Rightarrow> None)"

text \<open>The IPv4-mapped form of an IPv4 address.\<close>

definition mapped :: "ip \<Rightarrow> ip" where
  "mapped a = replicate 10 0 @ [255, 255] @ a"

section \<open>Groups of four hexadecimal digits\<close>

definition group_val :: "string \<Rightarrow> nat" where
  "group_val s = foldl (\<lambda>a c. 16 * a + (case hex_digit c of Some n \<Rightarrow> n | None \<Rightarrow> 0)) 0 s"

text \<open>
  \<open>groups n acc ell s\<close>: what \<open>n\<close> more groups of \<open>s\<close> add to the bytes \<open>acc\<close> read so far, and after how
  many bytes the ellipsis stands. The text must be used up.
\<close>

fun groups :: "nat \<Rightarrow> ip \<Rightarrow> nat option \<Rightarrow> string \<Rightarrow> (ip \<times> nat option) option" where
  "groups 0 acc ell s = (if s = [] then Some (acc, ell) else None)"
| "groups (Suc n) acc ell s =
     (let h = takeWhile (\<lambda>c. hex_digit c \<noteq> None) s; r = dropWhile (\<lambda>c. hex_digit c \<noteq> None) s in
      if h = [] \<or> length h > 4 then None
      else if starts (CHR ''.'') r then
        (if ell = None \<and> length acc \<noteq> 12 \<or> length acc > 12 then None
         else map_option (\<lambda>v4. (acc @ v4, ell)) (parseIPv4 s))
      else (let acc' = acc @ [group_val h div 256, group_val h mod 256] in
        case r of [] \<Rightarrow> Some (acc', ell)
        | c # r1 \<Rightarrow>
            if c \<noteq> CHR '':'' \<or> r1 = [] then None
            else if hd r1 = CHR '':'' then
              (if ell \<noteq> None then None
               else if tl r1 = [] then Some (acc', Some (length acc'))
               else groups n acc' (Some (length acc')) (tl r1))
            else groups n acc' ell r1))"

definition parseIPv6 :: "string \<Rightarrow> ip option" where
  "parseIPv6 s =
     (if s = ''::'' then Some (replicate 16 0)
      else (case (if HasPrefix s ''::'' then groups 8 [] (Some 0) (drop 2 s) else groups 8 [] None s) of
        None \<Rightarrow> None
      | Some (bs, None) \<Rightarrow> if length bs = 16 then Some bs else None
      | Some (bs, Some k) \<Rightarrow>
          if length bs < 16 then Some (take k bs @ replicate (16 - length bs) 0 @ drop k bs) else None))"

section \<open>\<open>net.ParseIP\<close>\<close>

definition ParseIP :: "string \<Rightarrow> ip option" where
  "ParseIP s = (case find (\<lambda>c. c \<in> {CHR ''.'', CHR '':'', CHR ''%''}) s of
     None \<Rightarrow> None
   | Some c \<Rightarrow> if CHR ''%'' \<in> set s then None
       else if c = CHR ''.'' then map_option mapped (parseIPv4 s) else parseIPv6 s)"

text \<open>The text of an IPv4 address reads back as its mapped form.\<close>

definition dotted :: "nat \<Rightarrow> nat \<Rightarrow> nat \<Rightarrow> nat \<Rightarrow> string" where
  "dotted a b c d = nat_digits a @ ''.'' @ nat_digits b @ ''.'' @ nat_digits c @ ''.'' @ nat_digits d"

end
