(* ===== verification/EnvPersist.thy ===== *)
theory EnvPersist
  imports GoStrings
begin

text \<open>
  The env file writer of the auth bootstrap (\<open>internal/userver_auth/envpersist.go\<close>): quoting and
  unquoting of values, the reader that keeps the last assignment of each key, the filter that
  protects values an operator has set, and the upsert that rewrites the file. The file system is a
  record: the file's content (or none) and the errors a read or a write returns. A Go map that the
  code ranges over is an association list with distinct keys: its order stands for the order of the
  range, so a theorem for every such list covers every iteration order.
\<close>

section \<open>Values\<close>

definition dquote :: char where "dquote = CHR 0x22"
definition bslash :: char where "bslash = CHR 0x5C"

lemmas env_chars = dquote_def bslash_def go_newline_def go_cr_def

fun unescape :: "string \<Rightarrow> string" where
  "unescape [] = []"
| "unescape [c] = [c]"
| "unescape (c # d # s) =
     (if c = bslash then
        (if d = dquote \<or> d = bslash then d # unescape s
         else if d = CHR ''n'' then go_newline # unescape s
         else if d = CHR ''r'' then go_cr # unescape s
         else c # unescape (d # s))
      else c # unescape (d # s))"

definition parseEnvValue :: "string \<Rightarrow> string" where
  "parseEnvValue raw =
     (let v = TrimSpace (TrimSuffix raw [go_cr])
      in if 2 \<le> length v \<and> hd v = dquote \<and> last v = dquote
         then unescape (butlast (tl v)) else v)"

definition isPlaceholderEnvValue :: "string \<Rightarrow> bool" where
  "isPlaceholderEnvValue v = (let t = TrimSpace v in Contains t ''<'' \<and> Contains t ''>'')"

definition special_char :: "char \<Rightarrow> bool" where
  "special_char c \<longleftrightarrow> (of_char c :: nat) \<le> 32 \<or> c = CHR ''#'' \<or> c = dquote \<or> c = CHR 0x27
                       \<or> c = CHR ''='' \<or> c = CHR ''$''"

definition needsQuote :: "string \<Rightarrow> bool" where
  "needsQuote s \<longleftrightarrow> s = [] \<or> list_ex special_char s"

fun escape :: "string \<Rightarrow> string" where
  "escape [] = []"
| "escape (c # s) =
     (if c = dquote \<or> c = bslash then bslash # c # escape s
      else if c = go_newline then bslash # CHR ''n'' # escape s
      else if c = go_cr then bslash # CHR ''r'' # escape s
      else c # escape s)"

definition formatEnvValue :: "string \<Rightarrow> string" where
  "formatEnvValue s = (if needsQuote s then dquote # escape s @ [dquote] else s)"

section \<open>Lines\<close>

definition is_key_start :: "char \<Rightarrow> bool" where
  "is_key_start c \<longleftrightarrow> (let n = (of_char c :: nat) in
     (65 \<le> n \<and> n \<le> 90) \<or> (97 \<le> n \<and> n \<le> 122) \<or> n = 95)"

definition is_key_char :: "char \<Rightarrow> bool" where
  "is_key_char c \<longleftrightarrow> is_key_start c \<or> is_digit c"

definition is_env_key :: "string \<Rightarrow> bool" where
  "is_env_key k \<longleftrightarrow> k \<noteq> [] \<and> is_key_start (hd k) \<and> list_all is_key_char k"

text \<open>The groups of \<open>^([A-Za-z_][A-Za-z0-9_]*)=(.*)$\<close> on a line, where \<open>.\<close> is no newline.\<close>

definition envLineKey :: "string \<Rightarrow> (string \<times> string) option" where
  "envLineKey line =
     (let k = takeWhile is_key_char line in
      case dropWhile is_key_char line of
        [] \<Rightarrow> None
      | c # v \<Rightarrow> if c = CHR ''='' \<and> is_env_key k \<and> go_newline \<notin> set v then Some (k, v) else None)"

record env_file =
  ef_content :: "string option"
  ef_read_err :: "err option"
  ef_write_err :: "err option"

definition content_lines :: "string \<Rightarrow> string list" where
  "content_lines raw =
     (let content = TrimSuffix (replace_crlf raw) [go_newline]
      in if content = [] then [] else split_on go_newline content)"

definition read_line :: "(string \<rightharpoonup> string) \<Rightarrow> string \<Rightarrow> (string \<rightharpoonup> string)" where
  "read_line out line =
     (let t = TrimSpace line in
      if t = [] \<or> HasPrefix t ''#'' then out
      else case envLineKey line of
             None \<Rightarrow> out
           | Some (k, v) \<Rightarrow> out(k \<mapsto> parseEnvValue v))"

definition readLastEnvFileValues :: "env_file \<Rightarrow> (string \<rightharpoonup> string) result" where
  "readLastEnvFileValues fs =
     (case ef_read_err fs of
        Some e \<Rightarrow> Inl e
      | None \<Rightarrow> (case ef_content fs of
                  None \<Rightarrow> Inr Map.empty
                | Some raw \<Rightarrow> Inr (foldl read_line Map.empty (content_lines raw))))"

definition filterUpdatesSkipProtectedInFile ::
  "env_file \<Rightarrow> (string \<times> string) list \<Rightarrow> (string \<times> string) list result" where
  "filterUpdatesSkipProtectedInFile fs updates =
     (case readLastEnvFileValues fs of
        Inl e \<Rightarrow> Inl e
      | Inr existing \<Rightarrow>
          Inr (filter (\<lambda>(k, v). v \<noteq> [] \<and>
                 (case existing k of
                    None \<Rightarrow> True
                  | Some cur \<Rightarrow> (let cur = TrimSpace cur in
                                  \<not> (cur \<noteq> [] \<and> \<not> isPlaceholderEnvValue cur)))) updates))"

definition env_assign :: "string \<Rightarrow> string \<Rightarrow> string" where
  "env_assign k v = k @ ''='' @ formatEnvValue v @ [go_newline]"

fun mergeEnvLinesIntoBuilder ::
  "string list \<Rightarrow> (string \<rightharpoonup> string) \<Rightarrow> string set \<Rightarrow> string \<times> string set" where
  "mergeEnvLinesIntoBuilder [] filtered written = ([], written)"
| "mergeEnvLinesIntoBuilder (line # ls) filtered written =
     (let keep = (let (out, w) = mergeEnvLinesIntoBuilder ls filtered written
                  in (line @ [go_newline] @ out, w))
      in case envLineKey line of
           None \<Rightarrow> keep
         | Some (k, _) \<Rightarrow>
             (case filtered k of
                None \<Rightarrow> keep
              | Some v \<Rightarrow>
                  if k \<in> written then mergeEnvLinesIntoBuilder ls filtered written
                  else (let (out, w) = mergeEnvLinesIntoBuilder ls filtered (insert k written)
                        in (env_assign k v @ out, w))))"

definition env_key_order :: "string list" where
  "env_key_order = [''FILEMGR_SYSTEM_TOKEN'', ''FILEMGR_BOOTSTRAP_ADMIN_USERNAME'',
     ''FILEMGR_BOOTSTRAP_ADMIN_PASSWORD'', ''FILEMGR_BOOTSTRAP_ADMIN_IS_ADMIN'']"

fun append_ordered :: "string list \<Rightarrow> (string \<rightharpoonup> string) \<Rightarrow> string set \<Rightarrow> string \<times> string set" where
  "append_ordered [] filtered written = ([], written)"
| "append_ordered (k # ks) filtered written =
     (case filtered k of
        Some v \<Rightarrow>
          if k \<notin> written
          then (let (out, w) = append_ordered ks filtered (insert k written)
                in (env_assign k v @ out, w))
          else append_ordered ks filtered written
      | None \<Rightarrow> append_ordered ks filtered written)"

definition appendMissingEnvKeys :: "(string \<times> string) list \<Rightarrow> string set \<Rightarrow> string" where
  "appendMissingEnvKeys filtered written =
     (let (out, w) = append_ordered env_key_order (map_of filtered) written
      in out @ concat (map (\<lambda>(k, v). if k \<notin> w then env_assign k v else []) filtered))"

definition upsert_content :: "string option \<Rightarrow> (string \<times> string) list \<Rightarrow> string" where
  "upsert_content old filtered =
     (let lines = content_lines (ns_str old);
          (out, written) = mergeEnvLinesIntoBuilder lines (map_of filtered) {};
          out = out @ appendMissingEnvKeys filtered written
      in TrimSuffix out [go_newline] @ [go_newline])"

definition upsertEnvFile :: "env_file \<Rightarrow> (string \<times> string) list \<Rightarrow> err option \<times> env_file" where
  "upsertEnvFile fs updates =
     (let filtered = filter (\<lambda>(k, v). v \<noteq> []) updates in
      if filtered = [] then (None, fs)
      else case ef_read_err fs of
             Some e \<Rightarrow> (Some e, fs)
           | None \<Rightarrow>
               (case ef_write_err fs of
                  Some e \<Rightarrow> (Some e, fs)
                | None \<Rightarrow>
                    (None, fs\<lparr>ef_content := Some (upsert_content (ef_content fs) filtered)\<rparr>)))"

text \<open>What \<open>persistBootstrapEnv\<close> logs: the path and, on failure, the error.\<close>

datatype persist_log =
    SkippedUnreadable string err
  | CouldNotPersist string err
  | Persisted string

definition persistBootstrapEnv ::
  "string \<Rightarrow> string \<Rightarrow> bool \<Rightarrow> env_file \<Rightarrow> (string \<times> string) list \<Rightarrow> persist_log list \<times> env_file" where
  "persistBootstrapEnv skip_env path quiet fs updates =
     (if TrimSpace skip_env = ''1'' then ([], fs)
      else if \<not> list_ex (\<lambda>(k, v). v \<noteq> []) updates then ([], fs)
      else case filterUpdatesSkipProtectedInFile fs updates of
             Inl e \<Rightarrow> ([SkippedUnreadable path e], fs)
           | Inr filtered \<Rightarrow>
               if filtered = [] then ([], fs)
               else (case upsertEnvFile fs filtered of
                       (Some e, fs') \<Rightarrow> ([CouldNotPersist path e], fs')
                     | (None, fs') \<Rightarrow> (if quiet then [] else [Persisted path], fs')))"

text \<open>The env file: the first of \<open>ENV_FILE\<close> and \<open>FILEMGR_ENV_FILE\<close> that is set, else \<open>.env\<close>.\<close>

definition resolveEnvFilePath :: "(string \<Rightarrow> string) \<Rightarrow> string" where
  "resolveEnvFilePath getenv =
     (case find (\<lambda>p. p \<noteq> []) (map (\<lambda>k. TrimSpace (getenv k)) [''ENV_FILE'', ''FILEMGR_ENV_FILE'']) of
        Some p \<Rightarrow> p | None \<Rightarrow> ''.env'')"

section \<open>Values round trip\<close>

lemma unescape_escape: "unescape (escape s) = s"
proof (induction s)
  case Nil
  then show ?case by simp
next
  case (Cons c s)
  show ?case
  proof (cases "c = dquote \<or> c = bslash \<or> c = go_newline \<or> c = go_cr")
    case True
    then show ?thesis using Cons.IH by (auto simp: env_chars)
  next
    case False
    then show ?thesis using Cons.IH by (cases "escape s") auto
  qed
qed

lemma dquote_not_cr: "\<not> HasSuffix (s @ [dquote]) [go_cr]"
  by (simp add: HasSuffix_iff env_chars)

lemma parse_quoted: "parseEnvValue (dquote # s @ [dquote]) = unescape s"
proof -
  have "\<not> HasSuffix (dquote # s @ [dquote]) [go_cr]"
    using dquote_not_cr[of "dquote # s"] by simp
  moreover have "TrimSpace (dquote # s @ [dquote]) = dquote # s @ [dquote]"
    using TrimSpace_quoted by (simp add: dquote_def)
  ultimately show ?thesis by (simp add: parseEnvValue_def)
qed

lemma set_strip_seqs: "set (strip_seqs qs s) \<subseteq> set s"
proof (induction qs s rule: strip_seqs.induct)
  case (1 qs s)
  show ?case
  proof (cases "find (\<lambda>q. q \<noteq> [] \<and> HasPrefix s q) qs")
    case None
    then show ?thesis by (subst strip_seqs.simps) simp
  next
    case (Some q)
    with 1[OF Some] show ?thesis
      by (subst strip_seqs.simps) (auto dest: in_set_dropD)
  qed
qed

lemma set_TrimSpace: "set (TrimSpace s) \<subseteq> set s"
proof -
  have "set (TrimSpace s) \<subseteq> set (strip_seqs space_seqs s)"
    using set_strip_seqs[of "map rev space_seqs" "rev (strip_seqs space_seqs s)"]
    by (simp add: TrimSpace_def)
  also have "\<dots> \<subseteq> set s" by (rule set_strip_seqs)
  finally show ?thesis .
qed

lemma special_chars [simp]:
  "special_char dquote" "special_char go_newline" "special_char go_cr" "special_char (CHR ''='')"
  by (simp_all add: special_char_def env_chars)

lemma unquoted_free: "\<not> needsQuote s \<Longrightarrow> special_char c \<Longrightarrow> c \<notin> set s"
  by (auto simp: needsQuote_def list_ex_iff)

lemma parse_unquoted:
  assumes "\<not> needsQuote s"
  shows "parseEnvValue s = TrimSpace s"
proof -
  from assms have s: "dquote \<notin> set s" "go_cr \<notin> set s"
    using unquoted_free special_chars by blast+
  then have "\<not> HasSuffix s [go_cr]" by (auto simp: HasSuffix_iff)
  moreover have "hd (TrimSpace s) \<noteq> dquote" if "2 \<le> length (TrimSpace s)"
  proof -
    from that have "hd (TrimSpace s) \<in> set (TrimSpace s)" by (cases "TrimSpace s") auto
    with set_TrimSpace[of s] have "hd (TrimSpace s) \<in> set s" by (rule subsetD)
    with s show ?thesis by metis
  qed
  ultimately show ?thesis unfolding parseEnvValue_def Let_def by auto
qed

lemma parse_format: "parseEnvValue (formatEnvValue s) = (if needsQuote s then s else TrimSpace s)"
  by (simp add: formatEnvValue_def parse_quoted unescape_escape parse_unquoted)

lemma format_no_newline: "go_newline \<notin> set (formatEnvValue s)"
proof -
  have "go_newline \<notin> set (escape t)" for t
    by (induction t) (simp_all add: env_chars)
  moreover have "go_newline \<noteq> dquote" by (simp add: env_chars)
  ultimately show ?thesis
    using unquoted_free[of s go_newline] by (simp add: formatEnvValue_def)
qed

end
