(* ===== verification/EnvFile.thy ===== *)
theory EnvFile
  imports EnvPersist
begin

text \<open>
  The env file as a map: reading a rewritten file gives the updates on top of what the old file
  read as, whatever the old file held, and a value an operator has set survives the bootstrap.
  The proofs go through the list of lines a rewrite puts out.
\<close>

section \<open>What a line means\<close>

definition line_value :: "string \<Rightarrow> (string \<times> string) option" where
  "line_value line = map_option (\<lambda>(k, v). (k, parseEnvValue v)) (envLineKey line)"

definition line_step :: "(string \<rightharpoonup> string) \<Rightarrow> string \<Rightarrow> (string \<rightharpoonup> string)" where
  "line_step m line = (case line_value line of None \<Rightarrow> m | Some (k, v) \<Rightarrow> m(k \<mapsto> v))"

lemma strip_seqs_keep_last:
  "(\<forall>q\<in>set qs. c \<notin> set q) \<Longrightarrow> \<exists>t. strip_seqs qs (s @ [c]) = t @ [c]"
proof (induction "length s" arbitrary: s rule: less_induct)
  case less
  show ?case
  proof (cases "find (\<lambda>q. q \<noteq> [] \<and> HasPrefix (s @ [c]) q) qs")
    case None
    then show ?thesis by (subst strip_seqs.simps) simp
  next
    case (Some q)
    then have q: "q \<in> set qs" "q \<noteq> []" "HasPrefix (s @ [c]) q"
      by (auto simp: find_Some_iff)
    with less.prems have "c \<notin> set q" by simp
    with q(3) have "length q \<le> length s"
      by (auto simp: HasPrefix_iff append_eq_append_conv2 Cons_eq_append_conv)
    then have "drop (length q) (s @ [c]) = drop (length q) s @ [c]" by simp
    moreover have "length (drop (length q) s) < length s"
      using \<open>length q \<le> length s\<close> q(2) by (cases q) auto
    ultimately show ?thesis
      using less.hyps[of "drop (length q) s"] less.prems Some by (subst strip_seqs.simps) simp
  qed
qed

lemma key_start_not_space:
  assumes "is_key_start c"
  shows "q \<in> set space_seqs \<Longrightarrow> c \<notin> set q"
  using assms
  by (simp add: space_seqs_def is_key_start_def Let_def) (elim disjE; simp; fastforce)

lemma TrimSpace_key_start:
  assumes "is_key_start c"
  shows "\<exists>t. TrimSpace (c # s) = c # t"
proof -
  note free = key_start_not_space[OF assms]
  have "strip_seqs space_seqs (c # s) = c # s"
    by (rule strip_seqs_cons_stop) (metis free hd_in_set)
  moreover obtain t where "strip_seqs (map rev space_seqs) (rev s @ [c]) = t @ [c]"
    using strip_seqs_keep_last[of "map rev space_seqs" c "rev s"] free by auto
  ultimately show ?thesis by (simp add: TrimSpace_def)
qed

lemma envLineKey_Some:
  assumes "envLineKey line = Some (k, v)"
  shows "is_env_key k" "line = k @ ''='' @ v" "go_newline \<notin> set v"
proof -
  have split: "takeWhile is_key_char line @ dropWhile is_key_char line = line" by simp
  from assms have "is_env_key k \<and> dropWhile is_key_char line = CHR ''='' # v
      \<and> k = takeWhile is_key_char line \<and> go_newline \<notin> set v"
    by (auto simp: envLineKey_def Let_def split: list.splits if_splits)
  then show "is_env_key k" "line = k @ ''='' @ v" "go_newline \<notin> set v"
    using split by auto
qed

lemma read_line_step: "read_line m line = line_step m line"
proof (cases "envLineKey line")
  case None
  then show ?thesis by (simp add: read_line_def line_step_def line_value_def Let_def)
next
  case (Some kv)
  obtain k v where kv: "kv = (k, v)" by (cases kv)
  with Some envLineKey_Some[of line k v] obtain c s
    where line: "line = c # s" "is_key_start c"
    by (cases k) (auto simp: is_env_key_def)
  from TrimSpace_key_start[OF line(2)] obtain t where "TrimSpace line = c # t"
    using line(1) by blast
  moreover from line(2) have "c \<noteq> CHR ''#''" by (auto simp: is_key_start_def)
  ultimately show ?thesis
    using Some kv by (simp add: read_line_def line_step_def line_value_def Let_def)
qed

lemma envLineKey_assign:
  assumes "is_env_key k" and "go_newline \<notin> set v"
  shows "envLineKey (k @ ''='' @ v) = Some (k, v)"
proof -
  have "list_all is_key_char k" using assms(1) by (simp add: is_env_key_def)
  then have all: "\<forall>c\<in>set k. is_key_char c" by (simp add: list_all_iff)
  have eq: "\<not> is_key_char (CHR ''='')"
    by (simp add: is_key_char_def is_key_start_def is_digit_def)
  from all eq have "takeWhile is_key_char (k @ ''='' @ v) = k"
    by (simp add: takeWhile_append2 takeWhile_append)
  moreover from all eq have "dropWhile is_key_char (k @ ''='' @ v) = ''='' @ v"
    by (simp add: dropWhile_append2 dropWhile_append)
  ultimately show ?thesis using assms by (simp add: envLineKey_def)
qed

section \<open>A carriage return at the end of a line changes nothing\<close>

definition strip_cr :: "string \<Rightarrow> string" where
  "strip_cr line = TrimSuffix line [go_cr]"

lemma cr_not_key: "\<not> is_key_char go_cr"
  by (simp add: is_key_char_def is_key_start_def is_digit_def go_cr_def)

lemma HasPrefix_snoc: "HasPrefix (s @ [c]) q \<longleftrightarrow> HasPrefix s q \<or> q = s @ [c]"
proof
  assume "HasPrefix (s @ [c]) q"
  then obtain r where r: "s @ [c] = q @ r" by (auto simp: HasPrefix_iff)
  show "HasPrefix s q \<or> q = s @ [c]"
    using r by (cases r rule: rev_cases) (auto simp: HasPrefix_iff)
next
  assume "HasPrefix s q \<or> q = s @ [c]"
  then show "HasPrefix (s @ [c]) q" by (auto simp: HasPrefix_iff)
qed

lemma space_seqs_cr: "q \<in> set space_seqs \<Longrightarrow> go_cr \<in> set q \<Longrightarrow> q = [go_cr]"
  by (simp add: space_seqs_def go_cr_def) (elim disjE; simp)

lemma strip_left_cr:
  "strip_seqs space_seqs (s @ [go_cr])
     = (if strip_seqs space_seqs s = [] then [] else strip_seqs space_seqs s @ [go_cr])"
proof (induction "length s" arbitrary: s rule: less_induct)
  case less
  show ?case
  proof (cases "s = []")
    case True
    have "strip_seqs space_seqs [go_cr] = strip_seqs space_seqs []"
      by (subst strip_seqs.simps) (simp add: space_seqs_def go_cr_def)
    with True show ?thesis by simp
  next
    case False
    have "HasPrefix (s @ [go_cr]) q = HasPrefix s q" if "q \<in> set space_seqs" for q
      using space_seqs_cr[OF that] False by (auto simp: HasPrefix_snoc)
    then have same: "find (\<lambda>q. q \<noteq> [] \<and> HasPrefix (s @ [go_cr]) q) space_seqs
                       = find (\<lambda>q. q \<noteq> [] \<and> HasPrefix s q) space_seqs"
      by (intro find_cong) auto
    show ?thesis
    proof (cases "find (\<lambda>q. q \<noteq> [] \<and> HasPrefix s q) space_seqs")
      case None
      with same False show ?thesis by (simp add: strip_seqs.simps[of _ "s @ [go_cr]"] strip_seqs.simps[of _ s])
    next
      case (Some q)
      then have q: "q \<noteq> []" "HasPrefix s q" by (auto simp: find_Some_iff)
      then have "length (drop (length q) s) < length s" "length q \<le> length s"
        by (cases q; auto simp: HasPrefix_iff)+
      with less.hyps[of "drop (length q) s"] Some same show ?thesis
        by (simp add: strip_seqs.simps[of _ "s @ [go_cr]"] strip_seqs.simps[of _ s])
    qed
  qed
qed

lemma TrimSpace_cr: "TrimSpace (s @ [go_cr]) = TrimSpace s"
proof -
  have "strip_seqs (map rev space_seqs) (go_cr # x) = strip_seqs (map rev space_seqs) x" for x
    by (subst strip_seqs.simps) (simp add: space_seqs_def go_cr_def)
  then show ?thesis by (simp add: TrimSpace_def strip_left_cr)
qed

lemma parseEnvValue_cr: "parseEnvValue (v @ [go_cr]) = parseEnvValue v"
proof -
  have "TrimSpace (TrimSuffix v [go_cr]) = TrimSpace v"
  proof (cases "HasSuffix v [go_cr]")
    case True
    then obtain u where "v = u @ [go_cr]" by (auto simp: HasSuffix_iff)
    then show ?thesis by (simp add: TrimSpace_cr)
  next
    case False
    then show ?thesis by simp
  qed
  then show ?thesis by (simp add: parseEnvValue_def)
qed

lemma line_value_cr: "line_value (line @ [go_cr]) = line_value line"
proof -
  have t: "takeWhile is_key_char (line @ [go_cr]) = takeWhile is_key_char line"
    using cr_not_key by (simp add: takeWhile_tail)
  have d: "dropWhile is_key_char (line @ [go_cr]) = dropWhile is_key_char line @ [go_cr]"
    using cr_not_key by (induction line) auto
  have "go_cr \<noteq> CHR ''=''" "go_cr \<noteq> go_newline" by (simp_all add: env_chars)
  then show ?thesis
    by (cases "dropWhile is_key_char line")
       (simp_all add: line_value_def envLineKey_def t d Let_def parseEnvValue_cr
                 del: dropWhile_eq_Nil_conv)
qed

lemma line_step_strip_cr [simp]: "line_step m (strip_cr line) = line_step m line"
proof (cases "HasSuffix line [go_cr]")
  case True
  then obtain u where "line = u @ [go_cr]" by (auto simp: HasSuffix_iff)
  then show ?thesis by (simp add: strip_cr_def line_step_def line_value_cr)
next
  case False
  then show ?thesis by (simp add: strip_cr_def)
qed


section \<open>Output as a list of lines\<close>

definition render :: "string list \<Rightarrow> string" where
  "render ls = concat (map (\<lambda>l. l @ [go_newline]) ls)"

definition one_line :: "string \<Rightarrow> bool" where
  "one_line l \<longleftrightarrow> go_newline \<notin> set l"

lemma render_simps [simp]:
  "render [] = []" "render (l # ls) = l @ go_newline # render ls"
  "render (ls @ ls') = render ls @ render ls'"
  by (simp_all add: render_def)

lemma replace_crlf_line:
  "one_line l \<Longrightarrow> replace_crlf (l @ go_newline # rest) = strip_cr l @ go_newline # replace_crlf rest"
proof (induction l rule: induct_list012)
  case 1
  have "\<not> HasSuffix [] [go_cr]" by (simp add: HasSuffix_iff)
  then show ?case by (cases rest) (simp_all add: strip_cr_def env_chars)
next
  case (2 c)
  show ?case
  proof (cases "c = go_cr")
    case True
    have "HasSuffix [go_cr] [go_cr]" by (simp add: HasSuffix_iff)
    with True show ?thesis by (simp add: strip_cr_def TrimSuffix_def)
  next
    case False
    then have "\<not> HasSuffix [c] [go_cr]" by (simp add: HasSuffix_iff)
    with False show ?thesis
      by (cases rest) (simp_all add: strip_cr_def env_chars)
  qed
next
  case (3 c d l)
  then have IH: "replace_crlf ((d # l) @ go_newline # rest)
                   = strip_cr (d # l) @ go_newline # replace_crlf rest"
    by (simp add: one_line_def)
  have "strip_cr (c # d # l) = c # strip_cr (d # l)"
    by (simp add: strip_cr_def TrimSuffix_single)
  moreover from "3.prems" have "d \<noteq> go_newline" by (auto simp: one_line_def)
  ultimately show ?case using IH by simp
qed

lemma one_line_strip_cr: "one_line l \<Longrightarrow> one_line (strip_cr l)"
  by (auto simp: one_line_def strip_cr_def TrimSuffix_def dest: in_set_takeD)

lemma replace_crlf_render:
  "list_all one_line ls \<Longrightarrow> replace_crlf (render ls) = render (map strip_cr ls)"
  by (induction ls) (simp_all add: replace_crlf_line)

lemma split_render:
  "list_all one_line ls \<Longrightarrow> one_line l \<Longrightarrow> split_on go_newline (render ls @ l) = ls @ [l]"
  by (induction ls) (simp_all add: split_on_append_sep split_on_free one_line_def)

lemma foldl_line_step_strip:
  "foldl line_step m (map strip_cr ls) = foldl line_step m ls"
  by (induction ls arbitrary: m) simp_all

lemma foldl_read_line: "foldl read_line m ls = foldl line_step m ls"
  by (induction ls arbitrary: m) (simp_all add: read_line_step)

lemma line_step_Nil [simp]: "line_step m [] = m"
  by (simp add: line_step_def line_value_def envLineKey_def)

text \<open>Reading back an output of whole lines reads those lines.\<close>

lemma read_render:
  assumes "list_all one_line ls"
  shows "foldl read_line m (content_lines (render ls)) = foldl line_step m ls"
proof (cases ls rule: rev_cases)
  case Nil
  then show ?thesis by (simp add: content_lines_def)
next
  case (snoc ls' l)
  have one: "list_all one_line (map strip_cr ls')" "one_line (strip_cr l)"
    using assms snoc by (simp_all add: list_all_iff one_line_strip_cr)
  have "replace_crlf (render ls) = render (map strip_cr ls)"
    by (rule replace_crlf_render[OF assms])
  then have out: "replace_crlf (render ls) = (render (map strip_cr ls') @ strip_cr l) @ [go_newline]"
    by (simp add: snoc)
  show ?thesis
  proof (cases "render (map strip_cr ls') @ strip_cr l = []")
    case True
    then have "ls' = []" "strip_cr l = []" by (cases ls'; simp)+
    then have "line_step m l = m" using line_step_strip_cr[of m l] by simp
    with out True snoc \<open>ls' = []\<close> show ?thesis by (simp add: content_lines_def TrimSuffix_single)
  next
    case False
    then have "content_lines (render ls) = map strip_cr ls' @ [strip_cr l]"
      unfolding content_lines_def out TrimSuffix_append Let_def
      using split_render[OF one] by simp
    with snoc show ?thesis by (simp add: foldl_read_line foldl_line_step_strip read_line_step)
  qed
qed

lemma content_lines_one_line: "list_all one_line (content_lines raw)"
  by (auto simp: content_lines_def Let_def list_all_iff one_line_def dest: split_on_pieces)


section \<open>The rewrite as an update of the map\<close>

text \<open>What a value reads back as, and the keys that make a line readable.\<close>

definition stored :: "(string \<rightharpoonup> string) \<Rightarrow> string \<rightharpoonup> string" where
  "stored F k = map_option (\<lambda>v. parseEnvValue (formatEnvValue v)) (F k)"

lemma stored_simps:
  "F k = Some v \<Longrightarrow> stored F k = Some (parseEnvValue (formatEnvValue v))"
  "F k = None \<Longrightarrow> stored F k = None"
  by (simp_all add: stored_def)

definition legal_keys :: "(string \<rightharpoonup> string) \<Rightarrow> bool" where
  "legal_keys F \<longleftrightarrow> (\<forall>k v. F k = Some v \<longrightarrow> is_env_key k)"

lemma env_assign_render: "env_assign k v = render [k @ ''='' @ formatEnvValue v]"
  by (simp add: env_assign_def)

lemma key_one_line: "is_env_key k \<Longrightarrow> go_newline \<notin> set k"
proof
  assume "is_env_key k" "go_newline \<in> set k"
  then have "is_key_char go_newline" by (simp add: is_env_key_def list_all_iff)
  then show False by (simp add: is_key_char_def is_key_start_def is_digit_def go_newline_def)
qed

lemma newline_not_eq: "go_newline \<noteq> CHR ''=''"
  by (simp add: go_newline_def)

lemma one_line_assign: "is_env_key k \<Longrightarrow> one_line (k @ ''='' @ formatEnvValue v)"
  using key_one_line[of k] format_no_newline[of v] newline_not_eq by (simp add: one_line_def)

lemma line_step_assign:
  assumes "legal_keys F" "F k = Some v"
  shows "line_step m (k @ ''='' @ formatEnvValue v) = m(k \<mapsto> parseEnvValue (formatEnvValue v))"
proof -
  have "is_env_key k"
    using assms by (auto simp: legal_keys_def)
  then show ?thesis
    using envLineKey_assign[OF _ format_no_newline] by (simp add: line_step_def line_value_def)
qed

lemma line_step_other:
  "envLineKey line = Some (k, w) \<Longrightarrow> k' \<noteq> k \<Longrightarrow> line_step m line k' = m k'"
  by (simp add: line_step_def line_value_def)

lemma line_step_cong: "m k = m' k \<Longrightarrow> line_step m line k = line_step m' line k"
  by (simp add: line_step_def split: option.split)

lemma foldl_line_step_cong: "m k = m' k \<Longrightarrow> foldl line_step m ls k = foldl line_step m' ls k"
proof (induction ls arbitrary: m m')
  case Nil
  then show ?case by simp
next
  case (Cons l ls)
  have "line_step m l k = line_step m' l k" using Cons.prems by (rule line_step_cong)
  with Cons.IH[of "line_step m l" "line_step m' l"] show ?case by simp
qed

text \<open>
  The rewrite of the old lines: every updated key that has a line is written once with its new
  value (\<open>written\<close>), every other key reads as before.
\<close>

lemma merge_lines:
  assumes "legal_keys F" and "list_all one_line ls"
    and "mergeEnvLinesIntoBuilder ls F written = (out, written')"
  shows "\<exists>ols. out = render ols \<and> list_all one_line ols \<and> written \<subseteq> written'
    \<and> (\<forall>m k. (k \<in> dom F \<longrightarrow> k \<in> written \<longrightarrow> m k = stored F k) \<longrightarrow>
          foldl line_step m ols k
            = (if k \<in> dom F then if k \<in> written' then stored F k else m k
               else foldl line_step m ls k))"
  using assms(2,3)
proof (induction ls arbitrary: written out)
  case Nil
  then show ?case by (intro exI[of _ "[]"]) auto
next
  case (Cons line ls)
  let ?kept = "\<lambda>w out'. mergeEnvLinesIntoBuilder ls F w = (out', written')"
  consider (keep) out' where "?kept written out'" "out = line @ [go_newline] @ out'"
      "\<And>m k. k \<in> dom F \<Longrightarrow> line_step m line k = m k"
    | (dup) k w where "?kept written out" "envLineKey line = Some (k, w)" "k \<in> dom F" "k \<in> written"
    | (new) k w v out' where "?kept (insert k written) out'" "out = env_assign k v @ out'"
        "envLineKey line = Some (k, w)" "F k = Some v" "k \<notin> written"
  proof (cases "envLineKey line")
    case None
    then show thesis using Cons.prems(2) keep
      by (auto simp: Let_def line_step_def line_value_def split: prod.splits)
  next
    case (Some kw)
    obtain k w where kw: "kw = (k, w)" by (cases kw)
    show thesis
    proof (cases "F k")
      case None
      then have "line_step m line k' = m k'" if "k' \<in> dom F" for m k'
        by (intro line_step_other) (use Some kw that in auto)
      with None show thesis using Cons.prems(2) Some kw keep
        by (auto split: prod.splits)
    next
      case (Some v)
      then show thesis using Cons.prems(2) \<open>envLineKey line = Some kw\<close> kw dup new
        by (auto simp: dom_def split: prod.splits if_splits)
    qed
  qed
  then show ?case
  proof cases
    case keep
    from Cons.IH[OF _ keep(1)] Cons.prems(1) obtain ols where ols:
      "out' = render ols" "list_all one_line ols" "written \<subseteq> written'"
      "\<And>m k. (k \<in> dom F \<longrightarrow> k \<in> written \<longrightarrow> m k = stored F k) \<Longrightarrow> foldl line_step m ols k
          = (if k \<in> dom F then if k \<in> written' then stored F k else m k else foldl line_step m ls k)"
      by auto
    show ?thesis
      using ols(1,2,3) ols(4)[of _ "line_step _ line"] keep(2,3) Cons.prems(1)
      by (intro exI[of _ "line # ols"]) simp
  next
    case dup
    from Cons.IH[OF _ dup(1)] Cons.prems(1) obtain ols where ols:
      "out = render ols" "list_all one_line ols" "written \<subseteq> written'"
      "\<And>m k. (k \<in> dom F \<longrightarrow> k \<in> written \<longrightarrow> m k = stored F k) \<Longrightarrow> foldl line_step m ols k
          = (if k \<in> dom F then if k \<in> written' then stored F k else m k else foldl line_step m ls k)"
      by auto
    have same: "foldl line_step m ls k' = foldl line_step (line_step m line) ls k'"
      if "k' \<notin> dom F" for m k'
    proof -
      from dup(3) that have "k' \<noteq> k" by auto
      from line_step_other[OF dup(2) this, of m] show ?thesis
        by (intro foldl_line_step_cong) simp
    qed
    have "foldl line_step m ols k'
        = (if k' \<in> dom F then if k' \<in> written' then stored F k' else m k'
           else foldl line_step m (line # ls) k')"
      if "k' \<in> dom F \<longrightarrow> k' \<in> written \<longrightarrow> m k' = stored F k'" for m k'
      using ols(4)[of k' m, OF that] same[of k' m] by (cases "k' \<in> dom F") simp_all
    with ols(1,2,3) show ?thesis by (intro exI[of _ ols]) simp
  next
    case new
    from Cons.IH[OF _ new(1)] Cons.prems(1) obtain ols where ols:
      "out' = render ols" "list_all one_line ols" "insert k written \<subseteq> written'"
      "\<And>m k'. (k' \<in> dom F \<longrightarrow> k' \<in> insert k written \<longrightarrow> m k' = stored F k') \<Longrightarrow> foldl line_step m ols k'
          = (if k' \<in> dom F then if k' \<in> written' then stored F k' else m k' else foldl line_step m ls k')"
      by auto
    let ?l = "k @ ''='' @ formatEnvValue v"
    have "is_env_key k" using assms(1) new(4) by (simp add: legal_keys_def)
    then have "one_line ?l" by (rule one_line_assign)
    moreover have "foldl line_step m (?l # ols) k'
        = (if k' \<in> dom F then if k' \<in> written' then stored F k' else m k'
           else foldl line_step m (line # ls) k')"
      if "k' \<in> dom F \<longrightarrow> k' \<in> written \<longrightarrow> m k' = stored F k'" for m k'
    proof -
      have step: "line_step m ?l = m(k \<mapsto> parseEnvValue (formatEnvValue v))" by (rule line_step_assign[OF assms(1) new(4)])
      have unroll: "foldl line_step m (?l # ols) k' = foldl line_step (m(k \<mapsto> parseEnvValue (formatEnvValue v))) ols k'"
        by (simp only: foldl_Cons step)
      have other: "foldl line_step (m(k \<mapsto> parseEnvValue (formatEnvValue v))) ls k' = foldl line_step (line_step m line) ls k'"
        if "k' \<notin> dom F"
      proof -
        from new(4) that have "k' \<noteq> k" by auto
        with line_step_other[OF new(3) this, of m] show ?thesis
          by (intro foldl_line_step_cong) simp
      qed
      have "k' \<in> dom F \<longrightarrow> k' \<in> insert k written \<longrightarrow> (m(k \<mapsto> parseEnvValue (formatEnvValue v))) k' = stored F k'"
        using that new(4) by (simp add: stored_simps)
      from ols(4)[of k' "m(k \<mapsto> parseEnvValue (formatEnvValue v))", OF this] show ?thesis
        unfolding unroll using ols(3) other new(4) by (cases "k' \<in> dom F") auto
    qed
    ultimately show ?thesis
      using ols(1,2,3) new(2)
      by (intro exI[of _ "?l # ols"]) (simp add: env_assign_render)
  qed
qed


lemma append_ordered_mono: "append_ordered ks F w = (out, w') \<Longrightarrow> w \<subseteq> w' \<and> w' \<subseteq> w \<union> dom F"
proof (induction ks arbitrary: w out)
  case Nil
  then show ?case by simp
next
  case (Cons x ks)
  then show ?case by (fastforce simp: Let_def split: option.splits if_splits prod.splits)
qed

lemma append_ordered_lines:
  assumes "legal_keys F" and "append_ordered ks F w = (out, w')"
  shows "\<exists>ols. out = render ols \<and> list_all one_line ols
    \<and> (\<forall>m k. foldl line_step m ols k = (if k \<in> w' - w then stored F k else m k))"
  using assms(2)
proof (induction ks arbitrary: w out)
  case Nil
  then show ?case by (intro exI[of _ "[]"]) auto
next
  case (Cons x ks)
  show ?case
  proof (cases "\<exists>v. F x = Some v \<and> x \<notin> w")
    case False
    with Cons.prems have "append_ordered ks F w = (out, w')"
      by (auto split: option.splits)
    then show ?thesis by (rule Cons.IH)
  next
    case True
    then obtain v where v: "F x = Some v" "x \<notin> w" by blast
    with Cons.prems obtain out' where out': "append_ordered ks F (insert x w) = (out', w')"
      "out = env_assign x v @ out'"
      by (auto simp: Let_def split: prod.splits)
    from Cons.IH[OF out'(1)] obtain ols where ols: "out' = render ols" "list_all one_line ols"
      "\<And>m k. foldl line_step m ols k = (if k \<in> w' - insert x w then stored F k else m k)"
      by auto
    have "x \<in> w'"
      using append_ordered_mono[OF out'(1)] by simp
    moreover have "one_line (x @ ''='' @ formatEnvValue v)"
      using assms(1) v(1) by (intro one_line_assign) (simp add: legal_keys_def)
    ultimately show ?thesis
      using ols out'(2) v line_step_assign[OF assms(1) v(1)]
      by (intro exI[of _ "(x @ ''='' @ formatEnvValue v) # ols"]) (auto simp: env_assign_render stored_simps)
  qed
qed


lemma append_rest_lines:
  assumes "legal_keys F" and "distinct (map fst fs)" and "\<forall>(k, v) \<in> set fs. F k = Some v"
  shows "\<exists>ols. concat (map (\<lambda>(k, v). if k \<notin> w then env_assign k v else []) fs) = render ols
    \<and> list_all one_line ols
    \<and> (\<forall>m k. foldl line_step m ols k = (if k \<in> fst ` set fs \<and> k \<notin> w then stored F k else m k))"
  using assms(2,3)
proof (induction fs)
  case Nil
  then show ?case by (intro exI[of _ "[]"]) auto
next
  case (Cons kv fs)
  obtain k v where kv: "kv = (k, v)" by (cases kv)
  with Cons.prems have v: "F k = Some v" and new: "k \<notin> fst ` set fs" by auto
  from Cons obtain ols where ols:
    "concat (map (\<lambda>(k, v). if k \<notin> w then env_assign k v else []) fs) = render ols"
    "list_all one_line ols"
    "\<And>m k. foldl line_step m ols k = (if k \<in> fst ` set fs \<and> k \<notin> w then stored F k else m k)"
    by auto
  show ?case
  proof (cases "k \<in> w")
    case True
    with ols kv show ?thesis by (intro exI[of _ ols]) auto
  next
    case False
    have "one_line (k @ ''='' @ formatEnvValue v)"
      using assms(1) v by (intro one_line_assign) (simp add: legal_keys_def)
    with False show ?thesis
      using ols kv v new line_step_assign[OF assms(1) v]
      by (intro exI[of _ "(k @ ''='' @ formatEnvValue v) # ols"]) (auto simp: env_assign_render stored_simps)
  qed
qed

text \<open>The whole rewrite: the old file's assignments, updated.\<close>

lemma upsert_content_reads:
  assumes F: "legal_keys (map_of fs)" and dist: "distinct (map fst fs)" and ne: "fs \<noteq> []"
  shows "foldl read_line Map.empty (content_lines (upsert_content old fs))
           = foldl read_line Map.empty (content_lines (ns_str old)) ++ stored (map_of fs)"
proof -
  let ?F = "map_of fs" and ?ls = "content_lines (ns_str old)"
  obtain o1 w1 where m: "mergeEnvLinesIntoBuilder ?ls ?F {} = (o1, w1)" by fastforce
  obtain o2 w2 where a: "append_ordered env_key_order ?F w1 = (o2, w2)" by fastforce
  let ?o3 = "concat (map (\<lambda>(k, v). if k \<notin> w2 then env_assign k v else []) fs)"
  from merge_lines[OF F content_lines_one_line m] obtain l1 where l1:
    "o1 = render l1" "list_all one_line l1"
    "\<And>m k. foldl line_step m l1 k
       = (if k \<in> dom ?F then if k \<in> w1 then stored ?F k else m k else foldl line_step m ?ls k)"
    by auto
  from append_ordered_lines[OF F a] obtain l2 where l2: "o2 = render l2" "list_all one_line l2"
    "\<And>m k. foldl line_step m l2 k = (if k \<in> w2 - w1 then stored ?F k else m k)" by auto
  from append_rest_lines[OF F dist, of w2] dist obtain l3 where l3:
    "?o3 = render l3" "list_all one_line l3"
    "\<And>m k. foldl line_step m l3 k = (if k \<in> fst ` set fs \<and> k \<notin> w2 then stored ?F k else m k)"
    by auto
  let ?l = "l1 @ l2 @ l3"
  have eff: "foldl line_step Map.empty ?l = foldl line_step Map.empty ?ls ++ stored ?F"
  proof
    fix k
    show "foldl line_step Map.empty ?l k = (foldl line_step Map.empty ?ls ++ stored ?F) k"
    proof (cases "?F k")
      case None
      then have "k \<notin> dom ?F" by blast
      moreover from this have "k \<notin> fst ` set fs" using dom_map_of_conv_image_fst[of fs] by blast
      ultimately show ?thesis
        using l1(3) l2(3) l3(3) append_ordered_mono[OF a] None
        by (auto simp: map_add_def stored_simps)
    next
      case (Some v)
      then have "k \<in> dom ?F" by blast
      moreover from this have "k \<in> fst ` set fs" using dom_map_of_conv_image_fst[of fs] by blast
      ultimately show ?thesis
        using l1(3) l2(3) l3(3) append_ordered_mono[OF a] Some
        by (auto simp: map_add_def stored_simps)
    qed
  qed
  obtain k v fs' where "fs = (k, v) # fs'" using ne by (cases fs) auto
  then have "(foldl line_step Map.empty ?ls ++ stored ?F) k \<noteq> None"
    by (simp add: stored_def)
  then have "foldl line_step Map.empty ?l k \<noteq> None" by (simp only: eff not_False_eq_True)
  then have "?l \<noteq> []" by auto
  then obtain l' x where snoc: "?l = l' @ [x]" by (metis rev_exhaust)
  have "upsert_content old fs = TrimSuffix (render ?l) [go_newline] @ [go_newline]"
    using m a l1(1) l2(1) l3(1) by (simp add: upsert_content_def appendMissingEnvKeys_def)
  also have "\<dots> = render ?l" unfolding snoc by (simp add: TrimSuffix_single butlast_append)
  finally have "upsert_content old fs = render ?l" .
  then show ?thesis
    using read_render[of ?l Map.empty] l1(2) l2(2) l3(2) eff by (simp add: foldl_read_line)
qed


section \<open>Properties\<close>

text \<open>
  A value the writer can hold: its key is a legal name, and the value is quoted or has no
  (Unicode) white space at its ends.
\<close>

definition storable :: "(string \<times> string) list \<Rightarrow> bool" where
  "storable updates \<longleftrightarrow> distinct (map fst updates)
     \<and> list_all (\<lambda>(k, v). is_env_key k \<and> (needsQuote v \<or> TrimSpace v = v)) updates"

interpretation env_value: codec formatEnvValue parseEnvValue "\<lambda>s. needsQuote s \<or> TrimSpace s = s"
  by unfold_locales (auto simp: parse_format)

interpretation decimal: codec Itoa "\<lambda>s. fst (Atoi s)" in_int64
  by unfold_locales (simp add: Atoi_Itoa)

definition env_keys :: "(string \<times> string) list \<Rightarrow> bool" where
  "env_keys updates \<longleftrightarrow> distinct (map fst updates) \<and> list_all (\<lambda>(k, v). is_env_key k) updates"

lemma env_keys_legal: "env_keys updates \<Longrightarrow> legal_keys (map_of (filter P updates))"
  by (fastforce simp: env_keys_def legal_keys_def list_all_iff dest: map_of_SomeD)

lemma env_keys_distinct: "env_keys updates \<Longrightarrow> distinct (map fst (filter P updates))"
  by (simp add: env_keys_def distinct_map_filter_key)

lemma env_keys_filter: "env_keys updates \<Longrightarrow> env_keys (filter P updates)"
  by (auto simp: env_keys_def list_all_iff distinct_map_filter_key)

lemma storable_keys: "storable updates \<Longrightarrow> env_keys updates"
  by (auto simp: storable_def env_keys_def list_all_iff)

lemma stored_storable:
  assumes "storable updates" shows "stored (map_of (filter P updates)) = map_of (filter P updates)"
proof
  fix k
  show "stored (map_of (filter P updates)) k = map_of (filter P updates) k"
  proof (cases "map_of (filter P updates) k")
    case (Some v)
    then have "(k, v) \<in> set updates" by (auto dest: map_of_SomeD)
    with assms have "needsQuote v \<or> TrimSpace v = v" by (auto simp: storable_def list_all_iff)
    then have "parseEnvValue (formatEnvValue v) = v" by (rule env_value.dec_enc)
    with Some show ?thesis by (simp add: stored_def)
  qed (simp add: stored_def)
qed

lemma readLast_content:
  "ef_read_err fs = None \<Longrightarrow>
   readLastEnvFileValues fs = Inr (foldl read_line Map.empty (content_lines (ns_str (ef_content fs))))"
  by (cases "ef_content fs") (simp_all add: readLastEnvFileValues_def content_lines_def)

text \<open>A rewrite adds to what the file reads as: the updates, as they read back.\<close>

lemma upsert_reads_stored:
  assumes "ef_read_err fs = None" "ef_write_err fs = None" "env_keys updates"
    and "readLastEnvFileValues fs = Inr m" "upsertEnvFile fs updates = (e, fs')"
  shows "e = None \<and> ef_read_err fs' = None
    \<and> readLastEnvFileValues fs' = Inr (m ++ stored (map_of (filter (\<lambda>(k, v). v \<noteq> []) updates)))"
proof (cases "filter (\<lambda>(k, v). v \<noteq> []) updates = []")
  case True
  have "stored Map.empty = Map.empty" by (rule ext) (simp add: stored_def)
  with True assms show ?thesis by (simp add: upsertEnvFile_def)
next
  case False
  let ?fl = "filter (\<lambda>(k, v). v \<noteq> []) updates"
  have m: "m = foldl read_line Map.empty (content_lines (ns_str (ef_content fs)))"
    using assms(1,4) by (simp add: readLast_content)
  have "e = None \<and> fs' = fs\<lparr>ef_content := Some (upsert_content (ef_content fs) ?fl)\<rparr>"
    using False assms(1,2,5) by (simp add: upsertEnvFile_def Let_def)
  then show ?thesis
    using upsert_content_reads[OF env_keys_legal env_keys_distinct False] assms(1,3) m
    by (simp add: readLast_content)
qed

lemma upsert_reads:
  assumes "ef_read_err fs = None" "ef_write_err fs = None" "storable updates"
    and "readLastEnvFileValues fs = Inr m" "upsertEnvFile fs updates = (e, fs')"
  shows "e = None \<and> ef_read_err fs' = None
    \<and> readLastEnvFileValues fs' = Inr (m ++ map_of (filter (\<lambda>(k, v). v \<noteq> []) updates))"
  using upsert_reads_stored[OF assms(1,2) storable_keys[OF assms(3)] assms(4,5)]
    stored_storable[OF assms(3)] by simp

end
