(* ===== verification/Schema.thy ===== *)
theory Schema
  imports GoStrings Float64
begin

text \<open>
  The rows of the database and the integrity the schema asks of them
  (\<open>migrations/000001_django_compatible_schema.up.sql\<close>, \<open>migrations/000002_media_processing_jobs.up.sql\<close>
  and the row structs of \<open>internal/data\<close> and \<open>internal/auth\<close>). A table is the list of its rows in
  scan order. A nullable column is an option; a NULL JSON column is the empty string, as the code's
  \<open>json.RawMessage\<close> reads it. Times are nanoseconds. The joined fields of a \<open>StorageFile\<close>
  (\<open>Owner\<close>, \<open>Type\<close>, \<open>CreatedBy\<close>, \<open>UpdatedBy\<close>) are nil in a stored row and filled by \<open>enrichFile\<close>.
\<close>

section \<open>Rows\<close>

record User =
  u_id :: uuid
  u_username :: string
  u_system :: string
  u_admin :: bool
  u_active :: bool
  u_registered :: int
  u_last_activity :: int

record UserToken =
  tok_uuid :: uuid
  tok_token :: string
  tok_issued :: int
  tok_expires :: int
  tok_created :: int
  tok_user :: uuid

record Storage =
  st_id :: uuid
  st_type :: "string option"
  st_creds :: string
  st_media_cfg :: string
  st_total_size :: int

record MimeType =
  mt_id :: uuid
  mt_mime :: string
  mt_generic :: "string option"
  mt_desc :: "string option"
  mt_exts :: "string option"

record UserPublic =
  up_id :: uuid
  up_username :: string
  up_system :: string
  up_admin :: bool
  up_active :: bool
  up_registered :: int
  up_last_activity :: int
  up_downloads :: nat
  up_uploads :: nat

record StorageFile =
  sf_id :: uuid
  sf_created_at :: int
  sf_updated_at :: "int option"
  sf_sig :: string
  sf_storage :: uuid
  sf_owner_id :: "uuid option"
  sf_name :: "string option"
  sf_status :: string
  sf_visibility :: string
  sf_size :: int
  sf_hash :: "string option"
  sf_type_id :: "uuid option"
  sf_ext :: "string option"
  sf_exif :: string
  sf_custom :: string
  sf_origin :: string
  sf_orig_path :: "string option"
  sf_real_path :: "string option"
  sf_virt_path :: "string option"
  sf_available :: bool
  sf_excluded :: bool
  sf_created_by_id :: "uuid option"
  sf_updated_by_id :: "uuid option"
  sf_owner :: "UserPublic option"
  sf_type :: "MimeType option"
  sf_created_by :: "uuid option"
  sf_updated_by :: "uuid option"

record StorageUser =
  su_id :: uuid
  su_created_at :: int
  su_updated_at :: "int option"
  su_may_write :: bool
  su_may_read :: bool
  su_storage :: uuid
  su_user :: uuid
  su_created_by :: "uuid option"
  su_updated_by :: "uuid option"

record FileDownload =
  dl_id :: uuid
  dl_url :: "string option"
  dl_force :: bool
  dl_created_at :: int
  dl_expires_at :: int
  dl_owner :: "uuid option"
  dl_file :: uuid

record MediaJob =
  mj_id :: uuid
  mj_storage :: uuid
  mj_file :: uuid
  mj_status :: string
  mj_attempts :: nat
  mj_last_error :: "string option"
  mj_created_at :: int
  mj_updated_at :: int

record MediaRow =
  md_id :: uuid
  md_created_at :: int
  md_type :: string
  md_file :: uuid
  md_created_by :: "uuid option"

record MediaImage =
  mi_id :: uuid
  mi_focal :: "float64 option"
  mi_aperture :: "string option"
  mi_flash :: "bool option"
  mi_iso :: "int option"
  mi_orientation :: "int option"
  mi_flipped :: "bool option"
  mi_exposition :: "string option"
  mi_taken :: "string option"
  mi_maker :: "string option"
  mi_model :: "string option"
  mi_exif_h :: "int option"
  mi_exif_w :: "int option"
  mi_size_tag :: "string option"
  mi_height :: "int option"
  mi_width :: "int option"
  mi_megapixels :: "string option"
  mi_media :: uuid

record MediaVideo =
  mv_id :: uuid
  mv_fps :: "int option"
  mv_duration :: "string option"
  mv_size_tag :: "string option"
  mv_height :: "int option"
  mv_width :: "int option"
  mv_megapixels :: "string option"
  mv_media :: uuid

record MediaDocument =
  mdoc_id :: uuid
  mdoc_pages :: "int option"
  mdoc_bw :: bool
  mdoc_media :: uuid

record MediaThumb =
  th_id :: uuid
  th_size_tag :: string
  th_height :: "int option"
  th_width :: "int option"
  th_megapixels :: "string option"
  th_media :: uuid
  th_file :: uuid

record MediaImageSized =
  ms_id :: uuid
  ms_size_tag :: "string option"
  ms_height :: "int option"
  ms_width :: "int option"
  ms_megapixels :: "string option"
  ms_image :: uuid
  ms_file :: uuid

record db =
  users :: "User list"
  tokens :: "UserToken list"
  storages :: "Storage list"
  mimes :: "MimeType list"
  files :: "StorageFile list"
  storage_users :: "StorageUser list"
  downloads :: "FileDownload list"
  medias :: "MediaRow list"
  images :: "MediaImage list"
  videos :: "MediaVideo list"
  documents :: "MediaDocument list"
  thumbs :: "MediaThumb list"
  sizeds :: "MediaImageSized list"
  jobs :: "MediaJob list"

section \<open>Integrity\<close>

text \<open>The length PostgreSQL checks against VARCHAR(n): characters, not the bytes of UTF-8.\<close>

definition char_length :: "string \<Rightarrow> nat" where
  "char_length s = length (filter (\<lambda>c. \<not> (128 \<le> (of_char c :: nat) \<and> (of_char c :: nat) < 192)) s)"

definition fits :: "nat \<Rightarrow> string \<Rightarrow> bool" where
  "fits n s \<longleftrightarrow> char_length s \<le> n"

definition fits_opt :: "nat \<Rightarrow> string option \<Rightarrow> bool" where
  "fits_opt n s = (case s of None \<Rightarrow> True | Some x \<Rightarrow> fits n x)"

text \<open>INTEGER is 32 bits; NUMERIC(7,4) holds three digits before the point (the code writes "%.4f").\<close>

definition int4 :: "int option \<Rightarrow> bool" where
  "int4 n = (case n of None \<Rightarrow> True | Some v \<Rightarrow> - 2147483648 \<le> v \<and> v \<le> 2147483647)"

definition numeric74 :: "string option \<Rightarrow> bool" where
  "numeric74 s = (case s of None \<Rightarrow> True
     | Some v \<Rightarrow> length (takeWhile (\<lambda>c. c \<noteq> CHR ''.'') v) \<le> 3)"

definition has_user :: "db \<Rightarrow> uuid \<Rightarrow> bool" where "has_user d i \<longleftrightarrow> i \<in> u_id ` set (users d)"
definition has_storage :: "db \<Rightarrow> uuid \<Rightarrow> bool" where
  "has_storage d i \<longleftrightarrow> i \<in> st_id ` set (storages d)"
definition has_mime :: "db \<Rightarrow> uuid \<Rightarrow> bool" where "has_mime d i \<longleftrightarrow> i \<in> mt_id ` set (mimes d)"
definition has_file :: "db \<Rightarrow> uuid \<Rightarrow> bool" where "has_file d i \<longleftrightarrow> i \<in> sf_id ` set (files d)"
definition has_media :: "db \<Rightarrow> uuid \<Rightarrow> bool" where "has_media d i \<longleftrightarrow> i \<in> md_id ` set (medias d)"
definition has_image :: "db \<Rightarrow> uuid \<Rightarrow> bool" where "has_image d i \<longleftrightarrow> i \<in> mi_id ` set (images d)"

definition null_or :: "(uuid \<Rightarrow> bool) \<Rightarrow> uuid option \<Rightarrow> bool" where
  "null_or P i = (case i of None \<Rightarrow> True | Some x \<Rightarrow> P x)"

lemmas has_defs = has_user_def has_storage_def has_mime_def has_file_def has_media_def has_image_def

text \<open>The column constraints of one row of each table, against the tables it refers to.\<close>

definition user_fits :: "User \<Rightarrow> bool" where
  "user_fits u \<longleftrightarrow> fits 32 (u_username u) \<and> fits 255 (u_system u)"

definition storage_fits :: "Storage \<Rightarrow> bool" where
  "storage_fits s \<longleftrightarrow> fits_opt 10 (st_type s)"

definition token_fits :: "db \<Rightarrow> UserToken \<Rightarrow> bool" where
  "token_fits d t \<longleftrightarrow> fits 255 (tok_token t) \<and> has_user d (tok_user t)"

definition file_fits :: "db \<Rightarrow> StorageFile \<Rightarrow> bool" where
  "file_fits d f \<longleftrightarrow>
     fits 64 (sf_sig f) \<and> fits_opt 255 (sf_name f) \<and> fits 50 (sf_status f) \<and> fits 50 (sf_visibility f)
     \<and> fits_opt 255 (sf_hash f) \<and> fits_opt 16 (sf_ext f) \<and> fits 255 (sf_origin f)
     \<and> fits_opt 1024 (sf_orig_path f) \<and> fits_opt 1024 (sf_real_path f) \<and> fits_opt 1024 (sf_virt_path f)
     \<and> has_storage d (sf_storage f) \<and> null_or (has_user d) (sf_owner_id f)
     \<and> null_or (has_user d) (sf_created_by_id f) \<and> null_or (has_user d) (sf_updated_by_id f)
     \<and> null_or (has_mime d) (sf_type_id f)"

definition storage_user_fits :: "db \<Rightarrow> StorageUser \<Rightarrow> bool" where
  "storage_user_fits d s \<longleftrightarrow> has_storage d (su_storage s) \<and> has_user d (su_user s)
     \<and> null_or (has_user d) (su_created_by s) \<and> null_or (has_user d) (su_updated_by s)"

definition download_fits :: "db \<Rightarrow> FileDownload \<Rightarrow> bool" where
  "download_fits d r \<longleftrightarrow> fits_opt 1024 (dl_url r) \<and> null_or (has_user d) (dl_owner r)
     \<and> has_file d (dl_file r)"

definition media_fits :: "db \<Rightarrow> MediaRow \<Rightarrow> bool" where
  "media_fits d m \<longleftrightarrow> fits 64 (md_type m) \<and> has_file d (md_file m)
     \<and> null_or (has_user d) (md_created_by m)"

definition image_fits :: "db \<Rightarrow> MediaImage \<Rightarrow> bool" where
  "image_fits d i \<longleftrightarrow> fits_opt 255 (mi_aperture i) \<and> fits_opt 255 (mi_exposition i)
     \<and> fits_opt 255 (mi_taken i) \<and> fits_opt 255 (mi_maker i) \<and> fits_opt 255 (mi_model i)
     \<and> fits_opt 64 (mi_size_tag i) \<and> int4 (mi_iso i) \<and> int4 (mi_orientation i)
     \<and> int4 (mi_exif_h i) \<and> int4 (mi_exif_w i) \<and> int4 (mi_height i) \<and> int4 (mi_width i)
     \<and> numeric74 (mi_megapixels i) \<and> has_media d (mi_media i)"

definition video_fits :: "db \<Rightarrow> MediaVideo \<Rightarrow> bool" where
  "video_fits d v \<longleftrightarrow> fits_opt 64 (mv_size_tag v) \<and> int4 (mv_fps v) \<and> int4 (mv_height v)
     \<and> int4 (mv_width v) \<and> numeric74 (mv_megapixels v) \<and> has_media d (mv_media v)"

definition document_fits :: "db \<Rightarrow> MediaDocument \<Rightarrow> bool" where
  "document_fits d x \<longleftrightarrow> int4 (mdoc_pages x) \<and> has_media d (mdoc_media x)"

definition thumb_fits :: "db \<Rightarrow> MediaThumb \<Rightarrow> bool" where
  "thumb_fits d t \<longleftrightarrow> fits 64 (th_size_tag t) \<and> int4 (th_height t) \<and> int4 (th_width t)
     \<and> numeric74 (th_megapixels t) \<and> has_media d (th_media t) \<and> has_file d (th_file t)"

definition sized_fits :: "db \<Rightarrow> MediaImageSized \<Rightarrow> bool" where
  "sized_fits d s \<longleftrightarrow> fits_opt 64 (ms_size_tag s) \<and> int4 (ms_height s) \<and> int4 (ms_width s)
     \<and> numeric74 (ms_megapixels s) \<and> has_image d (ms_image s) \<and> has_file d (ms_file s)"

definition job_fits :: "db \<Rightarrow> MediaJob \<Rightarrow> bool" where
  "job_fits d j \<longleftrightarrow> has_storage d (mj_storage j) \<and> has_file d (mj_file j) \<and> fits 32 (mj_status j)"

lemmas row_fits = user_fits_def storage_fits_def token_fits_def file_fits_def storage_user_fits_def download_fits_def media_fits_def
  image_fits_def video_fits_def document_fits_def thumb_fits_def sized_fits_def job_fits_def

text \<open>Primary keys and unique constraints.\<close>

definition keys_ok :: "db \<Rightarrow> bool" where
  "keys_ok d \<longleftrightarrow> distinct (map u_id (users d)) \<and> distinct (map tok_token (tokens d))
     \<and> distinct (map st_id (storages d)) \<and> distinct (map mt_id (mimes d))
     \<and> distinct (map sf_id (files d)) \<and> distinct (map su_id (storage_users d))
     \<and> distinct (map (\<lambda>s. (su_storage s, su_user s)) (storage_users d))
     \<and> distinct (map dl_id (downloads d)) \<and> distinct (map md_id (medias d))
     \<and> distinct (map md_file (medias d)) \<and> distinct (map mi_id (images d))
     \<and> distinct (map mi_media (images d)) \<and> distinct (map mv_id (videos d))
     \<and> distinct (map mv_media (videos d)) \<and> distinct (map mdoc_id (documents d))
     \<and> distinct (map mdoc_media (documents d)) \<and> distinct (map th_id (thumbs d))
     \<and> distinct (map ms_id (sizeds d)) \<and> distinct (map ms_file (sizeds d))
     \<and> distinct (map mj_id (jobs d)) \<and> distinct (map mj_file (jobs d))"

text \<open>Foreign keys and column widths.\<close>

definition rows_ok :: "db \<Rightarrow> bool" where
  "rows_ok d \<longleftrightarrow> list_all user_fits (users d) \<and> list_all storage_fits (storages d)
     \<and> list_all (token_fits d) (tokens d) \<and> list_all (file_fits d) (files d)
     \<and> list_all (storage_user_fits d) (storage_users d) \<and> list_all (download_fits d) (downloads d)
     \<and> list_all (media_fits d) (medias d) \<and> list_all (image_fits d) (images d)
     \<and> list_all (video_fits d) (videos d) \<and> list_all (document_fits d) (documents d)
     \<and> list_all (thumb_fits d) (thumbs d) \<and> list_all (sized_fits d) (sizeds d)
     \<and> list_all (job_fits d) (jobs d)"

definition db_ok :: "db \<Rightarrow> bool" where
  "db_ok d \<longleftrightarrow> keys_ok d \<and> rows_ok d"

section \<open>ON DELETE CASCADE\<close>

text \<open>
  What a DELETE of storages or files takes with it: every row whose parent is gone, parents first.
  The program never deletes users, MIME types or media rows, so no other reference can break.
\<close>

definition cascade_storages :: "db \<Rightarrow> db" where
  "cascade_storages d = d\<lparr>files := filter (\<lambda>f. has_storage d (sf_storage f)) (files d),
     storage_users := filter (\<lambda>s. has_storage d (su_storage s)) (storage_users d)\<rparr>"

definition cascade_files :: "db \<Rightarrow> db" where
  "cascade_files d = d\<lparr>downloads := filter (\<lambda>r. has_file d (dl_file r)) (downloads d),
     medias := filter (\<lambda>m. has_file d (md_file m)) (medias d),
     jobs := filter (\<lambda>j. has_storage d (mj_storage j) \<and> has_file d (mj_file j)) (jobs d)\<rparr>"

definition cascade_medias :: "db \<Rightarrow> db" where
  "cascade_medias d = d\<lparr>images := filter (\<lambda>i. has_media d (mi_media i)) (images d),
     videos := filter (\<lambda>v. has_media d (mv_media v)) (videos d),
     documents := filter (\<lambda>x. has_media d (mdoc_media x)) (documents d),
     thumbs := filter (\<lambda>t. has_media d (th_media t) \<and> has_file d (th_file t)) (thumbs d)\<rparr>"

definition cascade_images :: "db \<Rightarrow> db" where
  "cascade_images d =
     d\<lparr>sizeds := filter (\<lambda>s. has_image d (ms_image s) \<and> has_file d (ms_file s)) (sizeds d)\<rparr>"

definition cascade :: "db \<Rightarrow> db" where
  "cascade d = cascade_images (cascade_medias (cascade_files (cascade_storages d)))"

lemmas cascade_steps = cascade_images_def cascade_medias_def cascade_files_def cascade_storages_def

text \<open>DELETE FROM core_storagefile WHERE ..., and the same for core_storage.\<close>

definition delete_files :: "(StorageFile \<Rightarrow> bool) \<Rightarrow> db \<Rightarrow> db" where
  "delete_files P d = cascade (d\<lparr>files := filter (\<lambda>f. \<not> P f) (files d)\<rparr>)"

definition delete_storages :: "(Storage \<Rightarrow> bool) \<Rightarrow> db \<Rightarrow> db" where
  "delete_storages P d = cascade (d\<lparr>storages := filter (\<lambda>s. \<not> P s) (storages d)\<rparr>)"

lemma keys_ok_steps:
  "keys_ok d \<Longrightarrow> keys_ok (cascade_storages d)" "keys_ok d \<Longrightarrow> keys_ok (cascade_files d)"
  "keys_ok d \<Longrightarrow> keys_ok (cascade_medias d)" "keys_ok d \<Longrightarrow> keys_ok (cascade_images d)"
  by (simp_all add: keys_ok_def cascade_steps distinct_map_filter_key)

lemma keys_ok_cascade: "keys_ok d \<Longrightarrow> keys_ok (cascade d)"
  by (simp add: cascade_def keys_ok_steps)

lemma cascade_parents [simp]:
  "users (cascade d) = users d" "tokens (cascade d) = tokens d"
  "storages (cascade d) = storages d" "mimes (cascade d) = mimes d"
  by (simp_all add: cascade_def cascade_steps)

lemma files_cascade: "files (cascade d) = filter (\<lambda>f. has_storage d (sf_storage f)) (files d)"
  by (simp add: cascade_def cascade_steps)

end
