(* ===== verification/World.thy ===== *)
theory World
  imports Schema
begin

text \<open>
  The world a request or a worker acts on, and the actions on it. The world holds the database, the
  object store's blobs, the audit log, the clock, the supply of random UUIDs (\<open>uuid.New\<close> draws the
  next one; nothing says they differ) and a schedule of faults: every call to PostgreSQL or to an
  object store takes the next entry, and an entry with an error makes that call fail without an
  effect. A theorem for every schedule covers every pattern of failures.
\<close>

section \<open>World\<close>

text \<open>Where a blob lives: a path on the local disk, or a key of an S3 bucket.\<close>

datatype blob_loc = LocalPath string | S3Key string string

datatype blob = Blob (blob_bytes: string) (blob_type: string)

record world =
  wdb :: db
  wblobs :: "blob_loc \<rightharpoonup> blob"
  waudit :: "(string \<times> string) list list"
  wclock :: int
  wdraws :: "nat \<Rightarrow> uuid"
  wdrawn :: nat
  wfaults :: "err option list"

type_synonym 'a m = "(world, 'a) state"

abbreviation ret :: "'a \<Rightarrow> 'a m" where
  "ret \<equiv> State_Monad.return"

abbreviation run :: "'a m \<Rightarrow> world \<Rightarrow> 'a \<times> world" where
  "run \<equiv> run_state"

section \<open>Primitive actions\<close>

definition next_fault :: "err option m" where
  "next_fault = State (\<lambda>w. case wfaults w of [] \<Rightarrow> (None, w) | f # fs \<Rightarrow> (f, w\<lparr>wfaults := fs\<rparr>))"

definition now :: "int m" where
  "now = State (\<lambda>w. (wclock w, w))"

definition new_uuid :: "uuid m" where
  "new_uuid = State (\<lambda>w. (wdraws w (wdrawn w), w\<lparr>wdrawn := Suc (wdrawn w)\<rparr>))"

text \<open>A read of the database: a query with the statement's time and the tables.\<close>

definition db_query :: "(int \<Rightarrow> db \<Rightarrow> 'a result) \<Rightarrow> 'a result m" where
  "db_query q = State (\<lambda>w. case run next_fault w of
     (Some e, w') \<Rightarrow> (Inl e, w')
   | (None, w') \<Rightarrow> (q (wclock w') (wdb w'), w'))"

text \<open>A statement that may change the tables.\<close>

definition db_exec :: "(int \<Rightarrow> db \<Rightarrow> 'a result \<times> db) \<Rightarrow> 'a result m" where
  "db_exec q = State (\<lambda>w. case run next_fault w of
     (Some e, w') \<Rightarrow> (Inl e, w')
   | (None, w') \<Rightarrow> (case q (wclock w') (wdb w') of (r, d) \<Rightarrow> (r, w'\<lparr>wdb := d\<rparr>)))"

text \<open>A call to an object store.\<close>

definition blob_op :: "((blob_loc \<rightharpoonup> blob) \<Rightarrow> 'a result \<times> (blob_loc \<rightharpoonup> blob)) \<Rightarrow> 'a result m" where
  "blob_op q = State (\<lambda>w. case run next_fault w of
     (Some e, w') \<Rightarrow> (Inl e, w')
   | (None, w') \<Rightarrow> (case q (wblobs w') of (r, b) \<Rightarrow> (r, w'\<lparr>wblobs := b\<rparr>)))"

definition log_audit :: "(string \<times> string) list \<Rightarrow> unit m" where
  "log_audit kvs = State (\<lambda>w. ((), w\<lparr>waudit := waudit w @ [kvs]\<rparr>))"

text \<open>Go's \<open>x, err := f(); if err != nil { return err }\<close> for functions that return the error.\<close>

definition try_bind :: "'a result m \<Rightarrow> ('a \<Rightarrow> 'b result m) \<Rightarrow> 'b result m" where
  "try_bind m f = do { r \<leftarrow> m; case r of Inl e \<Rightarrow> ret (Inl e) | Inr x \<Rightarrow> f x }"

text \<open>
  A transaction: the tables as they were when it began come back unless its body succeeds and the
  commit does. A statement that fails aborts it: the bodies of the program return on the first error.
\<close>

definition in_tx :: "'a result m \<Rightarrow> 'a result m" where
  "in_tx body = State (\<lambda>w. case run next_fault w of
     (Some e, w1) \<Rightarrow> (Inl e, w1)
   | (None, w1) \<Rightarrow> (case run body w1 of
       (Inl e, w2) \<Rightarrow> (Inl e, w2\<lparr>wdb := wdb w1\<rparr>)
     | (Inr x, w2) \<Rightarrow> (case run next_fault w2 of
         (Some e, w3) \<Rightarrow> (Inl e, w3\<lparr>wdb := wdb w1\<rparr>)
       | (None, w3) \<Rightarrow> (Inr x, w3))))"

section \<open>Weakest preconditions\<close>

definition wp :: "'a m \<Rightarrow> ('a \<Rightarrow> world \<Rightarrow> bool) \<Rightarrow> world \<Rightarrow> bool" where
  "wp m Q w = (case run m w of (r, w') \<Rightarrow> Q r w')"

lemma wp_run: "wp m Q w \<Longrightarrow> run m w = (r, w') \<Longrightarrow> Q r w'"
  by (simp add: wp_def)

lemma wp_mono: "wp m Q w \<Longrightarrow> (\<And>r w'. Q r w' \<Longrightarrow> Q' r w') \<Longrightarrow> wp m Q' w"
  by (auto simp: wp_def split: prod.splits)

lemma wp_return [wp_simps]: "wp (ret x) Q w = Q x w"
  by (simp add: wp_def)

lemma wp_bind [wp_simps]: "wp (do { x \<leftarrow> m; f x }) Q w = wp m (\<lambda>x. wp (f x) Q) w"
  by (simp add: wp_def split: prod.splits)

lemma wp_now [wp_simps]: "wp now Q w = Q (wclock w) w"
  by (simp add: wp_def now_def)

lemma wp_new_uuid [wp_simps]:
  "wp new_uuid Q w = Q (wdraws w (wdrawn w)) (w\<lparr>wdrawn := Suc (wdrawn w)\<rparr>)"
  by (simp add: wp_def new_uuid_def)

lemma wp_log_audit [wp_simps]: "wp (log_audit kvs) Q w = Q () (w\<lparr>waudit := waudit w @ [kvs]\<rparr>)"
  by (simp add: wp_def log_audit_def)

lemma wp_try_bind [wp_simps]:
  "wp (try_bind m f) Q w = wp m (\<lambda>r. case r of Inl e \<Rightarrow> Q (Inl e) | Inr x \<Rightarrow> wp (f x) Q) w"
  by (simp add: try_bind_def wp_def split: prod.splits sum.splits)

lemma wp_db_query:
  "wp (db_query q) Q w = wp next_fault (\<lambda>f w'. case f of Some e \<Rightarrow> Q (Inl e) w'
     | None \<Rightarrow> Q (q (wclock w') (wdb w')) w') w"
  by (simp add: wp_def db_query_def split: prod.splits option.splits)

lemma wp_db_exec:
  "wp (db_exec q) Q w = wp next_fault (\<lambda>f w'. case f of Some e \<Rightarrow> Q (Inl e) w'
     | None \<Rightarrow> (case q (wclock w') (wdb w') of (r, d) \<Rightarrow> Q r (w'\<lparr>wdb := d\<rparr>))) w"
  by (simp add: wp_def db_exec_def split: prod.splits option.splits)

lemma wp_blob_op:
  "wp (blob_op q) Q w = wp next_fault (\<lambda>f w'. case f of Some e \<Rightarrow> Q (Inl e) w'
     | None \<Rightarrow> (case q (wblobs w') of (r, b) \<Rightarrow> Q r (w'\<lparr>wblobs := b\<rparr>))) w"
  by (simp add: wp_def blob_op_def split: prod.splits option.splits)

lemma wp_next_fault:
  "wp next_fault Q w = (case wfaults w of [] \<Rightarrow> Q None w | f # fs \<Rightarrow> Q f (w\<lparr>wfaults := fs\<rparr>))"
  by (simp add: wp_def next_fault_def split: list.splits)

lemma wp_in_tx:
  "wp (in_tx body) Q w = wp next_fault (\<lambda>f w1. case f of Some e \<Rightarrow> Q (Inl e) w1
     | None \<Rightarrow> wp body (\<lambda>r w2. case r of Inl e \<Rightarrow> Q (Inl e) (w2\<lparr>wdb := wdb w1\<rparr>)
         | Inr x \<Rightarrow> wp next_fault (\<lambda>g w3. case g of Some e \<Rightarrow> Q (Inl e) (w3\<lparr>wdb := wdb w1\<rparr>)
             | None \<Rightarrow> Q (Inr x) w3) w2) w1) w"
  by (simp add: wp_def in_tx_def split: prod.splits option.splits sum.splits)

section \<open>Running with no faults\<close>

definition calm :: "world \<Rightarrow> bool" where
  "calm w \<longleftrightarrow> wfaults w = []"

lemma calm_update [simp]:
  "calm (w\<lparr>wdb := d\<rparr>) = calm w" "calm (w\<lparr>wblobs := b\<rparr>) = calm w"
  "calm (w\<lparr>waudit := a\<rparr>) = calm w" "calm (w\<lparr>wdrawn := n\<rparr>) = calm w"
  by (simp_all add: calm_def)

lemma run_db_query_calm [simp]: "calm w \<Longrightarrow> run (db_query q) w = (q (wclock w) (wdb w), w)"
  by (simp add: db_query_def next_fault_def calm_def)

lemma run_db_exec_calm [simp]:
  "calm w \<Longrightarrow> run (db_exec q) w
     = (fst (q (wclock w) (wdb w)), w\<lparr>wdb := snd (q (wclock w) (wdb w))\<rparr>)"
  by (simp add: db_exec_def next_fault_def calm_def split: prod.splits)

lemma run_blob_op_calm [simp]:
  "calm w \<Longrightarrow> run (blob_op q) w = (fst (q (wblobs w)), w\<lparr>wblobs := snd (q (wblobs w))\<rparr>)"
  by (simp add: blob_op_def next_fault_def calm_def split: prod.splits)

lemma run_now [simp]: "run now w = (wclock w, w)"
  by (simp add: now_def)

lemma run_new_uuid [simp]:
  "run new_uuid w = (wdraws w (wdrawn w), w\<lparr>wdrawn := Suc (wdrawn w)\<rparr>)"
  by (simp add: new_uuid_def)

lemma run_log_audit [simp]: "run (log_audit kvs) w = ((), w\<lparr>waudit := waudit w @ [kvs]\<rparr>)"
  by (simp add: log_audit_def)

lemma next_fault_calm [simp]: "calm w \<Longrightarrow> run next_fault w = (None, w)"
  by (simp add: next_fault_def calm_def)

lemma run_try_bind:
  "run (try_bind m f) w = (case run m w of (r, w') \<Rightarrow>
     (case r of Inl e \<Rightarrow> (Inl e, w') | Inr x \<Rightarrow> run (f x) w'))"
  by (simp add: try_bind_def split: prod.splits sum.splits)

section \<open>Frames and invariants\<close>

text \<open>
  \<open>keeps_all I m\<close>: the action keeps \<open>I\<close>, whatever the faults. The rules below lift it through
  the control structure of the handlers, so that the invariants of the database are proved once per
  statement.
\<close>

definition keeps_all :: "(world \<Rightarrow> bool) \<Rightarrow> 'a m \<Rightarrow> bool" where
  "keeps_all I m \<longleftrightarrow> (\<forall>w. I w \<longrightarrow> I (snd (run m w)))"

lemma keeps_allI: "(\<And>w. I w \<Longrightarrow> wp m (\<lambda>_. I) w) \<Longrightarrow> keeps_all I m"
  by (simp add: keeps_all_def wp_def case_prod_beta)

lemma keeps_allD: "keeps_all I m \<Longrightarrow> I w \<Longrightarrow> run m w = (r, w') \<Longrightarrow> I w'"
  by (metis keeps_all_def snd_conv)

lemma keeps_return [keeps]: "keeps_all I (ret x)"
  by (simp add: keeps_all_def)

lemma keeps_bind [keeps]:
  "keeps_all I m \<Longrightarrow> (\<And>x. keeps_all I (f x)) \<Longrightarrow> keeps_all I (do { x \<leftarrow> m; f x })"
  by (auto simp: keeps_all_def split: prod.splits)

lemma keeps_try_bind [keeps]:
  "keeps_all I m \<Longrightarrow> (\<And>x. keeps_all I (f x)) \<Longrightarrow> keeps_all I (try_bind m f)"
  by (auto simp: try_bind_def intro!: keeps split: sum.splits)

lemma keeps_sum [keeps]:
  "(\<And>e. keeps_all I (f e)) \<Longrightarrow> (\<And>x. keeps_all I (g x)) \<Longrightarrow> keeps_all I (case_sum f g r)"
  by (cases r) simp_all

lemma keeps_option [keeps]:
  "keeps_all I f \<Longrightarrow> (\<And>x. keeps_all I (g x)) \<Longrightarrow> keeps_all I (case_option f g r)"
  by (cases r) simp_all

lemma keeps_if [keeps]:
  "(c \<Longrightarrow> keeps_all I f) \<Longrightarrow> (\<not> c \<Longrightarrow> keeps_all I g) \<Longrightarrow> keeps_all I (if c then f else g)"
  by simp

lemma keeps_prod [keeps]:
  "(\<And>a b. keeps_all I (f a b)) \<Longrightarrow> keeps_all I (case_prod f p)"
  by (cases p) simp

lemma keeps_let [keeps]: "(\<And>x. keeps_all I (f x)) \<Longrightarrow> keeps_all I (let x = v in f x)"
  by (simp add: Let_def)

text \<open>Invariants of the database alone.\<close>

definition on_db :: "(db \<Rightarrow> bool) \<Rightarrow> world \<Rightarrow> bool" where
  "on_db P w \<longleftrightarrow> P (wdb w)"

lemma keeps_now [keeps]: "keeps_all (on_db P) now"
  by (simp add: keeps_all_def)

lemma keeps_new_uuid [keeps]: "keeps_all (on_db P) new_uuid"
  by (simp add: keeps_all_def on_db_def)

lemma keeps_log_audit [keeps]: "keeps_all (on_db P) (log_audit kvs)"
  by (simp add: keeps_all_def on_db_def)

lemma keeps_db_query [keeps]: "keeps_all (on_db P) (db_query q)"
  by (simp add: keeps_all_def on_db_def db_query_def next_fault_def split: list.splits option.splits)

lemma keeps_blob_op [keeps]: "keeps_all (on_db P) (blob_op q)"
  by (simp add: keeps_all_def on_db_def blob_op_def next_fault_def
           split: list.splits option.splits prod.splits)

lemma keeps_db_exec:
  "(\<And>t d. P d \<Longrightarrow> P (snd (q t d))) \<Longrightarrow> keeps_all (on_db P) (db_exec q)"
  by (auto simp: keeps_all_def on_db_def db_exec_def next_fault_def
           split: list.splits option.splits prod.splits) (metis snd_conv)+

lemma next_fault_db: "run next_fault w = (f, w') \<Longrightarrow> wdb w' = wdb w"
  by (auto simp: next_fault_def split: list.splits)

lemma keeps_in_tx [keeps]: "keeps_all (on_db P) body \<Longrightarrow> keeps_all (on_db P) (in_tx body)"
  by (auto simp: keeps_all_def on_db_def in_tx_def next_fault_db
        split: prod.splits option.splits sum.splits dest!: next_fault_db) (metis snd_conv)+

end
