(* ===== verification/Tables.thy ===== *)
theory Tables
  imports Schema
begin

text \<open>
  The statements that change a table, one definition per kind of statement: a row is inserted,
  updated or deleted only if the column widths, foreign keys and unique constraints of its table
  hold afterwards, otherwise the statement fails with \<open>ErrConstraint\<close> and changes nothing. Every
  statement keeps the integrity of the database (\<open>ok_intros\<close>).
\<close>

definition stmt :: "bool \<Rightarrow> 'a \<Rightarrow> db \<Rightarrow> db \<Rightarrow> 'a result \<times> db" where
  "stmt ok x d' d = (if ok then (Inr x, d') else (Inl ErrConstraint, d))"

lemma stmt_keeps: "P d \<Longrightarrow> (ok \<Longrightarrow> P d') \<Longrightarrow> P (snd (stmt ok x d' d))"
  by (simp add: stmt_def)

lemma stmt_ok [simp]: "stmt True x d' d = (Inr x, d')"
  by (simp add: stmt_def)

lemma stmt_cases:
  obtains "ok" "stmt ok x d' d = (Inr x, d')" | "\<not> ok" "stmt ok x d' d = (Inl ErrConstraint, d)"
  by (cases ok) (simp_all add: stmt_def)

section \<open>References stay valid when their tables grow\<close>

definition parents_le :: "db \<Rightarrow> db \<Rightarrow> bool" where
  "parents_le d d' \<longleftrightarrow> (\<forall>i. (has_user d i \<longrightarrow> has_user d' i) \<and> (has_storage d i \<longrightarrow> has_storage d' i)
     \<and> (has_mime d i \<longrightarrow> has_mime d' i) \<and> (has_file d i \<longrightarrow> has_file d' i)
     \<and> (has_media d i \<longrightarrow> has_media d' i) \<and> (has_image d i \<longrightarrow> has_image d' i))"

lemma null_or_mono:
  "parents_le d d' \<Longrightarrow> null_or (has_user d) i \<Longrightarrow> null_or (has_user d') i"
  "parents_le d d' \<Longrightarrow> null_or (has_mime d) i \<Longrightarrow> null_or (has_mime d') i"
  by (cases i; simp add: null_or_def parents_le_def)+

lemma fits_mono:
  assumes "parents_le d d'"
  shows "token_fits d t \<Longrightarrow> token_fits d' t" "file_fits d f \<Longrightarrow> file_fits d' f"
    "storage_user_fits d su \<Longrightarrow> storage_user_fits d' su" "download_fits d dl \<Longrightarrow> download_fits d' dl"
    "media_fits d md \<Longrightarrow> media_fits d' md" "image_fits d mi \<Longrightarrow> image_fits d' mi"
    "video_fits d mv \<Longrightarrow> video_fits d' mv" "document_fits d mc \<Longrightarrow> document_fits d' mc"
    "thumb_fits d th \<Longrightarrow> thumb_fits d' th" "sized_fits d ms \<Longrightarrow> sized_fits d' ms"
    "job_fits d j \<Longrightarrow> job_fits d' j"
  using assms null_or_mono[OF assms] unfolding row_fits parents_le_def by blast+

lemma list_fits_mono:
  assumes "parents_le d d'"
  shows "list_all (token_fits d) a \<Longrightarrow> list_all (token_fits d') a"
    "list_all (file_fits d) b \<Longrightarrow> list_all (file_fits d') b"
    "list_all (storage_user_fits d) c \<Longrightarrow> list_all (storage_user_fits d') c"
    "list_all (download_fits d) e \<Longrightarrow> list_all (download_fits d') e"
    "list_all (media_fits d) f \<Longrightarrow> list_all (media_fits d') f"
    "list_all (image_fits d) g \<Longrightarrow> list_all (image_fits d') g"
    "list_all (video_fits d) h \<Longrightarrow> list_all (video_fits d') h"
    "list_all (document_fits d) i \<Longrightarrow> list_all (document_fits d') i"
    "list_all (thumb_fits d) j \<Longrightarrow> list_all (thumb_fits d') j"
    "list_all (sized_fits d) k \<Longrightarrow> list_all (sized_fits d') k"
    "list_all (job_fits d) l \<Longrightarrow> list_all (job_fits d') l"
  by (simp_all add: list_all_iff fits_mono[OF assms])

section \<open>INSERT\<close>

text \<open>
  The \<open>created_by_id\<close> column of images, thumbnails and sized images is not read back by the code;
  only its foreign key is checked (\<open>cb\<close>). Tokens also have a primary key the code only writes.
\<close>

definition fresh :: "('r \<Rightarrow> 'k) \<Rightarrow> 'r \<Rightarrow> 'r list \<Rightarrow> bool" where
  "fresh k r rs \<longleftrightarrow> k r \<notin> k ` set rs"

definition ins_user :: "User \<Rightarrow> db \<Rightarrow> unit result \<times> db" where
  "ins_user r d = stmt (user_fits r \<and> fresh u_id r (users d)) () (d\<lparr>users := users d @ [r]\<rparr>) d"

definition ins_token :: "UserToken \<Rightarrow> db \<Rightarrow> unit result \<times> db" where
  "ins_token r d = stmt (token_fits d r \<and> fresh tok_uuid r (tokens d) \<and> fresh tok_token r (tokens d)) () (d\<lparr>tokens := tokens d @ [r]\<rparr>) d"

definition ins_storage :: "Storage \<Rightarrow> db \<Rightarrow> unit result \<times> db" where
  "ins_storage r d = stmt (storage_fits r \<and> fresh st_id r (storages d)) () (d\<lparr>storages := storages d @ [r]\<rparr>) d"

definition ins_file :: "StorageFile \<Rightarrow> db \<Rightarrow> unit result \<times> db" where
  "ins_file r d = stmt (file_fits d r \<and> fresh sf_id r (files d)) () (d\<lparr>files := files d @ [r]\<rparr>) d"

definition ins_storage_user :: "StorageUser \<Rightarrow> db \<Rightarrow> unit result \<times> db" where
  "ins_storage_user r d = stmt (storage_user_fits d r \<and> fresh su_id r (storage_users d) \<and> fresh (\<lambda>s. (su_storage s, su_user s)) r (storage_users d)) () (d\<lparr>storage_users := storage_users d @ [r]\<rparr>) d"

definition ins_download :: "FileDownload \<Rightarrow> db \<Rightarrow> unit result \<times> db" where
  "ins_download r d = stmt (download_fits d r \<and> fresh dl_id r (downloads d)) () (d\<lparr>downloads := downloads d @ [r]\<rparr>) d"

definition ins_media :: "MediaRow \<Rightarrow> db \<Rightarrow> unit result \<times> db" where
  "ins_media r d = stmt (media_fits d r \<and> fresh md_id r (medias d) \<and> fresh md_file r (medias d)) () (d\<lparr>medias := medias d @ [r]\<rparr>) d"

definition ins_image :: "MediaImage \<Rightarrow> uuid option \<Rightarrow> db \<Rightarrow> unit result \<times> db" where
  "ins_image r cb d = stmt (image_fits d r \<and> null_or (has_user d) cb \<and> fresh mi_id r (images d) \<and> fresh mi_media r (images d)) () (d\<lparr>images := images d @ [r]\<rparr>) d"

definition ins_video :: "MediaVideo \<Rightarrow> db \<Rightarrow> unit result \<times> db" where
  "ins_video r d = stmt (video_fits d r \<and> fresh mv_id r (videos d) \<and> fresh mv_media r (videos d)) () (d\<lparr>videos := videos d @ [r]\<rparr>) d"

definition ins_document :: "MediaDocument \<Rightarrow> db \<Rightarrow> unit result \<times> db" where
  "ins_document r d = stmt (document_fits d r \<and> fresh mdoc_id r (documents d) \<and> fresh mdoc_media r (documents d)) () (d\<lparr>documents := documents d @ [r]\<rparr>) d"

definition ins_thumb :: "MediaThumb \<Rightarrow> uuid option \<Rightarrow> db \<Rightarrow> unit result \<times> db" where
  "ins_thumb r cb d = stmt (thumb_fits d r \<and> null_or (has_user d) cb \<and> fresh th_id r (thumbs d)) () (d\<lparr>thumbs := thumbs d @ [r]\<rparr>) d"

definition ins_sized :: "MediaImageSized \<Rightarrow> uuid option \<Rightarrow> db \<Rightarrow> unit result \<times> db" where
  "ins_sized r cb d = stmt (sized_fits d r \<and> null_or (has_user d) cb \<and> fresh ms_id r (sizeds d) \<and> fresh ms_file r (sizeds d)) () (d\<lparr>sizeds := sizeds d @ [r]\<rparr>) d"

definition ins_job :: "MediaJob \<Rightarrow> db \<Rightarrow> unit result \<times> db" where
  "ins_job r d = stmt (job_fits d r \<and> fresh mj_id r (jobs d) \<and> fresh mj_file r (jobs d)) () (d\<lparr>jobs := jobs d @ [r]\<rparr>) d"

lemmas ins_defs = ins_user_def ins_token_def ins_storage_def ins_file_def ins_storage_user_def
  ins_download_def ins_media_def ins_image_def ins_video_def
  ins_document_def ins_thumb_def ins_sized_def ins_job_def

text \<open>
  A statement that takes no parent away leaves every old row fitting; what is left to check are the
  keys and the rows that changed.
\<close>

definition rows_fit :: "db \<Rightarrow> db \<Rightarrow> bool" where
  "rows_fit d' d \<longleftrightarrow> list_all user_fits (users d) \<and> list_all storage_fits (storages d)
     \<and> list_all (token_fits d') (tokens d) \<and> list_all (file_fits d') (files d)
     \<and> list_all (storage_user_fits d') (storage_users d) \<and> list_all (download_fits d') (downloads d)
     \<and> list_all (media_fits d') (medias d) \<and> list_all (image_fits d') (images d)
     \<and> list_all (video_fits d') (videos d) \<and> list_all (document_fits d') (documents d)
     \<and> list_all (thumb_fits d') (thumbs d) \<and> list_all (sized_fits d') (sizeds d)
     \<and> list_all (job_fits d') (jobs d)"

lemma rows_fit_self: "rows_fit d d = rows_ok d"
  by (simp add: rows_fit_def rows_ok_def)

lemma db_ok_step:
  assumes "db_ok d" and le: "parents_le d d'"
    and "keys_ok d \<Longrightarrow> rows_fit d' d \<Longrightarrow> db_ok d'"
  shows "db_ok d'"
proof (rule assms(3))
  show "keys_ok d" using assms(1) by (simp add: db_ok_def)
  show "rows_fit d' d"
    using assms(1) by (simp add: db_ok_def rows_ok_def rows_fit_def list_fits_mono[OF le])
qed

lemma has_fun: "has_user = (\<lambda>d i. i \<in> u_id ` set (users d))"
  "has_storage = (\<lambda>d i. i \<in> st_id ` set (storages d))" "has_mime = (\<lambda>d i. i \<in> mt_id ` set (mimes d))"
  "has_file = (\<lambda>d i. i \<in> sf_id ` set (files d))" "has_media = (\<lambda>d i. i \<in> md_id ` set (medias d))"
  "has_image = (\<lambda>d i. i \<in> mi_id ` set (images d))"
  by (simp_all add: has_defs fun_eq_iff)

lemmas row_keys = db_ok_def keys_ok_def fresh_def

lemma ins_user_ok [ok_intros]: "db_ok d \<Longrightarrow> db_ok (snd (ins_user r d))"
  unfolding ins_user_def by (rule stmt_keeps, assumption, rule db_ok_step, assumption)
    (simp_all add: row_keys rows_ok_def rows_fit_def parents_le_def has_fun user_fits_def)

lemma ins_token_ok [ok_intros]: "db_ok d \<Longrightarrow> db_ok (snd (ins_token r d))"
  unfolding ins_token_def by (rule stmt_keeps, assumption, rule db_ok_step, assumption)
    (simp_all add: row_keys rows_ok_def rows_fit_def parents_le_def has_fun token_fits_def)

lemma ins_storage_ok [ok_intros]: "db_ok d \<Longrightarrow> db_ok (snd (ins_storage r d))"
  unfolding ins_storage_def by (rule stmt_keeps, assumption, rule db_ok_step, assumption)
    (simp_all add: row_keys rows_ok_def rows_fit_def parents_le_def has_fun storage_fits_def)

lemma ins_file_ok [ok_intros]: "db_ok d \<Longrightarrow> db_ok (snd (ins_file r d))"
  unfolding ins_file_def by (rule stmt_keeps, assumption, rule db_ok_step, assumption)
    (simp_all add: row_keys rows_ok_def rows_fit_def parents_le_def has_fun file_fits_def)

lemma ins_storage_user_ok [ok_intros]: "db_ok d \<Longrightarrow> db_ok (snd (ins_storage_user r d))"
  unfolding ins_storage_user_def by (rule stmt_keeps, assumption, rule db_ok_step, assumption)
    (simp_all add: row_keys rows_ok_def rows_fit_def parents_le_def has_fun storage_user_fits_def)

lemma ins_download_ok [ok_intros]: "db_ok d \<Longrightarrow> db_ok (snd (ins_download r d))"
  unfolding ins_download_def by (rule stmt_keeps, assumption, rule db_ok_step, assumption)
    (simp_all add: row_keys rows_ok_def rows_fit_def parents_le_def has_fun download_fits_def)

lemma ins_media_ok [ok_intros]: "db_ok d \<Longrightarrow> db_ok (snd (ins_media r d))"
  unfolding ins_media_def by (rule stmt_keeps, assumption, rule db_ok_step, assumption)
    (simp_all add: row_keys rows_ok_def rows_fit_def parents_le_def has_fun media_fits_def)

lemma ins_image_ok [ok_intros]: "db_ok d \<Longrightarrow> db_ok (snd (ins_image r cb d))"
  unfolding ins_image_def by (rule stmt_keeps, assumption, rule db_ok_step, assumption)
    (simp_all add: row_keys rows_ok_def rows_fit_def parents_le_def has_fun image_fits_def)

lemma ins_video_ok [ok_intros]: "db_ok d \<Longrightarrow> db_ok (snd (ins_video r d))"
  unfolding ins_video_def by (rule stmt_keeps, assumption, rule db_ok_step, assumption)
    (simp_all add: row_keys rows_ok_def rows_fit_def parents_le_def has_fun video_fits_def)

lemma ins_document_ok [ok_intros]: "db_ok d \<Longrightarrow> db_ok (snd (ins_document r d))"
  unfolding ins_document_def by (rule stmt_keeps, assumption, rule db_ok_step, assumption)
    (simp_all add: row_keys rows_ok_def rows_fit_def parents_le_def has_fun document_fits_def)

lemma ins_thumb_ok [ok_intros]: "db_ok d \<Longrightarrow> db_ok (snd (ins_thumb r cb d))"
  unfolding ins_thumb_def by (rule stmt_keeps, assumption, rule db_ok_step, assumption)
    (simp_all add: row_keys rows_ok_def rows_fit_def parents_le_def has_fun thumb_fits_def)

lemma ins_sized_ok [ok_intros]: "db_ok d \<Longrightarrow> db_ok (snd (ins_sized r cb d))"
  unfolding ins_sized_def by (rule stmt_keeps, assumption, rule db_ok_step, assumption)
    (simp_all add: row_keys rows_ok_def rows_fit_def parents_le_def has_fun sized_fits_def)

lemma ins_job_ok [ok_intros]: "db_ok d \<Longrightarrow> db_ok (snd (ins_job r d))"
  unfolding ins_job_def by (rule stmt_keeps, assumption, rule db_ok_step, assumption)
    (simp_all add: row_keys rows_ok_def rows_fit_def parents_le_def has_fun job_fits_def)


section \<open>UPDATE\<close>

text \<open>
  The number of rows an UPDATE touches, or a violated constraint. No statement of the program
  changes a key.
\<close>

definition touched :: "('r \<Rightarrow> bool) \<Rightarrow> 'r list \<Rightarrow> nat" where
  "touched P rs = length (filter P rs)"

lemma touched_0: "touched P rs = 0 \<longleftrightarrow> (\<forall>r\<in>set rs. \<not> P r)"
  by (simp add: touched_def filter_empty_conv)

lemma list_all_upd_where:
  "list_all Q rs \<Longrightarrow> list_all (\<lambda>r. P r \<longrightarrow> Q (f r)) rs \<Longrightarrow> list_all Q (upd_where P f rs)"
  by (auto simp: upd_where_def list_all_iff)

definition upd_users :: "(User \<Rightarrow> bool) \<Rightarrow> (User \<Rightarrow> User) \<Rightarrow> db \<Rightarrow> nat result \<times> db" where
  "upd_users P f d = stmt (list_all (\<lambda>r. P r \<longrightarrow> user_fits (f r)) (users d)) (touched P (users d))
     (d\<lparr>users := upd_where P f (users d)\<rparr>) d"

definition upd_storages :: "(Storage \<Rightarrow> bool) \<Rightarrow> (Storage \<Rightarrow> Storage) \<Rightarrow> db \<Rightarrow> nat result \<times> db" where
  "upd_storages P f d = stmt (list_all (\<lambda>r. P r \<longrightarrow> storage_fits (f r)) (storages d)) (touched P (storages d))
     (d\<lparr>storages := upd_where P f (storages d)\<rparr>) d"

definition upd_files :: "(StorageFile \<Rightarrow> bool) \<Rightarrow> (StorageFile \<Rightarrow> StorageFile) \<Rightarrow> db \<Rightarrow> nat result \<times> db" where
  "upd_files P f d = stmt (list_all (\<lambda>r. P r \<longrightarrow> file_fits d (f r)) (files d)) (touched P (files d))
     (d\<lparr>files := upd_where P f (files d)\<rparr>) d"

definition upd_storage_users :: "(StorageUser \<Rightarrow> bool) \<Rightarrow> (StorageUser \<Rightarrow> StorageUser) \<Rightarrow> db \<Rightarrow> nat result \<times> db" where
  "upd_storage_users P f d = stmt (list_all (\<lambda>r. P r \<longrightarrow> storage_user_fits d (f r)) (storage_users d)) (touched P (storage_users d))
     (d\<lparr>storage_users := upd_where P f (storage_users d)\<rparr>) d"

definition upd_downloads :: "(FileDownload \<Rightarrow> bool) \<Rightarrow> (FileDownload \<Rightarrow> FileDownload) \<Rightarrow> db \<Rightarrow> nat result \<times> db" where
  "upd_downloads P f d = stmt (list_all (\<lambda>r. P r \<longrightarrow> download_fits d (f r)) (downloads d)) (touched P (downloads d))
     (d\<lparr>downloads := upd_where P f (downloads d)\<rparr>) d"

definition upd_jobs :: "(MediaJob \<Rightarrow> bool) \<Rightarrow> (MediaJob \<Rightarrow> MediaJob) \<Rightarrow> db \<Rightarrow> nat result \<times> db" where
  "upd_jobs P f d = stmt (list_all (\<lambda>r. P r \<longrightarrow> job_fits d (f r)) (jobs d)) (touched P (jobs d))
     (d\<lparr>jobs := upd_where P f (jobs d)\<rparr>) d"

definition upd_tokens :: "(UserToken \<Rightarrow> bool) \<Rightarrow> (UserToken \<Rightarrow> UserToken) \<Rightarrow> db \<Rightarrow> nat result \<times> db" where
  "upd_tokens P f d = stmt (list_all (\<lambda>r. P r \<longrightarrow> token_fits d (f r)) (tokens d)) (touched P (tokens d))
     (d\<lparr>tokens := upd_where P f (tokens d)\<rparr>) d"

lemmas upd_defs = upd_users_def upd_storages_def upd_files_def upd_storage_users_def
  upd_downloads_def upd_jobs_def upd_tokens_def

lemma ids_upd_where:
  "(\<And>r. k (f r) = k r) \<Longrightarrow> k ` set (upd_where P f rs) = k ` set rs"
  by (metis map_upd_where set_map)

lemma upd_users_ok [ok_intros]:
  "db_ok d \<Longrightarrow> (\<And>r. u_id (f r) = u_id r)
     \<Longrightarrow> db_ok (snd (upd_users P f d))"
  unfolding upd_users_def by (rule stmt_keeps, assumption, rule db_ok_step, assumption)
    (simp_all add: row_keys rows_ok_def rows_fit_def parents_le_def has_fun user_fits_def
       map_upd_where ids_upd_where list_all_upd_where)

lemma upd_storages_ok [ok_intros]:
  "db_ok d \<Longrightarrow> (\<And>r. st_id (f r) = st_id r)
     \<Longrightarrow> db_ok (snd (upd_storages P f d))"
  unfolding upd_storages_def by (rule stmt_keeps, assumption, rule db_ok_step, assumption)
    (simp_all add: row_keys rows_ok_def rows_fit_def parents_le_def has_fun storage_fits_def
       map_upd_where ids_upd_where list_all_upd_where)

lemma upd_files_ok [ok_intros]:
  "db_ok d \<Longrightarrow> (\<And>r. sf_id (f r) = sf_id r)
     \<Longrightarrow> db_ok (snd (upd_files P f d))"
  unfolding upd_files_def by (rule stmt_keeps, assumption, rule db_ok_step, assumption)
    (simp_all add: row_keys rows_ok_def rows_fit_def parents_le_def has_fun file_fits_def
       map_upd_where ids_upd_where list_all_upd_where)

lemma upd_storage_users_ok [ok_intros]:
  "db_ok d \<Longrightarrow> (\<And>r. su_id (f r) = su_id r) \<Longrightarrow> (\<And>r. su_storage (f r) = su_storage r) \<Longrightarrow> (\<And>r. su_user (f r) = su_user r)
     \<Longrightarrow> db_ok (snd (upd_storage_users P f d))"
  unfolding upd_storage_users_def by (rule stmt_keeps, assumption, rule db_ok_step, assumption)
    (simp_all add: row_keys rows_ok_def rows_fit_def parents_le_def has_fun storage_user_fits_def
       map_upd_where ids_upd_where list_all_upd_where)

lemma upd_downloads_ok [ok_intros]:
  "db_ok d \<Longrightarrow> (\<And>r. dl_id (f r) = dl_id r)
     \<Longrightarrow> db_ok (snd (upd_downloads P f d))"
  unfolding upd_downloads_def by (rule stmt_keeps, assumption, rule db_ok_step, assumption)
    (simp_all add: row_keys rows_ok_def rows_fit_def parents_le_def has_fun download_fits_def
       map_upd_where ids_upd_where list_all_upd_where)

lemma upd_jobs_ok [ok_intros]:
  "db_ok d \<Longrightarrow> (\<And>r. mj_id (f r) = mj_id r) \<Longrightarrow> (\<And>r. mj_file (f r) = mj_file r)
     \<Longrightarrow> db_ok (snd (upd_jobs P f d))"
  unfolding upd_jobs_def by (rule stmt_keeps, assumption, rule db_ok_step, assumption)
    (simp_all add: row_keys rows_ok_def rows_fit_def parents_le_def has_fun job_fits_def
       map_upd_where ids_upd_where list_all_upd_where)

lemma upd_tokens_ok [ok_intros]:
  "db_ok d \<Longrightarrow> (\<And>r. tok_token (f r) = tok_token r)
     \<Longrightarrow> db_ok (snd (upd_tokens P f d))"
  unfolding upd_tokens_def by (rule stmt_keeps, assumption, rule db_ok_step, assumption)
    (simp_all add: row_keys rows_ok_def rows_fit_def parents_le_def has_fun token_fits_def
       map_upd_where ids_upd_where list_all_upd_where)


section \<open>DELETE\<close>

definition del_files :: "(StorageFile \<Rightarrow> bool) \<Rightarrow> db \<Rightarrow> nat result \<times> db" where
  "del_files P d = (Inr (touched P (files d)), delete_files P d)"

definition del_storages :: "(Storage \<Rightarrow> bool) \<Rightarrow> db \<Rightarrow> nat result \<times> db" where
  "del_storages P d = (Inr (touched P (storages d)), delete_storages P d)"

definition del_storage_users :: "(StorageUser \<Rightarrow> bool) \<Rightarrow> db \<Rightarrow> nat result \<times> db" where
  "del_storage_users P d = (Inr (touched P (storage_users d)),
     d\<lparr>storage_users := filter (\<lambda>s. \<not> P s) (storage_users d)\<rparr>)"

lemma has_step:
  "has_storage (cascade_images d) = has_storage d" "has_storage (cascade_medias d) = has_storage d"
  "has_storage (cascade_files d) = has_storage d" "has_storage (cascade_storages d) = has_storage d"
  "has_file (cascade_images d) = has_file d" "has_file (cascade_medias d) = has_file d"
  "has_file (cascade_files d) = has_file d" "has_media (cascade_images d) = has_media d"
  "has_media (cascade_medias d) = has_media d" "has_image (cascade_images d) = has_image d"
  by (simp_all add: cascade_steps has_fun)

lemma tables_step [simp]:
  "files (cascade_images d) = files d" "files (cascade_medias d) = files d"
  "files (cascade_files d) = files d"
  "storage_users (cascade_images d) = storage_users d" "storage_users (cascade_medias d) = storage_users d"
  "storage_users (cascade_files d) = storage_users d"
  "downloads (cascade_images d) = downloads d" "downloads (cascade_medias d) = downloads d"
  "downloads (cascade_storages d) = downloads d"
  "medias (cascade_images d) = medias d" "medias (cascade_medias d) = medias d"
  "medias (cascade_storages d) = medias d"
  "jobs (cascade_images d) = jobs d" "jobs (cascade_medias d) = jobs d"
  "jobs (cascade_storages d) = jobs d"
  "images (cascade_images d) = images d" "images (cascade_files d) = images d"
  "images (cascade_storages d) = images d"
  "videos (cascade_images d) = videos d" "videos (cascade_files d) = videos d"
  "videos (cascade_storages d) = videos d"
  "documents (cascade_images d) = documents d" "documents (cascade_files d) = documents d"
  "documents (cascade_storages d) = documents d"
  "thumbs (cascade_images d) = thumbs d" "thumbs (cascade_files d) = thumbs d"
  "thumbs (cascade_storages d) = thumbs d"
  "sizeds (cascade_medias d) = sizeds d" "sizeds (cascade_files d) = sizeds d"
  "sizeds (cascade_storages d) = sizeds d"
  by (simp_all add: cascade_steps)

lemma filter_step:
  "files (cascade_storages d) = filter (\<lambda>f. has_storage d (sf_storage f)) (files d)"
  "storage_users (cascade_storages d) = filter (\<lambda>s. has_storage d (su_storage s)) (storage_users d)"
  "downloads (cascade_files d) = filter (\<lambda>r. has_file d (dl_file r)) (downloads d)"
  "medias (cascade_files d) = filter (\<lambda>m. has_file d (md_file m)) (medias d)"
  "jobs (cascade_files d)
     = filter (\<lambda>j. has_storage d (mj_storage j) \<and> has_file d (mj_file j)) (jobs d)"
  "images (cascade_medias d) = filter (\<lambda>i. has_media d (mi_media i)) (images d)"
  "videos (cascade_medias d) = filter (\<lambda>v. has_media d (mv_media v)) (videos d)"
  "documents (cascade_medias d) = filter (\<lambda>x. has_media d (mdoc_media x)) (documents d)"
  "thumbs (cascade_medias d)
     = filter (\<lambda>t. has_media d (th_media t) \<and> has_file d (th_file t)) (thumbs d)"
  "sizeds (cascade_images d)
     = filter (\<lambda>s. has_image d (ms_image s) \<and> has_file d (ms_file s)) (sizeds d)"
  by (simp_all add: cascade_steps)

text \<open>What the cascade leaves: old rows, with their parents among those left.\<close>

lemma in_cascade:
  "f \<in> set (files (cascade d)) \<Longrightarrow> f \<in> set (files d) \<and> has_storage (cascade d) (sf_storage f)"
  "su \<in> set (storage_users (cascade d)) \<Longrightarrow> su \<in> set (storage_users d) \<and> has_storage (cascade d) (su_storage su)"
  "r \<in> set (downloads (cascade d)) \<Longrightarrow> r \<in> set (downloads d) \<and> has_file (cascade d) (dl_file r)"
  "m \<in> set (medias (cascade d)) \<Longrightarrow> m \<in> set (medias d) \<and> has_file (cascade d) (md_file m)"
  "j \<in> set (jobs (cascade d)) \<Longrightarrow> j \<in> set (jobs d) \<and> has_storage (cascade d) (mj_storage j)
     \<and> has_file (cascade d) (mj_file j)"
  "i \<in> set (images (cascade d)) \<Longrightarrow> i \<in> set (images d) \<and> has_media (cascade d) (mi_media i)"
  "v \<in> set (videos (cascade d)) \<Longrightarrow> v \<in> set (videos d) \<and> has_media (cascade d) (mv_media v)"
  "x \<in> set (documents (cascade d)) \<Longrightarrow> x \<in> set (documents d) \<and> has_media (cascade d) (mdoc_media x)"
  "t \<in> set (thumbs (cascade d)) \<Longrightarrow> t \<in> set (thumbs d) \<and> has_media (cascade d) (th_media t)
     \<and> has_file (cascade d) (th_file t)"
  "z \<in> set (sizeds (cascade d)) \<Longrightarrow> z \<in> set (sizeds d) \<and> has_image (cascade d) (ms_image z)
     \<and> has_file (cascade d) (ms_file z)"
  by (simp_all add: cascade_def has_step filter_step)

text \<open>
  The cascade restores the foreign keys: it is enough that every row fitted a database with the same
  users and MIME types before rows of files and storages went away.
\<close>

lemma rows_ok_cascade:
  assumes ok: "rows_ok d" and U: "users d' = users d" "mimes d' = mimes d"
    and S: "list_all storage_fits (storages d')" and F: "set (files d') \<subseteq> set (files d)"
    and T: "tokens d' = tokens d" "storage_users d' = storage_users d" "downloads d' = downloads d"
      "medias d' = medias d" "images d' = images d" "videos d' = videos d" "documents d' = documents d"
      "thumbs d' = thumbs d" "sizeds d' = sizeds d" "jobs d' = jobs d"
  shows "rows_ok (cascade d')"
proof -
  have parents: "has_user (cascade d') = has_user d" "has_mime (cascade d') = has_mime d"
    by (simp_all add: has_fun U)
  show ?thesis
    unfolding rows_ok_def list_all_iff
  proof (intro conjI ballI)
    fix f assume "f \<in> set (files (cascade d'))"
    from in_cascade(1)[OF this] F ok show "file_fits (cascade d') f"
      by (auto simp: rows_ok_def list_all_iff file_fits_def parents dest: subsetD)
  qed (use ok S in \<open>auto dest!: in_cascade simp: T U parents rows_ok_def list_all_iff row_fits\<close>)
qed

lemma del_files_ok [ok_intros]: "db_ok d \<Longrightarrow> db_ok (snd (del_files P d))"
  unfolding del_files_def delete_files_def db_ok_def snd_conv
  by (intro conjI keys_ok_cascade rows_ok_cascade[of d])
    (simp_all add: keys_ok_def distinct_map_filter_key, auto simp: rows_ok_def)

lemma del_storages_ok [ok_intros]: "db_ok d \<Longrightarrow> db_ok (snd (del_storages P d))"
  unfolding del_storages_def delete_storages_def db_ok_def snd_conv
  by (intro conjI keys_ok_cascade rows_ok_cascade[of d])
    (simp_all add: keys_ok_def distinct_map_filter_key, auto simp: rows_ok_def list_all_iff)

lemma del_storage_users_ok [ok_intros]: "db_ok d \<Longrightarrow> db_ok (snd (del_storage_users P d))"
  by (simp add: del_storage_users_def db_ok_def keys_ok_def distinct_map_filter_key rows_ok_def
      list_all_iff row_fits has_fun)

end
