(* ===== verification/JsonText.thy ===== *)
theory JsonText
  imports Json "HOL-Library.List_Lexorder" "HOL-Library.Char_ord"
begin

text \<open>
  \<open>json.Marshal\<close> of a map from strings to strings: the keys in order, strings quoted as
  \<open>encoding/json\<close> does (HTML characters, control characters and U+2028/U+2029 escaped, bytes that are
  not UTF-8 replaced), and that the parser reads it back.
\<close>

section \<open>UTF-8\<close>

definition between :: "nat \<Rightarrow> nat \<Rightarrow> char \<Rightarrow> bool" where
  "between lo hi c \<longleftrightarrow> lo \<le> (of_char c :: nat) \<and> (of_char c :: nat) \<le> hi"

definition second_byte :: "nat \<Rightarrow> char \<Rightarrow> bool" where
  "second_byte n = (if n = 0xE0 then between 0xA0 0xBF else if n = 0xED then between 0x80 0x9F
     else if n = 0xF0 then between 0x90 0xBF else if n = 0xF4 then between 0x80 0x8F
     else between 0x80 0xBF)"

text \<open>
  How many bytes the character at the start takes when it is not ASCII; 1 when it is not UTF-8, as
  \<open>utf8.DecodeRuneInString\<close> says with \<open>RuneError\<close>.
\<close>

definition rune_size :: "string \<Rightarrow> nat" where
  "rune_size s = (case s of [] \<Rightarrow> 1
     | c # cs \<Rightarrow> (let n = of_char c :: nat;
           k = (if 0xC2 \<le> n \<and> n \<le> 0xDF then 2 else if 0xE0 \<le> n \<and> n \<le> 0xEF then 3
                else if 0xF0 \<le> n \<and> n \<le> 0xF4 then 4 else 1) in
         if k \<le> length s \<and> 1 < k \<and> second_byte n (hd cs)
            \<and> list_all (between 0x80 0xBF) (take (k - 1) cs) then k else 1))"

lemma rune_size_pos: "0 < rune_size s"
  by (simp add: rune_size_def Let_def split: list.split)

lemma rune_high:
  assumes "1 < rune_size s"
  shows "list_all (\<lambda>c. 128 \<le> (of_char c :: nat)) (take (rune_size s) s)"
proof (cases s)
  case Nil
  with assms show ?thesis by (simp add: rune_size_def)
next
  case (Cons c cs)
  with assms have "192 \<le> (of_char c :: nat)" "list_all (between 0x80 0xBF) (take (rune_size s - 1) cs)"
    by (auto simp: rune_size_def Let_def split: if_splits)
  moreover have "take (rune_size s) s = c # take (rune_size s - 1) cs"
    using assms Cons by (cases "rune_size s") simp_all
  ultimately show ?thesis by (auto simp: between_def list_all_iff)
qed

definition replacement :: string where
  "replacement = utf8 0xFFFD"

function ToValidUTF8 :: "string \<Rightarrow> string" where
  "ToValidUTF8 [] = []"
| "ToValidUTF8 (c # cs) = (if (of_char c :: nat) < 128 then c # ToValidUTF8 cs
     else (let k = rune_size (c # cs) in
       (if k = 1 then replacement else take k (c # cs)) @ ToValidUTF8 (drop k (c # cs))))"
  by pat_completeness auto
termination by (relation "measure length") (simp_all add: rune_size_pos)

section \<open>Quoting\<close>

definition hex_lower :: "nat \<Rightarrow> char" where
  "hex_lower n = char_of (if n < 10 then n + 48 else n + 87)"

definition escape_ascii :: "char \<Rightarrow> string" where
  "escape_ascii c = (let n = of_char c :: nat in
     if c = CHR 0x5C \<or> c = CHR 0x22 then [CHR 0x5C, c]
     else if n = 8 then [CHR 0x5C, CHR ''b''] else if n = 12 then [CHR 0x5C, CHR ''f'']
     else if n = 10 then [CHR 0x5C, CHR ''n''] else if n = 13 then [CHR 0x5C, CHR ''r'']
     else if n = 9 then [CHR 0x5C, CHR ''t'']
     else if n < 32 \<or> c = CHR ''<'' \<or> c = CHR ''>'' \<or> c = CHR ''&'' then
       CHR 0x5C # ''u00'' @ [hex_lower (n div 16), hex_lower (n mod 16)]
     else [c])"

definition line_separators :: "string list" where
  "line_separators = [[CHR 0xE2, CHR 0x80, CHR 0xA8], [CHR 0xE2, CHR 0x80, CHR 0xA9]]"

function json_chars :: "string \<Rightarrow> string" where
  "json_chars [] = []"
| "json_chars (c # cs) = (if (of_char c :: nat) < 128 then escape_ascii c @ json_chars cs
     else (let k = rune_size (c # cs); r = take k (c # cs) in
       (if k = 1 then CHR 0x5C # ''ufffd''
        else if r \<in> set line_separators then CHR 0x5C # ''u202'' @ [hex_lower (of_char (last r) mod 16)]
        else r) @ json_chars (drop k (c # cs))))"
  by pat_completeness auto
termination by (relation "measure length") (simp_all add: rune_size_pos)

definition json_quote :: "string \<Rightarrow> string" where
  "json_quote s = CHR 0x22 # json_chars s @ [CHR 0x22]"

fun json_pairs :: "(string \<times> string) list \<Rightarrow> string" where
  "json_pairs [] = []"
| "json_pairs [(k, v)] = json_quote k @ CHR '':'' # json_quote v"
| "json_pairs ((k, v) # kvs) = json_quote k @ CHR '':'' # json_quote v @ CHR '','' # json_pairs kvs"

definition marshal_pairs :: "(string \<times> string) list \<Rightarrow> string" where
  "marshal_pairs kvs = CHR ''{'' # json_pairs kvs @ [CHR ''}'']"

text \<open>\<open>json.Marshal\<close> of a map: the members in the order of their keys.\<close>

definition map_pairs :: "(string \<times> string) list \<Rightarrow> (string \<times> string) list" where
  "map_pairs kvs = map (\<lambda>k. (k, the (map_of (rev kvs) k))) (sort (remdups (map fst kvs)))"

definition MarshalMap :: "(string \<times> string) list \<Rightarrow> string" where
  "MarshalMap kvs = marshal_pairs (map_pairs kvs)"

section \<open>Reading back\<close>

lemma prepend_prepend: "prepend a (prepend b r) = prepend (a @ b) r"
  by (cases r) (auto simp: prepend_def)

lemma prepend_Some [simp]: "prepend a (Some (x, r)) = Some (a @ x, r)"
  by (simp add: prepend_def)

lemma hex_digit_lower: "n < 16 \<Longrightarrow> hex_digit (hex_lower n) = Some n"
  by (auto simp: hex_digit_def hex_lower_def Let_def)

lemma char_eqI: "(of_char c :: nat) = of_char d \<Longrightarrow> c = d"
  by simp

lemma control_chars:
  "(of_char c :: nat) = 8 \<Longrightarrow> c = CHR 0x08" "(of_char c :: nat) = 9 \<Longrightarrow> c = CHR 0x09"
  "(of_char c :: nat) = 10 \<Longrightarrow> c = CHR 0x0A" "(of_char c :: nat) = 12 \<Longrightarrow> c = CHR 0x0C"
  "(of_char c :: nat) = 13 \<Longrightarrow> c = CHR 0x0D"
  by (rule char_eqI, simp)+

lemma char_vals:
  "char_of (0xE2 :: nat) = CHR 0xE2" "char_of (0x80 :: nat) = CHR 0x80" "char_of (0xA8 :: nat) = CHR 0xA8"
  "char_of (0xA9 :: nat) = CHR 0xA9" "char_of (56 :: nat) = CHR ''8''" "char_of (57 :: nat) = CHR ''9''"
  by (rule char_eqI, simp)+

lemma hex_digit_0: "hex_digit (CHR ''0'') = Some 0"
  by (simp add: hex_digit_def)

lemma p_str_plain:
  "32 \<le> (of_char c :: nat) \<Longrightarrow> c \<noteq> CHR 0x22 \<Longrightarrow> c \<noteq> CHR 0x5C \<Longrightarrow> p_str (c # s) = prepend [c] (p_str s)"
  by simp

lemma p_str_high:
  "list_all (\<lambda>c. 128 \<le> (of_char c :: nat)) bs \<Longrightarrow> p_str (bs @ s) = prepend bs (p_str s)"
proof (induction bs)
  case Nil
  show ?case by (cases "p_str s") (auto simp: prepend_def)
next
  case (Cons b bs)
  then have "32 \<le> (of_char b :: nat)" "b \<noteq> CHR 0x22" "b \<noteq> CHR 0x5C" by auto
  with Cons show ?case by (simp only: append_Cons p_str_plain) (simp add: prepend_prepend)
qed

text \<open>An escape of four hexadecimal digits.\<close>

lemma p_str_u:
  assumes "hex_digit a = Some i" "hex_digit b = Some j" "hex_digit c = Some k" "hex_digit d = Some l"
    and "4096 * i + 256 * j + 16 * k + l < 0xD800 \<or> 0xE000 \<le> 4096 * i + 256 * j + 16 * k + l"
  shows "p_str (CHR 0x5C # CHR ''u'' # a # b # c # d # s)
    = prepend (utf8 (4096 * i + 256 * j + 16 * k + l)) (p_str s)"
proof -
  have h: "hex4 (a # b # c # d # s) = Some (4096 * i + 256 * j + 16 * k + l)"
    using assms(1-4) by (simp add: hex4_def)
  have "u_escape (a # b # c # d # s) = Some (4096 * i + 256 * j + 16 * k + l, 4)"
    unfolding u_escape_def h option.case Let_def using assms(5) by (intro if_not_P[THEN trans]) auto
  then show ?thesis by simp
qed

lemma p_str_escape_ascii:
  assumes "(of_char c :: nat) < 128"
  shows "p_str (escape_ascii c @ s) = prepend [c] (p_str s)"
proof (cases "\<exists>x y. escape_ascii c = CHR 0x5C # ''u00'' @ [x, y]")
  case True
  have esc: "escape_ascii c
      = CHR 0x5C # ''u00'' @ [hex_lower (of_char c div 16), hex_lower (of_char c mod 16)]"
    using True by (simp add: escape_ascii_def Let_def split: if_splits)
  have "byte (of_char c) = c" "(of_char c :: nat) div 16 < 16"
    using assms by (simp_all add: byte_def)
  then show ?thesis
    using assms p_str_u[of "CHR ''0''" 0 "CHR ''0''" 0 "hex_lower (of_char c div 16)" "of_char c div 16"
        "hex_lower (of_char c mod 16)" "of_char c mod 16" s]
    by (simp add: esc hex_digit_lower hex_digit_0 utf8_def del: p_str.simps)
next
  case False
  consider "escape_ascii c = [c]" "32 \<le> (of_char c :: nat)" "c \<noteq> CHR 0x22" "c \<noteq> CHR 0x5C"
    | "escape_ascii c = [CHR 0x5C, c]" "simple_escape c = Some c" "c \<noteq> CHR ''u''"
    | x where "escape_ascii c = [CHR 0x5C, x]" "simple_escape x = Some c" "x \<noteq> CHR ''u''"
  proof (cases "(of_char c :: nat) \<in> {8, 9, 10, 12, 13}")
    case True
    then have "c \<in> {CHR 0x08, CHR 0x09, CHR 0x0A, CHR 0x0C, CHR 0x0D}"
      by (blast dest: control_chars)
    then have "\<exists>x. escape_ascii c = [CHR 0x5C, x] \<and> simple_escape x = Some c \<and> x \<noteq> CHR ''u''"
      by (elim insertE emptyE) (simp_all add: escape_ascii_def simple_escape_def)
    with that(3) show thesis by blast
  next
    case False
    with \<open>\<nexists>x y. escape_ascii c = CHR 0x5C # ''u00'' @ [x, y]\<close> that(1,2) show thesis
      by (auto simp: escape_ascii_def simple_escape_def Let_def split: if_splits)
  qed
  then show ?thesis by cases simp_all
qed

lemma p_str_json_chars: "p_str (json_chars s @ CHR 0x22 # r) = Some (ToValidUTF8 s, r)"
proof (induction s rule: json_chars.induct)
  case 1
  show ?case by simp
next
  case (2 c cs)
  show ?case
  proof (cases "(of_char c :: nat) < 128")
    case True
    with 2(1) show ?thesis by (simp add: p_str_escape_ascii del: p_str.simps)
  next
    case False
    define k where "k = rune_size (c # cs)"
    note IH = 2(2)[OF False k_def refl]
    let ?r = "take k (c # cs)" and ?t = "json_chars (drop k (c # cs)) @ CHR 0x22 # r"
    have t: "p_str ?t = Some (ToValidUTF8 (drop k (c # cs)), r)" using IH .
    have ch: "json_chars (c # cs) @ CHR 0x22 # r
        = (if k = 1 then CHR 0x5C # ''ufffd''
           else if ?r \<in> set line_separators then CHR 0x5C # ''u202'' @ [hex_lower (of_char (last ?r) mod 16)]
           else ?r) @ ?t"
      using False by (simp add: k_def Let_def)
    have v: "ToValidUTF8 (c # cs) = (if k = 1 then replacement else ?r) @ ToValidUTF8 (drop k (c # cs))"
      using False by (simp add: k_def Let_def)
    consider "k = 1" | "1 < k" "?r \<in> set line_separators" | "1 < k" "?r \<notin> set line_separators"
      using rune_size_pos[of "c # cs"] unfolding k_def by linarith
    then show ?thesis
    proof cases
      case 1
      have "p_str ((CHR 0x5C # ''ufffd'') @ ?t) = prepend replacement (p_str ?t)"
        using p_str_u[of "CHR ''f''" 15 "CHR ''f''" 15 "CHR ''f''" 15 "CHR ''d''" 13 ?t]
        by (simp add: hex_digit_def replacement_def del: p_str.simps)
      then show ?thesis unfolding ch v if_P[OF 1] t prepend_Some .
    next
      case 2
      then have "p_str ((CHR 0x5C # ''u202'' @ [hex_lower (of_char (last ?r) mod 16)]) @ ?t)
          = prepend ?r (p_str ?t)"
        using p_str_u[of "CHR ''2''" 2 "CHR ''0''" 0 "CHR ''2''" 2 "CHR ''8''" 8 ?t]
          p_str_u[of "CHR ''2''" 2 "CHR ''0''" 0 "CHR ''2''" 2 "CHR ''9''" 9 ?t]
        by (auto simp: line_separators_def hex_digit_def hex_lower_def utf8_def byte_def char_vals simp del: p_str.simps)
      with 2 show ?thesis unfolding ch v by (simp only: t if_P if_not_P prepend_Some less_irrefl)
    next
      case 3
      then have "list_all (\<lambda>c. 128 \<le> (of_char c :: nat)) ?r" using rune_high[of "c # cs"] by (simp add: k_def)
      from p_str_high[OF this, of ?t] 3 show ?thesis unfolding ch v by (simp only: t if_not_P prepend_Some) simp
    qed
  qed
qed

lemma ws_plain: "\<not> is_ws c \<Longrightarrow> ws (c # s) = c # s"
  by simp

lemma not_ws: "\<not> is_ws (CHR 0x22)" "\<not> is_ws (CHR '':'')" "\<not> is_ws (CHR '','')" "\<not> is_ws (CHR ''{'')"
    "\<not> is_ws (CHR ''}'')"
  by (simp_all add: is_ws_def)

text \<open>The members of an object, up to its closing brace.\<close>

definition pair_member :: "string \<times> string \<Rightarrow> string \<times> string \<times> json" where
  "pair_member kv = (case kv of (k, v) \<Rightarrow> (ToValidUTF8 k, json_quote v, JStr (ToValidUTF8 v)))"

lemma p_value_quote: "p_value (Suc n) (json_quote v @ r) = Some (JStr (ToValidUTF8 v), r)"
  by (simp add: json_quote_def is_ws_def p_str_json_chars del: p_str.simps)

lemma p_member_first:
  assumes "c = CHR '','' \<or> c = CHR ''}''"
  shows "p_members (Suc (Suc n)) (json_quote k @ CHR '':'' # json_quote v @ c # r)
    = (if c = CHR ''}'' then Some ([pair_member (k, v)], r)
       else map_option (\<lambda>(ms, r). (pair_member (k, v) # ms, r)) (p_members (Suc n) r))"
proof -
  have k: "p_str (json_chars k @ CHR 0x22 # CHR '':'' # json_quote v @ c # r)
      = Some (ToValidUTF8 k, CHR '':'' # json_quote v @ c # r)"
    by (rule p_str_json_chars)
  have q: "ws (json_quote v @ c # r) = json_quote v @ c # r"
    by (simp add: json_quote_def is_ws_def)
  have c: "ws (c # r) = c # r" using assms by (auto simp: is_ws_def)
  have s: "ws (json_quote k @ t) = json_quote k @ t" "starts (CHR 0x22) (json_quote k @ t)"
    "tl (json_quote k @ t) = json_chars k @ CHR 0x22 # t" for t
    by (simp_all add: json_quote_def is_ws_def starts_def)
  have d: "ws (CHR '':'' # t) = CHR '':'' # t" "starts (CHR '':'') (CHR '':'' # t)" for t
    by (simp_all add: is_ws_def starts_def)
  have st: "starts a (b # t) \<longleftrightarrow> b = a" for a b t
    by (simp add: starts_def)
  show ?thesis
    using assms by (simp only: p_members.simps(2)[of "Suc n"] s d k list.sel q p_value_quote c st
        option.case prod.case Let_def not_True_eq_False if_False) (auto simp: pair_member_def)
qed

lemma p_members_pairs:
  "kvs \<noteq> [] \<Longrightarrow> length kvs < n
     \<Longrightarrow> p_members n (json_pairs kvs @ CHR ''}'' # r) = Some (map pair_member kvs, r)"
proof (induction kvs arbitrary: n rule: json_pairs.induct)
  case 1
  then show ?case by simp
next
  case (2 k v)
  then obtain m where "n = Suc (Suc m)" by (metis Suc_less_eq2 length_Cons not_less_zero old.nat.exhaust)
  with p_member_first[of "CHR ''}''" m k v r] show ?case by simp
next
  case (3 k v kv kvs)
  then obtain m where m: "n = Suc (Suc m)" "length (kv # kvs) < Suc m"
    by (metis Suc_less_eq2 length_Cons)
  with 3(1)[of "Suc m"] p_member_first[of "CHR '',''" m k v "json_pairs (kv # kvs) @ CHR ''}'' # r"]
  show ?case by simp
qed

lemma json_pairs_length: "length kvs \<le> length (json_pairs kvs)"
  by (induction kvs rule: json_pairs.induct) (simp_all add: json_quote_def)

lemma json_parse_pairs: "json_parse (marshal_pairs kvs) = Some (JObj (map pair_member kvs))"
proof (cases "kvs = []")
  case True
  then show ?thesis by (simp add: json_parse_def marshal_pairs_def is_ws_def starts_def eval_nat_numeral)
next
  case False
  let ?s = "json_pairs kvs @ [CHR ''}'']"
  have h: "ws ?s = ?s" "\<not> starts (CHR ''}'') ?s"
    using False by (cases kvs rule: json_pairs.cases; simp add: json_quote_def is_ws_def starts_def)+
  obtain n where n: "2 * length (marshal_pairs kvs) + 2 = Suc n" "length kvs < n"
    using json_pairs_length[of kvs] by (auto simp: marshal_pairs_def)
  from p_members_pairs[OF False n(2), of "[]"] have "p_members n ?s = Some (map pair_member kvs, [])" .
  then have "p_value (Suc n) (marshal_pairs kvs) = Some (JObj (map pair_member kvs), [])"
    using h by (simp add: marshal_pairs_def is_ws_def)
  then show ?thesis unfolding json_parse_def n(1) by (simp del: p_value.simps)
qed

end
