(* ===== verification/DataStorage.thy ===== *)
theory DataStorage
  imports World Tables
begin

text \<open>
  \<open>internal/data/storage.go\<close>, \<open>internal/data/storageuser.go\<close> and \<open>internal/data/user.go\<close>: storages
  with the total size of their live files, the access rows of a storage, and the public view of a
  user. A query that orders rows with equal keys leaves them in scan order here (PostgreSQL promises
  no order for them).
\<close>

section \<open>Paging\<close>

text \<open>The guard every listing starts with, and LIMIT/OFFSET.\<close>

definition clamp_limit :: "int \<Rightarrow> int" where
  "clamp_limit limit = (if limit \<le> 0 \<or> limit > 500 then 100 else limit)"

definition clamp_offset :: "int \<Rightarrow> int" where
  "clamp_offset offset = (if offset < 0 then 0 else offset)"

definition limit_offset :: "int \<Rightarrow> int \<Rightarrow> 'r list \<Rightarrow> 'r list" where
  "limit_offset limit offset rs = take (nat limit) (drop (nat offset) rs)"

lemma clamp_limit_range: "1 \<le> clamp_limit l" "clamp_limit l \<le> 500"
  by (simp_all add: clamp_limit_def)

lemma length_limit_offset:
  "length (limit_offset l o' rs) = min (nat l) (length rs - nat o')"
  by (simp add: limit_offset_def min.commute)

section \<open>Storages\<close>

definition nullString :: "string \<Rightarrow> string option" where
  "nullString s = (if s = [] then None else Some s)"

text \<open>The sum is a NUMERIC; the cast to bigint fails out of range.\<close>

definition storage_total :: "db \<Rightarrow> uuid \<Rightarrow> int" where
  "storage_total d i = sum_list (map sf_size
     (filter (\<lambda>f. sf_storage f = i \<and> \<not> sf_excluded f) (files d)))"

definition bigint :: "int \<Rightarrow> int result" where
  "bigint n = (if in_int64 n then Inr n else Inl (Err ''bigint out of range''))"

definition with_total :: "db \<Rightarrow> Storage \<Rightarrow> Storage" where
  "with_total d s = s\<lparr>st_total_size := storage_total d (st_id s)\<rparr>"

definition totals_ok :: "Storage list \<Rightarrow> bool" where
  "totals_ok ss = list_all (\<lambda>s. in_int64 (st_total_size s)) ss"

definition ListStorages :: "int \<Rightarrow> int \<Rightarrow> (Storage list \<times> nat) result m" where
  "ListStorages limit offset =
     (let limit = clamp_limit limit; offset = clamp_offset offset in
      try_bind (db_query (\<lambda>t d. Inr (length (storages d)))) (\<lambda>total.
      try_bind (db_query (\<lambda>t d.
          let rows = limit_offset limit offset (sort_key st_id (map (with_total d) (storages d)))
          in if totals_ok rows then Inr rows else Inl (Err ''bigint out of range''))) (\<lambda>rows.
      ret (Inr (rows, total)))))"

definition GetStorage :: "uuid \<Rightarrow> Storage result m" where
  "GetStorage i = db_query (\<lambda>t d. case find_by (\<lambda>s. st_id s = i) (storages d) of
       Inl e \<Rightarrow> Inl e
     | Inr s \<Rightarrow> (case bigint (storage_total d i) of Inl e \<Rightarrow> Inl e
                 | Inr n \<Rightarrow> Inr (s\<lparr>st_total_size := n\<rparr>)))"

definition InsertStorage :: "string \<Rightarrow> string \<Rightarrow> string \<Rightarrow> Storage result m" where
  "InsertStorage stType creds media = do {
     i \<leftarrow> new_uuid;
     try_bind (db_exec (\<lambda>t. ins_storage
       \<lparr>st_id = i, st_type = nullString stType, st_creds = creds, st_media_cfg = media,
        st_total_size = 0\<rparr>)) (\<lambda>_.
     GetStorage i)}"

definition UpdateStorage :: "uuid \<Rightarrow> string \<Rightarrow> string \<Rightarrow> string \<Rightarrow> Storage result m" where
  "UpdateStorage i stType creds media =
     (let mediaArg = (if length media > 0 \<and> media \<noteq> ''null'' then Some media else None) in
      try_bind (db_exec (\<lambda>t. upd_storages (\<lambda>s. st_id s = i)
        (\<lambda>s. s\<lparr>st_type := nullString stType, st_creds := creds,
               st_media_cfg := (case mediaArg of Some x \<Rightarrow> x | None \<Rightarrow> st_media_cfg s)\<rparr>))) (\<lambda>_.
      GetStorage i))"

definition DeleteStorage :: "uuid \<Rightarrow> unit result m" where
  "DeleteStorage i = try_bind (db_exec (\<lambda>t. del_storages (\<lambda>s. st_id s = i)))
     (\<lambda>n. ret (if n = 0 then Inl ErrNoRows else Inr ()))"

section \<open>Access rows\<close>

definition ListStorageUsers :: "uuid \<Rightarrow> StorageUser list result m" where
  "ListStorageUsers storageID = db_query (\<lambda>t d. Inr (sort_key su_created_at
     (filter (\<lambda>s. su_storage s = storageID) (storage_users d))))"

definition GetStorageUser :: "uuid \<Rightarrow> uuid \<Rightarrow> StorageUser result m" where
  "GetStorageUser storageID rowID = db_query (\<lambda>t d.
     find_by (\<lambda>s. su_storage s = storageID \<and> su_id s = rowID) (storage_users d))"

definition findStorageUserByPair :: "uuid \<Rightarrow> uuid \<Rightarrow> StorageUser result m" where
  "findStorageUserByPair storageID userID = db_query (\<lambda>t d.
     find_by (\<lambda>s. su_storage s = storageID \<and> su_user s = userID) (storage_users d))"

definition InsertStorageUser ::
    "uuid \<Rightarrow> uuid \<Rightarrow> bool \<Rightarrow> bool \<Rightarrow> uuid \<Rightarrow> StorageUser result m" where
  "InsertStorageUser storageID userID mayRead mayWrite actor = do {
     i \<leftarrow> new_uuid;
     try_bind (db_exec (\<lambda>t. ins_storage_user
       \<lparr>su_id = i, su_created_at = t, su_updated_at = Some t, su_may_write = mayWrite,
        su_may_read = mayRead, su_storage = storageID, su_user = userID,
        su_created_by = Some actor, su_updated_by = Some actor\<rparr>)) (\<lambda>_.
     findStorageUserByPair storageID userID)}"

definition UpdateStorageUser ::
    "uuid \<Rightarrow> uuid \<Rightarrow> bool option \<Rightarrow> bool option \<Rightarrow> uuid \<Rightarrow> StorageUser result m" where
  "UpdateStorageUser storageID rowID mayRead mayWrite actor =
     try_bind (GetStorageUser storageID rowID) (\<lambda>su.
       let su = (case mayRead of Some b \<Rightarrow> su\<lparr>su_may_read := b\<rparr> | None \<Rightarrow> su);
           su = (case mayWrite of Some b \<Rightarrow> su\<lparr>su_may_write := b\<rparr> | None \<Rightarrow> su)
       in try_bind (db_exec (\<lambda>t. upd_storage_users
            (\<lambda>s. su_storage s = storageID \<and> su_id s = rowID)
            (\<lambda>s. s\<lparr>su_may_read := su_may_read su, su_may_write := su_may_write su,
                   su_updated_at := Some t, su_updated_by := Some actor\<rparr>))) (\<lambda>_.
          GetStorageUser storageID rowID))"

definition DeleteStorageUser :: "uuid \<Rightarrow> uuid \<Rightarrow> unit result m" where
  "DeleteStorageUser storageID rowID =
     try_bind (db_exec (\<lambda>t. del_storage_users (\<lambda>s. su_storage s = storageID \<and> su_id s = rowID)))
       (\<lambda>n. ret (if n = 0 then Inl ErrNoRows else Inr ()))"

definition no_rows_false :: "bool result \<Rightarrow> bool result" where
  "no_rows_false r = (case r of
     Inl e \<Rightarrow> (if e = ErrNoRows then Inr False else Inl e) | Inr b \<Rightarrow> Inr b)"

definition access_row :: "(StorageUser \<Rightarrow> bool) \<Rightarrow> uuid \<Rightarrow> uuid \<Rightarrow> db \<Rightarrow> bool result" where
  "access_row may storageID userID d =
     (case find_by (\<lambda>s. su_storage s = storageID \<and> su_user s = userID) (storage_users d) of
        Inl e \<Rightarrow> Inl e | Inr s \<Rightarrow> Inr (may s))"

definition StorageUserMayWrite :: "uuid \<Rightarrow> uuid \<Rightarrow> bool result m" where
  "StorageUserMayWrite storageID userID = do {
     r \<leftarrow> db_query (\<lambda>t. access_row su_may_write storageID userID);
     ret (no_rows_false r)}"

definition StorageUserMayRead :: "uuid \<Rightarrow> uuid \<Rightarrow> bool result m" where
  "StorageUserMayRead storageID userID = do {
     r \<leftarrow> db_query (\<lambda>t. access_row su_may_read storageID userID);
     ret (no_rows_false r)}"

section \<open>The public view of a user\<close>

text \<open>A count whose query fails stays at zero.\<close>

definition count_or_zero :: "nat result \<Rightarrow> nat" where
  "count_or_zero r = (case r of Inl _ \<Rightarrow> 0 | Inr n \<Rightarrow> n)"

definition GetUserPublic :: "uuid \<Rightarrow> UserPublic result m" where
  "GetUserPublic i = try_bind (db_query (\<lambda>t d. find_by (\<lambda>u. u_id u = i) (users d))) (\<lambda>u. do {
     dl \<leftarrow> db_query (\<lambda>t d. Inr (touched (\<lambda>r. dl_owner r = Some i) (downloads d)));
     up \<leftarrow> db_query (\<lambda>t d. Inr (touched (\<lambda>f. sf_created_by_id f = Some i) (files d)));
     ret (Inr \<lparr>up_id = u_id u, up_username = u_username u, up_system = u_system u,
               up_admin = u_admin u, up_active = u_active u, up_registered = u_registered u,
               up_last_activity = u_last_activity u, up_downloads = count_or_zero dl,
               up_uploads = count_or_zero up\<rparr>)})"

section \<open>What reads and writes leave alone\<close>

text \<open>Reads change nothing but the schedule of faults.\<close>

definition reads :: "'a m \<Rightarrow> bool" where
  "reads m \<longleftrightarrow> (\<forall>w. \<exists>fs. snd (run m w) = w\<lparr>wfaults := fs\<rparr>)"

named_theorems read_intros "actions that only read"

lemma reads_return [read_intros]: "reads (ret x)"
proof -
  have "w = w\<lparr>wfaults := wfaults w\<rparr>" for w :: world by simp
  then show ?thesis unfolding reads_def by (metis run_state_return snd_conv)
qed

lemma reads_bind [read_intros]:
  assumes "reads m" and "\<And>x. reads (f x)"
  shows "reads (do { x \<leftarrow> m; f x })"
  unfolding reads_def
proof
  fix w
  obtain r w1 where m: "run m w = (r, w1)" by force
  then obtain fs where w1: "w1 = w\<lparr>wfaults := fs\<rparr>" using assms(1) by (metis reads_def snd_conv)
  obtain gs where "snd (run (f r) w1) = w1\<lparr>wfaults := gs\<rparr>" using assms(2) by (auto simp: reads_def)
  with m w1 show "\<exists>fs. snd (run (do { x \<leftarrow> m; f x }) w) = w\<lparr>wfaults := fs\<rparr>"
    by (auto intro: exI[of _ gs])
qed

lemma reads_try_bind [read_intros]:
  "reads m \<Longrightarrow> (\<And>x. reads (f x)) \<Longrightarrow> reads (try_bind m f)"
  by (auto simp: try_bind_def intro!: read_intros split: sum.splits)

lemma reads_query [read_intros]: "reads (db_query q)"
proof -
  have *: "\<exists>fs. snd (run (db_query q) w) = w\<lparr>wfaults := fs\<rparr>" for w
    by (cases "wfaults w") (auto simp: db_query_def next_fault_def split: option.splits
        intro: exI[of _ "wfaults w"])
  then show ?thesis by (simp add: reads_def)
qed

lemma reads_if [read_intros]: "reads f \<Longrightarrow> reads g \<Longrightarrow> reads (if c then f else g)"
  by simp

lemma reads_sum [read_intros]:
  "(\<And>e. reads (f e)) \<Longrightarrow> (\<And>x. reads (g x)) \<Longrightarrow> reads (case_sum f g r)"
  by (cases r) simp_all

lemma reads_option [read_intros]: "reads f \<Longrightarrow> (\<And>x. reads (g x)) \<Longrightarrow> reads (case_option f g r)"
  by (cases r) simp_all

lemma reads_prod [read_intros]: "(\<And>a b. reads (f a b)) \<Longrightarrow> reads (case_prod f p)"
  by (cases p) simp

lemma reads_let [read_intros]: "(\<And>x. reads (f x)) \<Longrightarrow> reads (let x = v in f x)"
  by (simp add: Let_def)

lemma reads_db: "reads m \<Longrightarrow> run m w = (r, w') \<Longrightarrow> wdb w' = wdb w"
  by (metis reads_def select_convs(1) snd_conv surjective update_convs(7))

lemma reads_keeps: "reads m \<Longrightarrow> keeps_all (on_db P) m"
  unfolding keeps_all_def on_db_def by (metis prod.collapse reads_db)

lemma data_reads [read_intros]:
  "reads (ListStorages l k)" "reads (GetStorage i)" "reads (ListStorageUsers i)"
  "reads (GetStorageUser i j)" "reads (findStorageUserByPair i j)"
  "reads (StorageUserMayWrite i j)" "reads (StorageUserMayRead i j)" "reads (GetUserPublic i)"
  unfolding ListStorages_def GetStorage_def ListStorageUsers_def GetStorageUser_def
    findStorageUserByPair_def StorageUserMayWrite_def StorageUserMayRead_def GetUserPublic_def Let_def
  by (intro read_intros)+

text \<open>Every operation keeps the integrity of the database.\<close>

lemma storage_ops_ok [keeps]:
  "keeps_all (on_db db_ok) (InsertStorage a b c)" "keeps_all (on_db db_ok) (UpdateStorage i a b c)"
  "keeps_all (on_db db_ok) (DeleteStorage i)"
  "keeps_all (on_db db_ok) (InsertStorageUser i j r w act)"
  "keeps_all (on_db db_ok) (UpdateStorageUser i j r' w' act)"
  "keeps_all (on_db db_ok) (DeleteStorageUser i j)"
  unfolding InsertStorage_def UpdateStorage_def DeleteStorage_def InsertStorageUser_def
    UpdateStorageUser_def DeleteStorageUser_def Let_def
  by (intro keeps keeps_db_exec reads_keeps data_reads ok_intros; simp)+

end
