(* ===== verification/DataFiles.thy ===== *)
theory DataFiles
  imports DataStorage
begin

text \<open>
  \<open>internal/data/files.go\<close>: the files of a storage, who may see them, and the download links.
  Visibility is decided twice in the code, by a WHERE clause when files are listed and by
  \<open>fileVisible\<close> when one file is read; both are modelled as they stand.
\<close>

section \<open>MIME types by extension\<close>

text \<open>
  PostgreSQL's LIKE: percent for any sequence, underscore for one character, backslash to escape.
\<close>

function like :: "string \<Rightarrow> string \<Rightarrow> bool" where
  "like [] s = (s = [])"
| "like (p # ps) s = (if p = CHR ''%'' then like ps s \<or> (if s = [] then False else like (p # ps) (tl s))
     else if s = [] then False
     else if p = CHR 0x5C then (if ps = [] then False else hd ps = hd s \<and> like (tl ps) (tl s))
     else (p = CHR ''_'' \<or> p = hd s) \<and> like ps (tl s))"
  by pat_completeness auto
termination
  by (relation "measure (\<lambda>(p, s). length p + length s)") (auto simp: neq_Nil_conv)

definition FindMimeByExtension :: "string \<Rightarrow> MimeType result m" where
  "FindMimeByExtension ext =
     (let ext = TrimPrefix (ToLower (TrimSpace ext)) ''.'' in
      if ext = [] then ret (Inl ErrNoRows)
      else (let pat = ''%'' @ ext @ ''%'' in
        db_query (\<lambda>t d. find_by (\<lambda>r. case mt_exts r of None \<Rightarrow> False
          | Some e \<Rightarrow> like pat (ToLower e)) (mimes d))))"

section \<open>Visibility\<close>

definition system_of :: "db \<Rightarrow> uuid \<Rightarrow> string result" where
  "system_of d i = (case find_by (\<lambda>u. u_id u = i) (users d) of
     Inl e \<Rightarrow> Inl e | Inr u \<Rightarrow> Inr (u_system u))"

text \<open>NULL when there is no such user, or no owner.\<close>

definition sql_system :: "db \<Rightarrow> uuid option \<Rightarrow> string option" where
  "sql_system d i = (case i of None \<Rightarrow> None
     | Some j \<Rightarrow> (case system_of d j of Inl _ \<Rightarrow> None | Inr s \<Rightarrow> Some s))"

text \<open>The WHERE clause of the listings; \<open>IS DISTINCT FROM\<close> compares NULL as a value.\<close>

definition sql_visible :: "db \<Rightarrow> uuid \<Rightarrow> StorageFile \<Rightarrow> bool" where
  "sql_visible d userID f \<longleftrightarrow> sf_visibility f = ''PUBLIC''
     \<or> (sf_visibility f = ''SYSTEM'' \<and> sql_system d (sf_owner_id f) \<noteq> sql_system d (Some userID))
     \<or> (sf_visibility f = ''USER'' \<and> sf_owner_id f = Some userID)"

text \<open>A scalar query whose error the code drops leaves the zero value.\<close>

definition or_empty :: "string result \<Rightarrow> string" where
  "or_empty r = (case r of Inl _ \<Rightarrow> [] | Inr s \<Rightarrow> s)"

definition or_false :: "bool result \<Rightarrow> bool" where
  "or_false r = (case r of Inl _ \<Rightarrow> False | Inr b \<Rightarrow> b)"

definition fileVisible :: "StorageFile \<Rightarrow> bool \<Rightarrow> uuid \<Rightarrow> bool m" where
  "fileVisible f admin userID =
     (if admin then ret True else do {
        r \<leftarrow> StorageUserMayRead (sf_storage f) userID;
        if \<not> or_false r then ret False
        else if sf_visibility f = ''PUBLIC'' then ret True
        else if sf_visibility f = ''USER'' then ret (sf_owner_id f = Some userID)
        else if sf_visibility f = ''SYSTEM'' then do {
          usys \<leftarrow> db_query (\<lambda>t d. system_of d userID);
          (case sf_owner_id f of
             None \<Rightarrow> ret False
           | Some o' \<Rightarrow> do {
               osys \<leftarrow> db_query (\<lambda>t d. system_of d o');
               ret (or_empty usys \<noteq> or_empty osys)})}
        else ret False})"

section \<open>Reading files\<close>

definition ok_opt :: "'a result \<Rightarrow> 'a option" where
  "ok_opt r = (case r of Inl _ \<Rightarrow> None | Inr x \<Rightarrow> Some x)"

definition set_owner :: "StorageFile \<Rightarrow> StorageFile m" where
  "set_owner f = (case sf_owner_id f of
     None \<Rightarrow> ret f
   | Some o' \<Rightarrow> do {
       up \<leftarrow> GetUserPublic o';
       ret (case up of Inr p \<Rightarrow> f\<lparr>sf_owner := Some p\<rparr> | Inl _ \<Rightarrow> f)})"

definition set_type :: "StorageFile \<Rightarrow> StorageFile m" where
  "set_type f = (case sf_type_id f of
     None \<Rightarrow> ret f
   | Some i \<Rightarrow> do {
       mt \<leftarrow> db_query (\<lambda>t d. find_by (\<lambda>r. mt_id r = i) (mimes d));
       ret (case mt of Inr r \<Rightarrow> f\<lparr>sf_type := Some r\<rparr> | Inl _ \<Rightarrow> f)})"

definition enrichFile :: "StorageFile \<Rightarrow> StorageFile result m" where
  "enrichFile f = do {
     f \<leftarrow> set_owner f;
     f \<leftarrow> set_type f;
     let f = (case sf_created_by_id f of Some u \<Rightarrow> f\<lparr>sf_created_by := Some u\<rparr> | None \<Rightarrow> f);
     let f = (case sf_updated_by_id f of Some u \<Rightarrow> f\<lparr>sf_updated_by := Some u\<rparr> | None \<Rightarrow> f);
     ret (Inr f)}"

fun enrich_all :: "StorageFile list \<Rightarrow> StorageFile list \<Rightarrow> StorageFile list result m" where
  "enrich_all [] out = ret (Inr out)"
| "enrich_all (f # fs) out = try_bind (enrichFile f) (\<lambda>ef. enrich_all fs (out @ [ef]))"

definition file_rows :: "db \<Rightarrow> uuid \<Rightarrow> bool \<Rightarrow> bool \<Rightarrow> bool \<Rightarrow> uuid \<Rightarrow> StorageFile list" where
  "file_rows d storageID excluded admin mayRead userID =
     filter (\<lambda>f. sf_storage f = storageID \<and> sf_excluded f = excluded
       \<and> (admin \<or> (mayRead \<and> sql_visible d userID f))) (files d)"

definition ListFiles ::
    "uuid \<Rightarrow> bool \<Rightarrow> bool \<Rightarrow> uuid \<Rightarrow> int \<Rightarrow> int \<Rightarrow> (StorageFile list \<times> nat) result m" where
  "ListFiles storageID excluded admin userID limit offset =
     (let limit = clamp_limit limit; offset = clamp_offset offset in do {
      mr \<leftarrow> StorageUserMayRead storageID userID;
      let mayRead = or_false mr;
      try_bind (db_query (\<lambda>t d. Inr (length (file_rows d storageID excluded admin mayRead userID))))
        (\<lambda>total.
      try_bind (db_query (\<lambda>t d. Inr (limit_offset limit offset (sort_key (\<lambda>f. - sf_created_at f)
          (file_rows d storageID excluded admin mayRead userID))))) (\<lambda>raw.
      try_bind (enrich_all raw []) (\<lambda>out. ret (Inr (out, total)))))})"

definition loadFileRow :: "uuid \<Rightarrow> uuid \<Rightarrow> bool \<Rightarrow> StorageFile result m" where
  "loadFileRow storageID fileID excluded =
     try_bind (db_query (\<lambda>t d. find_by (\<lambda>f. sf_storage f = storageID \<and> sf_id f = fileID
       \<and> sf_excluded f = excluded) (files d))) enrichFile"

definition GetFile :: "uuid \<Rightarrow> uuid \<Rightarrow> bool \<Rightarrow> bool \<Rightarrow> uuid \<Rightarrow> StorageFile result m" where
  "GetFile storageID fileID excluded admin userID =
     try_bind (loadFileRow storageID fileID excluded) (\<lambda>f. do {
       v \<leftarrow> fileVisible f admin userID;
       ret (if v then Inr f else Inl ErrNoRows)})"

section \<open>Writing files\<close>

definition jsonOrEmpty :: "string \<Rightarrow> string" where
  "jsonOrEmpty j = (if j = [] then ''{}'' else j)"

text \<open>What a stored row has in the fields the database does not keep.\<close>

definition bare :: "StorageFile \<Rightarrow> StorageFile" where
  "bare f = f\<lparr>sf_owner := None, sf_type := None, sf_created_by := None, sf_updated_by := None\<rparr>"

definition new_file_row :: "int \<Rightarrow> StorageFile \<Rightarrow> StorageFile" where
  "new_file_row t f = bare (f\<lparr>sf_created_at := t, sf_updated_at := Some t,
     sf_exif := jsonOrEmpty (sf_exif f), sf_custom := jsonOrEmpty (sf_custom f)\<rparr>)"

definition InsertFile :: "StorageFile \<Rightarrow> unit result m" where
  "InsertFile f = db_exec (\<lambda>t. ins_file (new_file_row t f))"

definition UpdateFileMeta :: "uuid \<Rightarrow> uuid \<Rightarrow> string option \<Rightarrow> string option \<Rightarrow> string
    \<Rightarrow> string option \<Rightarrow> uuid \<Rightarrow> unit result m" where
  "UpdateFileMeta storageID fileID name visibility customMeta virtualPath actor =
     try_bind (loadFileRow storageID fileID False) (\<lambda>f.
       let f = (case name of Some s \<Rightarrow> f\<lparr>sf_name := Some s\<rparr> | None \<Rightarrow> f);
           f = (case visibility of Some s \<Rightarrow> f\<lparr>sf_visibility := s\<rparr> | None \<Rightarrow> f);
           f = (if length customMeta > 0 then f\<lparr>sf_custom := customMeta\<rparr> else f);
           f = (case virtualPath of Some s \<Rightarrow> f\<lparr>sf_virt_path := Some s\<rparr> | None \<Rightarrow> f)
       in try_bind (db_exec (\<lambda>t. upd_files
            (\<lambda>r. sf_storage r = storageID \<and> sf_id r = fileID \<and> \<not> sf_excluded r)
            (\<lambda>r. r\<lparr>sf_name := sf_name f, sf_visibility := sf_visibility f,
                   sf_custom := jsonOrEmpty (sf_custom f), sf_virt_path := sf_virt_path f,
                   sf_updated_at := Some t, sf_updated_by_id := Some actor\<rparr>)))
          (\<lambda>_. ret (Inr ())))"

definition SetFileExcluded :: "uuid \<Rightarrow> uuid \<Rightarrow> bool \<Rightarrow> uuid \<Rightarrow> unit result m" where
  "SetFileExcluded storageID fileID excluded actor =
     try_bind (db_exec (\<lambda>t. upd_files
       (\<lambda>r. sf_storage r = storageID \<and> sf_id r = fileID \<and> sf_excluded r = (\<not> excluded))
       (\<lambda>r. r\<lparr>sf_excluded := excluded, sf_updated_at := Some t, sf_updated_by_id := Some actor\<rparr>)))
       (\<lambda>n. ret (if n = 0 then Inl ErrNoRows else Inr ()))"

text \<open>\<open>NULLIF($6,'')\<close> and the null helpers turn empty strings into NULL.\<close>

definition UpdateFilePathsAndStatus :: "uuid \<Rightarrow> string \<Rightarrow> int \<Rightarrow> string \<Rightarrow> string \<Rightarrow> string
    \<Rightarrow> uuid option \<Rightarrow> unit result m" where
  "UpdateFilePathsAndStatus fileID status size' realPath virtualPath hash mimeID =
     try_bind (db_exec (\<lambda>t. upd_files (\<lambda>r. sf_id r = fileID)
       (\<lambda>r. r\<lparr>sf_status := status, sf_size := size', sf_real_path := nullString realPath,
              sf_virt_path := nullString virtualPath, sf_hash := nullString hash,
              sf_type_id := mimeID, sf_updated_at := Some t\<rparr>)))
       (\<lambda>_. ret (Inr ()))"

definition DeleteFailedUploadingFile :: "uuid \<Rightarrow> uuid \<Rightarrow> unit result m" where
  "DeleteFailedUploadingFile storageID fileID =
     try_bind (db_exec (\<lambda>t. del_files
       (\<lambda>r. sf_storage r = storageID \<and> sf_id r = fileID \<and> sf_status r = ''UPLOADING'')))
       (\<lambda>n. ret (if n = 0 then Inl ErrNoRows else Inr ()))"

definition PermaDeleteFile :: "uuid \<Rightarrow> uuid \<Rightarrow> unit result m" where
  "PermaDeleteFile storageID fileID =
     try_bind (db_exec (\<lambda>t. del_files
       (\<lambda>r. sf_storage r = storageID \<and> sf_id r = fileID \<and> sf_excluded r)))
       (\<lambda>n. ret (if n = 0 then Inl ErrNoRows else Inr ()))"

section \<open>Download links\<close>

text \<open>The caller's row gets an id when it has none; the other fields of the caller's row stay.\<close>

definition InsertDownload :: "FileDownload \<Rightarrow> FileDownload result m" where
  "InsertDownload row = do {
     i \<leftarrow> (if dl_id row = 0 then new_uuid else ret (dl_id row));
     let row = row\<lparr>dl_id := i\<rparr>;
     try_bind (db_exec (\<lambda>t. ins_download (row\<lparr>dl_created_at := t\<rparr>))) (\<lambda>_. ret (Inr row))}"

definition UpdateDownloadURL :: "uuid \<Rightarrow> string \<Rightarrow> unit result m" where
  "UpdateDownloadURL i url =
     try_bind (db_exec (\<lambda>t. upd_downloads (\<lambda>r. dl_id r = i) (\<lambda>r. r\<lparr>dl_url := Some url\<rparr>)))
       (\<lambda>_. ret (Inr ()))"

definition GetValidDownload :: "uuid \<Rightarrow> uuid \<Rightarrow> FileDownload result m" where
  "GetValidDownload i owner = db_query (\<lambda>t d.
     find_by (\<lambda>r. dl_id r = i \<and> dl_owner r = Some owner \<and> dl_expires_at r > t) (downloads d))"

definition GetDownloadByID :: "uuid \<Rightarrow> FileDownload result m" where
  "GetDownloadByID i = db_query (\<lambda>t d.
     find_by (\<lambda>r. dl_id r = i \<and> dl_expires_at r > t) (downloads d))"

section \<open>Frames and invariants\<close>

lemma enrich_all_reads [read_intros]: "reads (enrichFile f)" "reads (enrich_all fs out)"
proof -
  show e: "reads (enrichFile f)" for f
    unfolding enrichFile_def set_owner_def set_type_def Let_def by (intro read_intros)+
  show "reads (enrich_all fs out)"
    by (induction fs arbitrary: out) (simp_all add: read_intros e)
qed

lemma file_reads [read_intros]:
  "reads (FindMimeByExtension e)" "reads (fileVisible f a u)" "reads (ListFiles s x a u l k)"
  "reads (loadFileRow s i x)" "reads (GetFile s i x a u)" "reads (GetValidDownload i u)"
  "reads (GetDownloadByID i)"
  unfolding FindMimeByExtension_def fileVisible_def ListFiles_def loadFileRow_def GetFile_def
    GetValidDownload_def GetDownloadByID_def Let_def
  by (intro read_intros)+

lemma file_ops_ok [keeps]:
  "keeps_all (on_db db_ok) (InsertFile f)"
  "keeps_all (on_db db_ok) (UpdateFileMeta s i n v c p act)"
  "keeps_all (on_db db_ok) (SetFileExcluded s i x act)"
  "keeps_all (on_db db_ok) (UpdateFilePathsAndStatus i st z rp vp h mt)"
  "keeps_all (on_db db_ok) (DeleteFailedUploadingFile s i)"
  "keeps_all (on_db db_ok) (PermaDeleteFile s i)"
  "keeps_all (on_db db_ok) (InsertDownload r)" "keeps_all (on_db db_ok) (UpdateDownloadURL i url)"
  unfolding InsertFile_def UpdateFileMeta_def SetFileExcluded_def UpdateFilePathsAndStatus_def
    DeleteFailedUploadingFile_def PermaDeleteFile_def InsertDownload_def UpdateDownloadURL_def Let_def
  by (intro keeps keeps_db_exec reads_keeps file_reads ok_intros; simp)+

end
