(* ===== verification/DataJobs.thy ===== *)
theory DataJobs
  imports DataFiles
begin

text \<open>
  \<open>internal/data/media_jobs.go\<close>: the queue of media jobs in PostgreSQL. A claim is one statement that
  locks a row (\<open>FOR UPDATE SKIP LOCKED\<close>), so it is one atomic step here. The queue's contract is the
  locale \<open>job_queue\<close>, which the worker pool relies on; this theory provides it.
\<close>

section \<open>Operations\<close>

definition enqueue_stmt :: "uuid \<Rightarrow> uuid \<Rightarrow> uuid \<Rightarrow> int \<Rightarrow> db \<Rightarrow> unit result \<times> db" where
  "enqueue_stmt i storageID fileID t d =
     (if \<exists>j\<in>set (jobs d). mj_file j = fileID then (Inr (), d)
      else ins_job \<lparr>mj_id = i, mj_storage = storageID, mj_file = fileID, mj_status = ''pending'',
        mj_attempts = 0, mj_last_error = None, mj_created_at = t, mj_updated_at = t\<rparr> d)"

definition EnqueueMediaProcessing :: "uuid \<Rightarrow> uuid \<Rightarrow> unit result m" where
  "EnqueueMediaProcessing storageID storageFileID = do {
     i \<leftarrow> new_uuid;
     db_exec (enqueue_stmt i storageID storageFileID)}"

definition pending :: "MediaJob \<Rightarrow> bool" where
  "pending j \<longleftrightarrow> mj_status j = ''pending''"

definition claimed :: "int \<Rightarrow> MediaJob \<Rightarrow> MediaJob" where
  "claimed t j = j\<lparr>mj_status := ''processing'', mj_updated_at := t, mj_attempts := mj_attempts j + 1\<rparr>"

text \<open>The oldest pending job, if there is one.\<close>

definition next_pending :: "db \<Rightarrow> MediaJob option" where
  "next_pending d = (case sort_key mj_created_at (filter pending (jobs d)) of [] \<Rightarrow> None | j # _ \<Rightarrow> Some j)"

definition claim_stmt :: "int \<Rightarrow> db \<Rightarrow> MediaJob result \<times> db" where
  "claim_stmt t d = (case next_pending d of
     None \<Rightarrow> (Inl ErrNoRows, d)
   | Some j \<Rightarrow> (case upd_jobs (\<lambda>r. mj_id r = mj_id j) (claimed t) d of
       (Inl e, d') \<Rightarrow> (Inl e, d') | (Inr _, d') \<Rightarrow> (Inr (claimed t j), d')))"

definition ClaimMediaJob :: "MediaJob option result m" where
  "ClaimMediaJob = do {
     r \<leftarrow> db_exec claim_stmt;
     ret (case r of Inl e \<Rightarrow> (if e = ErrNoRows then Inr None else Inl e) | Inr j \<Rightarrow> Inr (Some j))}"

definition complete_stmt :: "uuid \<Rightarrow> int \<Rightarrow> db \<Rightarrow> nat result \<times> db" where
  "complete_stmt jobID t = upd_jobs (\<lambda>r. mj_id r = jobID)
     (\<lambda>r. r\<lparr>mj_status := ''done'', mj_last_error := None, mj_updated_at := t\<rparr>)"

definition CompleteMediaJob :: "uuid \<Rightarrow> unit result m" where
  "CompleteMediaJob jobID = try_bind (db_exec (complete_stmt jobID)) (\<lambda>_. ret (Inr ()))"

definition fail_stmt :: "uuid \<Rightarrow> string \<Rightarrow> int \<Rightarrow> db \<Rightarrow> nat result \<times> db" where
  "fail_stmt jobID msg t = upd_jobs (\<lambda>r. mj_id r = jobID)
     (\<lambda>r. r\<lparr>mj_status := ''failed'', mj_last_error := Some msg, mj_updated_at := t\<rparr>)"

definition FailMediaJob :: "uuid \<Rightarrow> string \<Rightarrow> unit result m" where
  "FailMediaJob jobID msg =
     (let msg = (if length msg > 8000 then take 8000 msg else msg) in
      try_bind (db_exec (fail_stmt jobID msg)) (\<lambda>_. ret (Inr ())))"

section \<open>The statements on a well-formed database\<close>

lemma job_fits_status:
  "job_fits d r \<Longrightarrow> fits 32 s \<Longrightarrow> mj_storage r' = mj_storage r \<Longrightarrow> mj_file r' = mj_file r
     \<Longrightarrow> mj_status r' = s \<Longrightarrow> job_fits d r'"
  by (simp add: job_fits_def)

lemma status_fits [simp]: "fits 32 ''pending''" "fits 32 ''processing''" "fits 32 ''done''" "fits 32 ''failed''"
  by (simp_all add: fits_def char_length_def)

text \<open>A status change of a stored job always fits the schema.\<close>

lemma upd_jobs_status:
  assumes "db_ok d" and "\<And>r. fits 32 (mj_status (f r))"
    and "\<And>r. mj_storage (f r) = mj_storage r" and "\<And>r. mj_file (f r) = mj_file r"
  shows "upd_jobs P f d = (Inr (touched P (jobs d)), d\<lparr>jobs := upd_where P f (jobs d)\<rparr>)"
proof -
  have "list_all (\<lambda>r. P r \<longrightarrow> job_fits d (f r)) (jobs d)"
    using assms by (auto simp: db_ok_def rows_ok_def list_all_iff job_fits_def)
  then show ?thesis by (simp add: upd_jobs_def)
qed

lemma next_pending_Some:
  assumes "next_pending d = Some j"
  shows "j \<in> set (jobs d)" "pending j"
    "\<forall>r\<in>set (jobs d). pending r \<longrightarrow> mj_created_at j \<le> mj_created_at r"
proof -
  let ?rs = "sort_key mj_created_at (filter pending (jobs d))"
  from assms obtain rest where rs: "?rs = j # rest"
    by (auto simp: next_pending_def split: list.splits)
  then have "j \<in> set ?rs" by simp
  then show "j \<in> set (jobs d)" "pending j" by simp_all
  have "sorted (map mj_created_at ?rs)" by simp
  with rs have "\<forall>r\<in>set ?rs. mj_created_at j \<le> mj_created_at r"
    by (metis list.set_intros(1) list.simps(9) order_refl set_ConsD sorted_simps(2) image_eqI set_map)
  then show "\<forall>r\<in>set (jobs d). pending r \<longrightarrow> mj_created_at j \<le> mj_created_at r" by simp
qed

lemma next_pending_None: "next_pending d = None \<longleftrightarrow> (\<forall>r\<in>set (jobs d). \<not> pending r)"
proof -
  have "next_pending d = None \<longleftrightarrow> sort_key mj_created_at (filter pending (jobs d)) = []"
    by (simp add: next_pending_def split: list.splits)
  also have "\<dots> \<longleftrightarrow> filter pending (jobs d) = []"
    by (metis length_0_conv length_sort)
  finally show ?thesis by (simp add: filter_empty_conv)
qed

lemma claim_stmt_run:
  "db_ok d \<Longrightarrow> claim_stmt t d = (case next_pending d of None \<Rightarrow> (Inl ErrNoRows, d)
     | Some j \<Rightarrow> (Inr (claimed t j), d\<lparr>jobs := upd_where (\<lambda>r. mj_id r = mj_id j) (claimed t) (jobs d)\<rparr>))"
  by (simp add: claim_stmt_def upd_jobs_status claimed_def split: option.splits)

lemma complete_stmt_run:
  "db_ok d \<Longrightarrow> complete_stmt i t d = (Inr (touched (\<lambda>r. mj_id r = i) (jobs d)),
     d\<lparr>jobs := upd_where (\<lambda>r. mj_id r = i)
       (\<lambda>r. r\<lparr>mj_status := ''done'', mj_last_error := None, mj_updated_at := t\<rparr>) (jobs d)\<rparr>)"
  by (simp add: complete_stmt_def upd_jobs_status)

lemma fail_stmt_run:
  "db_ok d \<Longrightarrow> fail_stmt i msg t d = (Inr (touched (\<lambda>r. mj_id r = i) (jobs d)),
     d\<lparr>jobs := upd_where (\<lambda>r. mj_id r = i)
       (\<lambda>r. r\<lparr>mj_status := ''failed'', mj_last_error := Some msg, mj_updated_at := t\<rparr>) (jobs d)\<rparr>)"
  by (simp add: fail_stmt_def upd_jobs_status)

lemma job_stmts_ok [ok_intros]:
  "db_ok d \<Longrightarrow> db_ok (snd (enqueue_stmt i s f t d))" "db_ok d \<Longrightarrow> db_ok (snd (claim_stmt t d))"
  "db_ok d \<Longrightarrow> db_ok (snd (complete_stmt i t d))" "db_ok d \<Longrightarrow> db_ok (snd (fail_stmt i msg t d))"
proof -
  show "db_ok d \<Longrightarrow> db_ok (snd (enqueue_stmt i s f t d))"
    by (simp add: enqueue_stmt_def ins_job_ok)
  show "db_ok d \<Longrightarrow> db_ok (snd (claim_stmt t d))"
    using upd_jobs_ok[of d "claimed t"]
    by (auto simp: claim_stmt_def claimed_def split: option.splits prod.splits sum.splits) 
      (metis snd_conv)+
  show "db_ok d \<Longrightarrow> db_ok (snd (complete_stmt i t d))" "db_ok d \<Longrightarrow> db_ok (snd (fail_stmt i msg t d))"
    by (simp_all add: complete_stmt_def fail_stmt_def upd_jobs_ok)
qed

lemma job_ops_ok [keeps]:
  "keeps_all (on_db db_ok) (EnqueueMediaProcessing s f)" "keeps_all (on_db db_ok) ClaimMediaJob"
  "keeps_all (on_db db_ok) (CompleteMediaJob i)" "keeps_all (on_db db_ok) (FailMediaJob i msg)"
  unfolding EnqueueMediaProcessing_def ClaimMediaJob_def CompleteMediaJob_def FailMediaJob_def Let_def
  by (intro keeps keeps_db_exec ok_intros; simp)+

section \<open>The contract of the queue\<close>

text \<open>
  What a client may rely on: a claim hands out a waiting job and takes it off the waiting set, none
  is handed out only when none waits, and finishing a job makes no other wait.
\<close>

locale job_queue =
  fixes claim :: "'s \<Rightarrow> 'j option \<times> 's"
    and finish :: "'j \<Rightarrow> string option \<Rightarrow> 's \<Rightarrow> 's"
    and ident :: "'j \<Rightarrow> 'k"
    and waiting :: "'s \<Rightarrow> 'k set"
    and inv :: "'s \<Rightarrow> bool"
  assumes claim_inv: "inv s \<Longrightarrow> claim s = (r, s') \<Longrightarrow> inv s'"
    and finish_inv: "inv s \<Longrightarrow> inv (finish j out s)"
    and claim_none: "inv s \<Longrightarrow> claim s = (None, s') \<Longrightarrow> waiting s = {} \<and> waiting s' = {}"
    and claim_some: "inv s \<Longrightarrow> claim s = (Some j, s')
      \<Longrightarrow> ident j \<in> waiting s \<and> waiting s' = waiting s - {ident j}"
    and finish_waiting: "inv s \<Longrightarrow> waiting (finish j out s) = waiting s - {ident j}"
    and finite_waiting: "finite (waiting s)"

text \<open>
  A worker that claims, works and finishes until its fuel runs out or nothing waits; \<open>work\<close> is what
  processing does to the state and says how it ends (an error message or success).
\<close>

fun drain :: "('s \<Rightarrow> 'j option \<times> 's) \<Rightarrow> ('j \<Rightarrow> string option \<Rightarrow> 's \<Rightarrow> 's)
    \<Rightarrow> ('j \<Rightarrow> 's \<Rightarrow> string option \<times> 's) \<Rightarrow> nat \<Rightarrow> 's \<Rightarrow> 'j list \<times> 's" where
  "drain claim finish work 0 s = ([], s)"
| "drain claim finish work (Suc n) s = (case claim s of
     (None, s') \<Rightarrow> ([], s')
   | (Some j, s') \<Rightarrow> (case work j s' of (out, s2) \<Rightarrow>
       (case drain claim finish work n (finish j out s2) of (js, s3) \<Rightarrow> (j # js, s3))))"

context job_queue
begin

definition frame :: "('j \<Rightarrow> 's \<Rightarrow> string option \<times> 's) \<Rightarrow> bool" where
  "frame work \<longleftrightarrow> (\<forall>j s. inv s \<longrightarrow> inv (snd (work j s)) \<and> waiting (snd (work j s)) = waiting s)"

text \<open>One round: what it hands out, and what waits afterwards.\<close>

lemma round_waiting:
  assumes "inv s" and "claim s = (Some j, s')" and "frame work" and "work j s' = (out, s2)"
  shows "inv (finish j out s2)" "waiting (finish j out s2) = waiting s - {ident j}"
    "ident j \<in> waiting s"
proof -
  have c: "inv s'" "waiting s' = waiting s - {ident j}"
    using claim_inv[OF assms(1,2)] claim_some[OF assms(1,2)] by simp_all
  then have w: "inv s2" "waiting s2 = waiting s'"
    using assms(3,4) unfolding frame_def by (metis snd_conv)+
  show "inv (finish j out s2)" by (rule finish_inv[OF w(1)])
  show "waiting (finish j out s2) = waiting s - {ident j}"
    using finish_waiting[OF w(1), of j out] w(2) c(2) by auto
  show "ident j \<in> waiting s" using claim_some[OF assms(1,2)] by simp
qed

lemma drain_waiting:
  assumes "inv s" and "frame work" and "drain claim finish work n s = (js, s')"
  shows "ident ` set js \<subseteq> waiting s \<and> distinct (map ident js) \<and> waiting s' = waiting s - ident ` set js
    \<and> inv s'"
  using assms(1,3)
proof (induction n arbitrary: s js s')
  case 0
  then show ?case by simp
next
  case (Suc n)
  obtain r s1 where c: "claim s = (r, s1)" by force
  show ?case
  proof (cases r)
    case None
    with c Suc.prems claim_none[OF Suc.prems(1)] claim_inv[OF Suc.prems(1) c] show ?thesis by auto
  next
    case (Some j)
    obtain out s2 where w: "work j s1 = (out, s2)" by force
    obtain ks s3 where d: "drain claim finish work n (finish j out s2) = (ks, s3)" by force
    note r = round_waiting[OF Suc.prems(1) c[unfolded Some] assms(2) w]
    have "js = j # ks" "s' = s3" using Suc.prems(2) c Some w d by simp_all
    moreover have "ident ` set ks \<subseteq> waiting s - {ident j}" "distinct (map ident ks)"
      "waiting s3 = waiting s - {ident j} - ident ` set ks" "inv s3"
      using Suc.IH[OF r(1) d] by (simp_all add: r(2))
    ultimately show ?thesis using r(3) by auto
  qed
qed

text \<open>With as much fuel as there are waiting jobs, every one of them is handed out, once.\<close>

lemma drain_all:
  assumes "inv s" and "frame work" and "card (waiting s) \<le> n"
    and "drain claim finish work n s = (js, s')"
  shows "waiting s' = {} \<and> ident ` set js = waiting s \<and> distinct (map ident js)"
proof -
  have "waiting s' = {}"
    using assms(1,3,4)
  proof (induction n arbitrary: s js s')
    case 0
    then show ?case using finite_waiting by simp
  next
    case (Suc n)
    obtain r s1 where c: "claim s = (r, s1)" by force
    show ?case
    proof (cases r)
      case None
      with c Suc.prems(1,3) claim_none[OF Suc.prems(1)] show ?thesis by auto
    next
      case (Some j)
      obtain out s2 where w: "work j s1 = (out, s2)" by force
      obtain ks s3 where d: "drain claim finish work n (finish j out s2) = (ks, s3)" by force
      note r = round_waiting[OF Suc.prems(1) c[unfolded Some] assms(2) w]
      have "card (waiting (finish j out s2)) \<le> n"
        using Suc.prems(2) r(2,3) finite_waiting by simp
      from Suc.IH[OF r(1) this d] Suc.prems(3) c Some w d show ?thesis by auto
    qed
  qed
  with drain_waiting[OF assms(1,2,4)] show ?thesis by auto
qed

end

section \<open>The queue of media jobs provides it\<close>

definition claim_job :: "int \<Rightarrow> db \<Rightarrow> MediaJob option \<times> db" where
  "claim_job t d = (case claim_stmt t d of (Inl _, d') \<Rightarrow> (None, d') | (Inr j, d') \<Rightarrow> (Some j, d'))"

definition finish_job :: "int \<Rightarrow> MediaJob \<Rightarrow> string option \<Rightarrow> db \<Rightarrow> db" where
  "finish_job t j out d = snd (case out of None \<Rightarrow> complete_stmt (mj_id j) t d
     | Some msg \<Rightarrow> fail_stmt (mj_id j) msg t d)"

definition waiting_jobs :: "db \<Rightarrow> uuid set" where
  "waiting_jobs d = mj_id ` {j \<in> set (jobs d). pending j}"

lemma waiting_upd:
  assumes "\<And>r. mj_id (f r) = mj_id r" and "\<And>r. \<not> pending (f r)"
  shows "waiting_jobs (d\<lparr>jobs := upd_where (\<lambda>r. mj_id r = i) f (jobs d)\<rparr>) = waiting_jobs d - {i}"
  using assms unfolding waiting_jobs_def upd_where_def by (auto simp: image_iff split: if_splits)

interpretation jobs_at: job_queue "claim_job t" "finish_job t" mj_id waiting_jobs db_ok for t
proof unfold_locales
  fix s s' :: db and j :: MediaJob and r :: "MediaJob option" and out :: "string option"
  show "db_ok s \<Longrightarrow> claim_job t s = (r, s') \<Longrightarrow> db_ok s'"
    using job_stmts_ok(2)[of s t]
    by (auto simp: claim_job_def split: prod.splits sum.splits)
  show "db_ok s \<Longrightarrow> db_ok (finish_job t j out s)"
    by (simp add: finish_job_def job_stmts_ok split: option.splits)
  show "db_ok s \<Longrightarrow> claim_job t s = (None, s') \<Longrightarrow> waiting_jobs s = {} \<and> waiting_jobs s' = {}"
    by (auto simp: claim_job_def claim_stmt_run waiting_jobs_def next_pending_None
        split: option.splits)
  show "mj_id j \<in> waiting_jobs s \<and> waiting_jobs s' = waiting_jobs s - {mj_id j}"
    if "db_ok s" "claim_job t s = (Some j, s')"
  proof -
    from that obtain q where q: "next_pending s = Some q" "j = claimed t q"
      "s' = s\<lparr>jobs := upd_where (\<lambda>r. mj_id r = mj_id q) (claimed t) (jobs s)\<rparr>"
      by (auto simp: claim_job_def claim_stmt_run split: option.splits)
    have "mj_id q \<in> waiting_jobs s"
      using next_pending_Some(1,2)[OF q(1)] by (auto simp: waiting_jobs_def)
    moreover have "waiting_jobs s' = waiting_jobs s - {mj_id q}"
      unfolding q(3) by (rule waiting_upd) (simp_all add: claimed_def pending_def)
    ultimately show ?thesis by (simp add: q(2) claimed_def)
  qed
  show "waiting_jobs (finish_job t j out s) = waiting_jobs s - {mj_id j}" if "db_ok s"
    using that waiting_upd by (simp add: finish_job_def complete_stmt_run fail_stmt_run pending_def
        split: option.splits)
  show "finite (waiting_jobs s)" by (simp add: waiting_jobs_def)
qed

end
