(* ===== verification/DataMedia.thy ===== *)
theory DataMedia
  imports DataJobs GoFloat "HOL-Library.List_Lexorder" "HOL-Library.Char_ord"
begin

text \<open>
  \<open>internal/data/media.go\<close> and \<open>internal/data/media_attach.go\<close>: media rows with their files, read
  under the same visibility rules as files, and the inserts of the media processor's transaction.
  The columns of media rows nothing writes (title, description, updated_at) are left out.
\<close>

section \<open>A media row as the code returns it\<close>

record StorageMedia =
  sm_row :: MediaRow
  sm_file :: "StorageFile option"
  sm_image :: "(MediaImage \<times> (MediaImageSized \<times> StorageFile option) list) option"
  sm_video :: "MediaVideo option"
  sm_document :: "MediaDocument option"
  sm_thumbs :: "(MediaThumb \<times> StorageFile option) list"

definition bare_media :: "MediaRow \<Rightarrow> StorageMedia" where
  "bare_media r = \<lparr>sm_row = r, sm_file = None, sm_image = None, sm_video = None, sm_document = None,
     sm_thumbs = []\<rparr>"

section \<open>Listing\<close>

text \<open>The rows of the join: a media row, its file live in this storage, and the visibility clause.\<close>

definition media_file :: "db \<Rightarrow> uuid \<Rightarrow> MediaRow \<Rightarrow> StorageFile result" where
  "media_file d storageID r =
     find_by (\<lambda>f. sf_id f = md_file r \<and> sf_storage f = storageID \<and> \<not> sf_excluded f) (files d)"

definition media_rows :: "db \<Rightarrow> uuid \<Rightarrow> bool \<Rightarrow> bool \<Rightarrow> uuid \<Rightarrow> MediaRow list" where
  "media_rows d storageID admin mayRead userID = filter (\<lambda>r. case media_file d storageID r of
     Inl _ \<Rightarrow> False | Inr f \<Rightarrow> admin \<or> (mayRead \<and> sql_visible d userID f)) (medias d)"

text \<open>A row whose file cannot be read any more is skipped.\<close>

fun load_all :: "uuid \<Rightarrow> MediaRow list \<Rightarrow> StorageMedia list \<Rightarrow> StorageMedia list m" where
  "load_all storageID [] out = ret out"
| "load_all storageID (r # rs) out = do {
     f \<leftarrow> loadFileRow storageID (md_file r) False;
     (case f of Inl _ \<Rightarrow> load_all storageID rs out
      | Inr f \<Rightarrow> do {
          ef \<leftarrow> enrichFile f;
          (case ef of Inl _ \<Rightarrow> load_all storageID rs out
           | Inr ef \<Rightarrow> load_all storageID rs (out @ [(bare_media r)\<lparr>sm_file := Some ef\<rparr>]))})}"

definition ListStorageMedia ::
    "uuid \<Rightarrow> bool \<Rightarrow> uuid \<Rightarrow> int \<Rightarrow> int \<Rightarrow> (StorageMedia list \<times> nat) result m" where
  "ListStorageMedia storageID admin userID limit offset =
     (let limit = clamp_limit limit; offset = clamp_offset offset in
      try_bind (StorageUserMayRead storageID userID) (\<lambda>mayRead.
      try_bind (db_query (\<lambda>t d. Inr (length (media_rows d storageID admin mayRead userID)))) (\<lambda>total.
      try_bind (db_query (\<lambda>t d. Inr (limit_offset limit offset (sort_key (\<lambda>r. - md_created_at r)
          (media_rows d storageID admin mayRead userID))))) (\<lambda>raw. do {
      out \<leftarrow> load_all storageID raw [];
      ret (Inr (out, total))}))))"

section \<open>Details\<close>

text \<open>ORDER BY k DESC NULLS LAST.\<close>

definition desc_nulls_last :: "('r \<Rightarrow> int option) \<Rightarrow> 'r list \<Rightarrow> 'r list" where
  "desc_nulls_last k rs = sort_key (\<lambda>r. - the (k r)) (filter (\<lambda>r. k r \<noteq> None) rs)
     @ filter (\<lambda>r. k r = None) rs"

fun with_files :: "uuid \<Rightarrow> ('r \<Rightarrow> uuid) \<Rightarrow> 'r list \<Rightarrow> ('r \<times> StorageFile option) list
    \<Rightarrow> ('r \<times> StorageFile option) list m" where
  "with_files storageID k [] out = ret out"
| "with_files storageID k (r # rs) out = do {
     tf \<leftarrow> loadFileRow storageID (k r) False;
     (case tf of Inl _ \<Rightarrow> with_files storageID k rs (out @ [(r, None)])
      | Inr f \<Rightarrow> do {
          ef2 \<leftarrow> enrichFile f;
          with_files storageID k rs (out @ [(r, ok_opt ef2)])})}"

definition attachImageMediaDetail :: "uuid \<Rightarrow> StorageMedia \<Rightarrow> StorageMedia m" where
  "attachImageMediaDetail storageID s = do {
     img \<leftarrow> db_query (\<lambda>t d. find_by (\<lambda>i. mi_media i = md_id (sm_row s)) (images d));
     (case img of Inl _ \<Rightarrow> ret s
      | Inr i \<Rightarrow> do {
          let s = s\<lparr>sm_image := Some (i, [])\<rparr>;
          sized \<leftarrow> db_query (\<lambda>t d. Inr (desc_nulls_last ms_width (desc_nulls_last ms_height
             (filter (\<lambda>r. ms_image r = mi_id i) (sizeds d)))));
          (case sized of Inl (e::err) \<Rightarrow> ret s
           | Inr rows \<Rightarrow> do {
               sized \<leftarrow> with_files storageID ms_file rows [];
               ret (s\<lparr>sm_image := Some (i, sized)\<rparr>)})})}"

definition attachVideoMediaDetail :: "StorageMedia \<Rightarrow> StorageMedia m" where
  "attachVideoMediaDetail s = do {
     v \<leftarrow> db_query (\<lambda>t d. find_by (\<lambda>i. mv_media i = md_id (sm_row s)) (videos d));
     ret (case v of Inl _ \<Rightarrow> s | Inr r \<Rightarrow> s\<lparr>sm_video := Some r\<rparr>)}"

definition attachDocumentMediaDetail :: "StorageMedia \<Rightarrow> StorageMedia m" where
  "attachDocumentMediaDetail s = do {
     x \<leftarrow> db_query (\<lambda>t d. find_by (\<lambda>i. mdoc_media i = md_id (sm_row s)) (documents d));
     ret (case x of Inl _ \<Rightarrow> s | Inr r \<Rightarrow> s\<lparr>sm_document := Some r\<rparr>)}"

definition attachThumbnailsForMedia :: "uuid \<Rightarrow> StorageMedia \<Rightarrow> StorageMedia m" where
  "attachThumbnailsForMedia storageID s = do {
     thumbs \<leftarrow> db_query (\<lambda>t d. Inr (sort_key th_size_tag
        (filter (\<lambda>r. th_media r = md_id (sm_row s)) (thumbs d))));
     (case thumbs of Inl (e::err) \<Rightarrow> ret s
      | Inr rows \<Rightarrow> do {
          thumbs \<leftarrow> with_files storageID th_file rows [];
          ret (s\<lparr>sm_thumbs := thumbs\<rparr>)})}"

definition GetStorageMedia :: "uuid \<Rightarrow> uuid \<Rightarrow> bool \<Rightarrow> uuid \<Rightarrow> StorageMedia result m" where
  "GetStorageMedia storageID mediaID admin userID =
     try_bind (db_query (\<lambda>t d. find_by (\<lambda>r. md_id r = mediaID \<and> is_ok (media_file d storageID r))
       (medias d))) (\<lambda>r.
     try_bind (loadFileRow storageID (md_file r) False) (\<lambda>f.
     try_bind (enrichFile f) (\<lambda>ef. do {
     v \<leftarrow> fileVisible ef admin userID;
     if \<not> v then ret (Inl ErrNoRows) else do {
       let s = (bare_media r)\<lparr>sm_file := Some ef\<rparr>;
       s \<leftarrow> (if ToUpper (md_type r) = ''IMAGE'' then attachImageMediaDetail storageID s
            else if ToUpper (md_type r) = ''VIDEO'' then attachVideoMediaDetail s
            else if ToUpper (md_type r) = ''DOCUMENT'' then attachDocumentMediaDetail s
            else ret s);
       s \<leftarrow> attachThumbnailsForMedia storageID s;
       ret (Inr s)}})))"

section \<open>For the worker\<close>

definition GetFileForWorker :: "uuid \<Rightarrow> uuid \<Rightarrow> StorageFile result m" where
  "GetFileForWorker storageID fileID =
     try_bind (loadFileRow storageID fileID False) enrichFile"

definition StorageMediaExistsForFile :: "uuid \<Rightarrow> bool result m" where
  "StorageMediaExistsForFile fileID =
     try_bind (db_query (\<lambda>t d. Inr (touched (\<lambda>r. md_file r = fileID) (medias d))))
       (\<lambda>n. ret (Inr (n > 0)))"

definition GetMimeByMIME :: "string \<Rightarrow> MimeType result m" where
  "GetMimeByMIME mime = db_query (\<lambda>t d. find_by (\<lambda>r. ToLower (mt_mime r) = ToLower mime) (mimes d))"

definition UpdateFileExifMetadata :: "uuid \<Rightarrow> string \<Rightarrow> unit result m" where
  "UpdateFileExifMetadata fileID meta =
     try_bind (db_exec (\<lambda>t. upd_files (\<lambda>r. sf_id r = fileID)
       (\<lambda>r. r\<lparr>sf_exif := jsonOrEmpty meta, sf_updated_at := Some t\<rparr>))) (\<lambda>_. ret (Inr ()))"

definition InsertStorageMediaTx :: "uuid \<Rightarrow> string \<Rightarrow> uuid \<Rightarrow> uuid option \<Rightarrow> unit result m" where
  "InsertStorageMediaTx i mediaType fileID createdBy = db_exec (\<lambda>t. ins_media
     \<lparr>md_id = i, md_created_at = t, md_type = mediaType, md_file = fileID, md_created_by = createdBy\<rparr>)"

definition InsertStorageMediaImageTx :: "MediaImage \<Rightarrow> uuid option \<Rightarrow> unit result m" where
  "InsertStorageMediaImageTx img createdBy = db_exec (\<lambda>t. ins_image img createdBy)"

definition duration_text :: "float64 \<Rightarrow> string option" where
  "duration_text d = (case d of
     Fin q \<Rightarrow> if 0 < q then Some (FormatG q @ '' seconds'') else None
   | Inf s \<Rightarrow> if s then None else Some ''+Inf seconds''
   | NaN \<Rightarrow> None)"

definition InsertStorageMediaVideoTx :: "MediaVideo \<Rightarrow> float64 \<Rightarrow> unit result m" where
  "InsertStorageMediaVideoTx v durationSec =
     db_exec (\<lambda>t. ins_video (v\<lparr>mv_duration := duration_text durationSec\<rparr>))"

definition InsertStorageMediaDocumentTx :: "MediaDocument \<Rightarrow> unit result m" where
  "InsertStorageMediaDocumentTx doc = db_exec (\<lambda>t. ins_document doc)"

definition InsertStorageMediaImageSizedTx :: "MediaImageSized \<Rightarrow> uuid option \<Rightarrow> unit result m" where
  "InsertStorageMediaImageSizedTx row createdBy = db_exec (\<lambda>t. ins_sized row createdBy)"

definition InsertStorageMediaThumbnailTx :: "MediaThumb \<Rightarrow> uuid option \<Rightarrow> unit result m" where
  "InsertStorageMediaThumbnailTx row createdBy = db_exec (\<lambda>t. ins_thumb row createdBy)"

definition InsertFileTx :: "StorageFile \<Rightarrow> unit result m" where
  "InsertFileTx f = db_exec (\<lambda>t. ins_file (new_file_row t f))"

section \<open>Frames and invariants\<close>

lemma media_lists_reads [read_intros]: "reads (load_all s rs out)" "reads (with_files s k xs out')"
proof -
  show "reads (load_all s rs out)"
    by (induction rs arbitrary: out) (auto intro!: read_intros)
  show "reads (with_files s k xs out')"
    by (induction xs arbitrary: out') (auto intro!: read_intros)
qed

lemma media_reads [read_intros]:
  "reads (ListStorageMedia s a u l k)" "reads (GetStorageMedia s i a u)" "reads (GetFileForWorker s i)"
  "reads (StorageMediaExistsForFile i)" "reads (GetMimeByMIME mime)"
  unfolding ListStorageMedia_def GetStorageMedia_def GetFileForWorker_def Let_def
    StorageMediaExistsForFile_def GetMimeByMIME_def attachImageMediaDetail_def
    attachVideoMediaDetail_def attachDocumentMediaDetail_def attachThumbnailsForMedia_def
  by (intro read_intros)+

lemma media_ops_ok [keeps]:
  "keeps_all (on_db db_ok) (UpdateFileExifMetadata i meta)"
  "keeps_all (on_db db_ok) (InsertStorageMediaTx i ty f cb)"
  "keeps_all (on_db db_ok) (InsertStorageMediaImageTx img cb)"
  "keeps_all (on_db db_ok) (InsertStorageMediaVideoTx v dur)"
  "keeps_all (on_db db_ok) (InsertStorageMediaDocumentTx doc)"
  "keeps_all (on_db db_ok) (InsertStorageMediaImageSizedTx row cb)"
  "keeps_all (on_db db_ok) (InsertStorageMediaThumbnailTx th cb)"
  "keeps_all (on_db db_ok) (InsertFileTx file)"
  unfolding UpdateFileExifMetadata_def InsertStorageMediaTx_def InsertStorageMediaImageTx_def
    InsertStorageMediaVideoTx_def InsertStorageMediaDocumentTx_def InsertStorageMediaImageSizedTx_def
    InsertStorageMediaThumbnailTx_def InsertFileTx_def
  by (intro keeps keeps_db_exec ok_intros; simp)+

end
