(* ===== verification/ObjectStore.thy ===== *)
theory ObjectStore
  imports World Json
begin

text \<open>
  \<open>internal/object_store\<close>: where a storage's blobs live and the four operations of its backend.
  The local disk is a map from cleaned paths to bytes (directories are made on the way; a path that
  collides with a directory fails like any other disk error, through the schedule of faults), S3 a
  map from keys of a bucket. \<open>io/fs\<close> paths are those of Unix.
\<close>

section \<open>\<open>path.Clean\<close>, \<open>filepath.Join\<close> and \<open>path.Base\<close>\<close>

fun clean_comps :: "bool \<Rightarrow> string list \<Rightarrow> string list \<Rightarrow> string list" where
  "clean_comps rooted acc [] = rev acc"
| "clean_comps rooted acc (c # cs) =
     (if c = [] \<or> c = ''.'' then clean_comps rooted acc cs
      else if c = ''..'' then
        (if acc \<noteq> [] \<and> hd acc \<noteq> ''..'' then clean_comps rooted (tl acc) cs
         else if rooted then clean_comps rooted acc cs
         else clean_comps rooted (c # acc) cs)
      else clean_comps rooted (c # acc) cs)"

fun join_slash :: "string list \<Rightarrow> string" where
  "join_slash [] = []"
| "join_slash [c] = c"
| "join_slash (c # cs) = c @ ''/'' @ join_slash cs"

definition path_Clean :: "string \<Rightarrow> string" where
  "path_Clean p = (if p = [] then ''.'' else
     (let rooted = (hd p = CHR ''/'');
          body = join_slash (clean_comps rooted [] (split_on (CHR ''/'') p))
      in if rooted then CHR ''/'' # body else if body = [] then ''.'' else body))"

definition filepath_Join :: "string \<Rightarrow> string \<Rightarrow> string" where
  "filepath_Join a b = (if a \<noteq> [] then path_Clean (a @ ''/'' @ b)
     else if b \<noteq> [] then path_Clean b else [])"

definition path_Base :: "string \<Rightarrow> string" where
  "path_Base p = (if p = [] then ''.'' else
     (let q = TrimRight p ''/'' in if q = [] then ''/''
      else (case after_last (CHR ''/'') q of None \<Rightarrow> q | Some r \<Rightarrow> r)))"

section \<open>Backends\<close>

datatype Backend = LocalBackend string | S3Backend string string

text \<open>\<open>localBackend.abs\<close> and \<open>s3Backend.key\<close>.\<close>

definition local_abs :: "string \<Rightarrow> string \<Rightarrow> string" where
  "local_abs rt key = filepath_Join rt (TrimLeft key ''/'')"

definition s3_key :: "string \<Rightarrow> string \<Rightarrow> string" where
  "s3_key rt realPath =
     (let k = TrimLeft (path_Clean (CHR ''/'' # realPath)) ''/'' in
      if rt \<noteq> [] then rt @ ''/'' @ k else k)"

fun blob_at :: "Backend \<Rightarrow> string \<Rightarrow> blob_loc" where
  "blob_at (LocalBackend rt) p = LocalPath (local_abs rt p)"
| "blob_at (S3Backend bucket rt) p = S3Key bucket (s3_key rt p)"

section \<open>The factory\<close>

text \<open>\<open>m["LOCAL_ROOT"].(string)\<close> of a map: the key as written, the last of duplicates.\<close>

definition local_root_cred :: "string \<Rightarrow> string" where
  "local_root_cred creds = (case json_parse creds of
     Some (JObj ms) \<Rightarrow>
       (case filter (\<lambda>e. fst e = ''LOCAL_ROOT'') ms of [] \<Rightarrow> []
        | es \<Rightarrow> (case snd (snd (last es)) of JStr v \<Rightarrow> v | _ \<Rightarrow> []))
   | _ \<Rightarrow> [])"

text \<open>\<open>configErr\<close> is what the AWS SDK's \<open>LoadDefaultConfig\<close> reports, if anything.\<close>

definition s3_backend :: "err option \<Rightarrow> string \<Rightarrow> Backend result" where
  "s3_backend configErr creds = (case json_parse creds of
     None \<Rightarrow> Inl (Err ''invalid JSON'')
   | Some v \<Rightarrow> (case members v of
       None \<Rightarrow> Inl (Err ''cannot unmarshal'')
     | Some ms \<Rightarrow>
         (let f = (\<lambda>n. field_of n ms);
              names = [''AWS_S3_ID'', ''AWS_S3_KEY'', ''AWS_S3_BUCKET'', ''AWS_S3_REGION'',
                       ''AWS_S3_ROOT_FOLDER''] in
          if \<not> list_all (\<lambda>n. string_field_ok (f n)) names then Inl (Err ''cannot unmarshal'')
          else if string_field (f ''AWS_S3_ID'') = [] \<or> string_field (f ''AWS_S3_KEY'') = []
            \<or> string_field (f ''AWS_S3_BUCKET'') = [] \<or> string_field (f ''AWS_S3_REGION'') = []
          then Inl (Err ''S3 credentials incomplete'')
          else (case configErr of Some e \<Rightarrow> Inl e
            | None \<Rightarrow> Inr (S3Backend (string_field (f ''AWS_S3_BUCKET''))
                (Trim (string_field (f ''AWS_S3_ROOT_FOLDER'')) ''/''))))))"

definition ForStorage :: "string \<Rightarrow> err option \<Rightarrow> string \<Rightarrow> string \<Rightarrow> Backend result" where
  "ForStorage localRoot configErr storageType creds =
     (if storageType = ''LOCAL'' \<or> storageType = [] then
        (let v = local_root_cred creds in Inr (LocalBackend (if v \<noteq> [] then v else localRoot)))
      else if storageType = ''AMAZON_S3'' then s3_backend configErr creds
      else Inl (Err (''unsupported storage type '' @ storageType)))"

section \<open>Operations\<close>

text \<open>What a reader gives: bytes, then the end or an error.\<close>

datatype reader = Reader (rd_bytes: string) (rd_err: "err option")

text \<open>
  A local put truncates the file first and removes it when the reader fails. S3 stores nothing
  unless the whole body arrives, and the announced length must be the real one.
\<close>

definition local_put :: "string \<Rightarrow> string \<Rightarrow> reader \<Rightarrow> (blob_loc \<rightharpoonup> blob)
    \<Rightarrow> unit result \<times> (blob_loc \<rightharpoonup> blob)" where
  "local_put rt p r b = (case rd_err r of
     Some e \<Rightarrow> (Inl e, b(LocalPath (local_abs rt p) := None))
   | None \<Rightarrow> (Inr (), b(LocalPath (local_abs rt p) \<mapsto> Blob (rd_bytes r) [])))"

definition s3_put :: "string \<Rightarrow> string \<Rightarrow> string \<Rightarrow> reader \<Rightarrow> int \<Rightarrow> string \<Rightarrow> (blob_loc \<rightharpoonup> blob)
    \<Rightarrow> unit result \<times> (blob_loc \<rightharpoonup> blob)" where
  "s3_put bucket rt p r size' ct b = (case rd_err r of
     Some e \<Rightarrow> (Inl e, b)
   | None \<Rightarrow> if size' \<ge> 0 \<and> size' \<noteq> int (length (rd_bytes r)) then (Inl (Err ''content length''), b)
       else (Inr (), b(S3Key bucket (s3_key rt p) \<mapsto> Blob (rd_bytes r) ct)))"

definition read_blob :: "blob_loc \<Rightarrow> (blob_loc \<rightharpoonup> blob) \<Rightarrow> string result" where
  "read_blob l b = (case b l of None \<Rightarrow> Inl (Err ''no such object'') | Some x \<Rightarrow> Inr (blob_bytes x))"

definition local_open :: "string \<Rightarrow> string \<Rightarrow> (blob_loc \<rightharpoonup> blob) \<Rightarrow> string result" where
  "local_open rt p = read_blob (LocalPath (local_abs rt p))"

definition s3_open :: "string \<Rightarrow> string \<Rightarrow> string \<Rightarrow> (blob_loc \<rightharpoonup> blob) \<Rightarrow> string result" where
  "s3_open bucket rt p = read_blob (S3Key bucket (s3_key rt p))"

definition local_delete :: "string \<Rightarrow> string \<Rightarrow> (blob_loc \<rightharpoonup> blob)
    \<Rightarrow> unit result \<times> (blob_loc \<rightharpoonup> blob)" where
  "local_delete rt p b =
     (if b (LocalPath (local_abs rt p)) = None then (Inl (Err ''no such file''), b)
      else (Inr (), b(LocalPath (local_abs rt p) := None)))"

definition s3_delete :: "string \<Rightarrow> string \<Rightarrow> string \<Rightarrow> (blob_loc \<rightharpoonup> blob)
    \<Rightarrow> unit result \<times> (blob_loc \<rightharpoonup> blob)" where
  "s3_delete bucket rt p b = (Inr (), b(S3Key bucket (s3_key rt p) := None))"

text \<open>A backend dispatches to its own.\<close>

fun put_stmt :: "Backend \<Rightarrow> string \<Rightarrow> reader \<Rightarrow> int \<Rightarrow> string \<Rightarrow> (blob_loc \<rightharpoonup> blob)
    \<Rightarrow> unit result \<times> (blob_loc \<rightharpoonup> blob)" where
  "put_stmt (LocalBackend rt) p r size' ct b = local_put rt p r b"
| "put_stmt (S3Backend bucket rt) p r size' ct b = s3_put bucket rt p r size' ct b"

fun open_stmt :: "Backend \<Rightarrow> string \<Rightarrow> (blob_loc \<rightharpoonup> blob) \<Rightarrow> string result" where
  "open_stmt (LocalBackend rt) p b = local_open rt p b"
| "open_stmt (S3Backend bucket rt) p b = s3_open bucket rt p b"

fun delete_stmt :: "Backend \<Rightarrow> string \<Rightarrow> (blob_loc \<rightharpoonup> blob) \<Rightarrow> unit result \<times> (blob_loc \<rightharpoonup> blob)" where
  "delete_stmt (LocalBackend rt) p b = local_delete rt p b"
| "delete_stmt (S3Backend bucket rt) p b = s3_delete bucket rt p b"

lemma open_stmt_blob [simp]: "open_stmt be p b = read_blob (blob_at be p) b"
  by (cases be) (simp_all add: local_open_def s3_open_def)

declare open_stmt.simps [simp del]

declare local_put_def [simp] s3_put_def [simp] read_blob_def [simp] local_delete_def [simp] s3_delete_def [simp]

definition Put :: "Backend \<Rightarrow> string \<Rightarrow> reader \<Rightarrow> int \<Rightarrow> string \<Rightarrow> unit result m" where
  "Put be p r size' ct = blob_op (put_stmt be p r size' ct)"

definition Open :: "Backend \<Rightarrow> string \<Rightarrow> string result m" where
  "Open be p = blob_op (\<lambda>b. (open_stmt be p b, b))"

definition Delete :: "Backend \<Rightarrow> string \<Rightarrow> unit result m" where
  "Delete be p = blob_op (delete_stmt be p)"

text \<open>The parts of a presign request; \<open>presign\<close> is the SDK's signer.\<close>

record presign_input =
  pi_bucket :: string
  pi_key :: string
  pi_disposition :: string
  pi_content_type :: "string option"
  pi_expiry :: int

definition local_DownloadURL :: "string \<Rightarrow> string \<Rightarrow> string result" where
  "local_DownloadURL rt realPath = Inr (local_abs rt realPath)"

definition s3_DownloadURL :: "(presign_input \<Rightarrow> string result) \<Rightarrow> string \<Rightarrow> string \<Rightarrow> string \<Rightarrow> string
    \<Rightarrow> string \<Rightarrow> int \<Rightarrow> bool \<Rightarrow> string result" where
  "s3_DownloadURL presign bucket rt realPath virtualPath contentType expiry attachment =
     (let filename = path_Base (map (\<lambda>c. if c = CHR 0x5C then CHR ''/'' else c) virtualPath);
          filename = (if filename = [] \<or> filename = ''.'' then ''download'' else filename);
          disposition = (if attachment then ''attachment'' else ''inline'') @ ''; filename='' @
            [CHR 0x22] @ filename @ [CHR 0x22]
      in presign \<lparr>pi_bucket = bucket, pi_key = s3_key rt realPath, pi_disposition = disposition,
           pi_content_type = (if contentType \<noteq> [] then Some contentType else None),
           pi_expiry = expiry\<rparr>)"

fun DownloadURL :: "(presign_input \<Rightarrow> string result) \<Rightarrow> Backend \<Rightarrow> string \<Rightarrow> string \<Rightarrow> string \<Rightarrow> int
    \<Rightarrow> bool \<Rightarrow> string result" where
  "DownloadURL presign (LocalBackend rt) realPath virtualPath contentType expiry attachment =
     local_DownloadURL rt realPath"
| "DownloadURL presign (S3Backend bucket rt) realPath virtualPath contentType expiry attachment =
     s3_DownloadURL presign bucket rt realPath virtualPath contentType expiry attachment"

declare local_DownloadURL_def [simp] s3_DownloadURL_def [simp]

section \<open>The contract of a backend\<close>

text \<open>
  What the upload and delete handlers rely on: a put that succeeds is read back until it is deleted
  or overwritten, and no operation touches another object. A put that fails leaves the object as it
  was or gone.
\<close>

locale blob_store =
  fixes put :: "'p \<Rightarrow> reader \<Rightarrow> 's \<Rightarrow> unit result \<times> 's"
    and get :: "'p \<Rightarrow> 's \<Rightarrow> string result"
    and del :: "'p \<Rightarrow> 's \<Rightarrow> unit result \<times> 's"
    and same :: "'p \<Rightarrow> 'p \<Rightarrow> bool"
  assumes put_ok: "put p r s = (Inr (), s') \<Longrightarrow> get p s' = Inr (rd_bytes r) \<and> rd_err r = None"
    and put_fail: "put p r s = (Inl e, s') \<Longrightarrow> get p s' = get p s \<or> \<not> is_ok (get p s')"
    and put_frame: "\<not> same p q \<Longrightarrow> put p r s = (x, s') \<Longrightarrow> get q s' = get q s"
    and del_gone: "del p s = (x, s') \<Longrightarrow> \<not> is_ok (get p s')"
    and del_frame: "\<not> same p q \<Longrightarrow> del p s = (x, s') \<Longrightarrow> get q s' = get q s"
begin

text \<open>What an upload that fails after its put leaves once it is rolled back.\<close>

lemma put_del_gone:
  "put p r s = (x, s1) \<Longrightarrow> del p s1 = (y, s2) \<Longrightarrow> \<not> is_ok (get p s2)"
  by (rule del_gone)

lemma put_del_frame:
  "put p r s = (x, s1) \<Longrightarrow> del p s1 = (y, s2) \<Longrightarrow> \<not> same p q \<Longrightarrow> get q s2 = get q s"
  by (metis put_frame del_frame)

text \<open>The bytes read back are those of some successful put: a failed one never shows partial data.\<close>

lemma put_reads:
  assumes "put p r s = (x, s')" and "get p s' = Inr d"
  shows "d = rd_bytes r \<and> rd_err r = None \<or> get p s = Inr d"
proof (cases x)
  case (Inl e)
  with put_fail[of p r s e s'] assms show ?thesis by auto
next
  case (Inr u)
  with put_ok[of p r s s'] assms show ?thesis by auto
qed

end

interpretation backend: blob_store
  "\<lambda>p r. put_stmt be p r size' ct" "open_stmt be" "delete_stmt be" "\<lambda>p q. blob_at be p = blob_at be q"
  for be size' ct
proof (unfold_locales, goal_cases)
  case (1 p r s s')
  then show ?case by (cases be) (auto split: option.splits if_splits)
next
  case (2 p r s e s')
  then show ?case by (cases be) (auto split: option.splits if_splits)
next
  case (3 p q r s x s')
  then show ?case by (cases be) (auto split: option.splits if_splits)
next
  case (4 p s x s')
  then show ?case by (cases be) (force split: if_splits)+
next
  case (5 p q s x s')
  then show ?case by (cases be) (force split: if_splits)+
qed

section \<open>Keys stay under their root\<close>

definition tidy :: "string \<Rightarrow> bool" where
  "tidy c \<longleftrightarrow> c \<noteq> [] \<and> c \<noteq> ''.'' \<and> c \<noteq> ''..''"

lemma clean_comps_rooted: "list_all tidy acc \<Longrightarrow> list_all tidy (clean_comps True acc cs)"
proof (induction cs arbitrary: acc)
  case Nil
  then show ?case by (simp add: list_all_iff)
next
  case (Cons c cs)
  have "list_all tidy (tl acc)" using Cons.prems by (cases acc) simp_all
  with Cons.IH[of acc] Cons.IH[of "tl acc"] Cons.IH[of "c # acc"] Cons.prems show ?case
    by (auto simp: tidy_def[of c])
qed

text \<open>Components that are plain names survive cleaning.\<close>

definition plain :: "string \<Rightarrow> bool" where
  "plain c \<longleftrightarrow> c \<noteq> [] \<and> c \<noteq> ''.'' \<and> c \<noteq> ''..'' \<and> CHR ''/'' \<notin> set c"

lemma clean_comps_plain:
  "list_all plain cs \<Longrightarrow> clean_comps rooted acc cs = rev acc @ cs"
  by (induction cs arbitrary: acc) (auto simp: plain_def)

lemma split_join:
  "cs \<noteq> [] \<Longrightarrow> list_all (\<lambda>c. CHR ''/'' \<notin> set c) cs \<Longrightarrow> split_on (CHR ''/'') (join_slash cs) = cs"
proof (induction cs rule: join_slash.induct)
  case (3 c d cs)
  then show ?case using split_on_append_sep[of "CHR ''/''" c "join_slash (d # cs)"]
    by (simp add: split_on_free)
qed (simp_all add: split_on_free)

lemma clean_comps_subset: "set (clean_comps rooted acc cs) \<subseteq> set acc \<union> set cs"
proof (induction cs arbitrary: acc)
  case (Cons c cs)
  have "set (tl acc) \<subseteq> set acc" by (cases acc) auto
  with Cons[of acc] Cons[of "tl acc"] Cons[of "c # acc"] show ?case by auto
qed simp

lemma clean_comps_append:
  "list_all plain ps \<Longrightarrow> clean_comps rooted acc (cs @ ps) = clean_comps rooted acc cs @ ps"
proof (induction cs arbitrary: acc)
  case (Cons c cs)
  show ?case by (simp only: append_Cons clean_comps.simps Cons.IH[OF Cons.prems] if_distrib[of "\<lambda>xs. xs @ ps"])
qed (simp add: clean_comps_plain)

lemma join_slash_append:
  "as \<noteq> [] \<Longrightarrow> bs \<noteq> [] \<Longrightarrow> join_slash (as @ bs) = join_slash as @ ''/'' @ join_slash bs"
  by (induction as rule: join_slash.induct) (auto simp: neq_Nil_conv)

lemma join_slash_start:
  "list_all tidy cs \<Longrightarrow> list_all (\<lambda>c. CHR ''/'' \<notin> set c) cs \<Longrightarrow> TrimLeft (join_slash cs) ''/'' = join_slash cs"
proof (cases cs)
  case (Cons c ds)
  assume "list_all tidy cs" "list_all (\<lambda>c. CHR ''/'' \<notin> set c) cs"
  with Cons obtain x xs where "c = x # xs" "x \<noteq> CHR ''/''" by (cases c) (auto simp: tidy_def)
  with Cons show ?thesis by (cases ds) (simp_all add: TrimLeft_def)
qed (simp add: TrimLeft_def)

lemma rooted_comps:
  "\<exists>cs. clean_comps True [] (split_on (CHR ''/'') p) = cs \<and> list_all tidy cs
     \<and> list_all (\<lambda>c. CHR ''/'' \<notin> set c) cs"
  using clean_comps_rooted[of "[]" "split_on (CHR ''/'') p"]
    clean_comps_subset[of True "[]" "split_on (CHR ''/'') p"] split_on_pieces[of _ "CHR ''/''" p]
  by (auto simp: list_all_iff)

text \<open>Every S3 key is below the root, component by component.\<close>

lemma s3_key_below:
  "\<exists>cs. s3_key rt p = (if rt \<noteq> [] then rt @ ''/'' @ join_slash cs else join_slash cs)
     \<and> list_all tidy cs \<and> list_all (\<lambda>c. CHR ''/'' \<notin> set c) cs"
proof -
  let ?cs = "clean_comps True [] (split_on (CHR ''/'') (CHR ''/'' # p))"
  have cs: "list_all tidy ?cs" "list_all (\<lambda>c. CHR ''/'' \<notin> set c) ?cs"
    using rooted_comps[of "CHR ''/'' # p"] by simp_all
  have "TrimLeft (CHR ''/'' # join_slash ?cs) ''/'' = join_slash ?cs"
    using join_slash_start[OF cs] by (simp add: TrimLeft_def)
  then have "s3_key rt p
      = (if rt \<noteq> [] then rt @ ''/'' @ join_slash ?cs else join_slash ?cs)"
    by (simp add: s3_key_def path_Clean_def Let_def)
  with cs show ?thesis by blast
qed

text \<open>A local path of plain components is below its root.\<close>

lemma local_abs_below:
  assumes "list_all plain cs" and "cs \<noteq> []" and "rt = CHR ''/'' # rest"
    and "path_Clean rt \<noteq> ''/''"
  shows "local_abs rt (join_slash cs) = path_Clean rt @ ''/'' @ join_slash cs"
proof -
  let ?rs = "clean_comps True [] (split_on (CHR ''/'') rt)"
  have t: "list_all tidy cs" "list_all (\<lambda>c. CHR ''/'' \<notin> set c) cs"
    using assms(1) by (auto simp: plain_def tidy_def list_all_iff)
  have c: "path_Clean rt = CHR ''/'' # join_slash ?rs"
    using assms(3) by (simp add: path_Clean_def Let_def)
  with assms(4) have "?rs \<noteq> []" by auto
  moreover have "split_on (CHR ''/'') (rt @ ''/'' @ join_slash cs) = split_on (CHR ''/'') rt @ cs"
    using split_on_append_sep[of "CHR ''/''" rt "join_slash cs"] split_join[OF assms(2) t(2)] by simp
  ultimately show ?thesis
    using assms(2,3) c
    by (simp add: local_abs_def filepath_Join_def path_Clean_def Let_def join_slash_start[OF t]
        clean_comps_append[OF assms(1)] join_slash_append del: split_on.simps)
qed

end
