(* ===== verification/Config.thy ===== *)
theory Config
  imports ObjectStore GoFloat GoTime GoNet
begin

text \<open>
  The configuration (\<open>lib.Env\<close>) the components read, and the code the program calls but does not
  contain, as one record of functions every definition that needs it takes as an argument: UUID text,
  the network, the AWS SDK, \<open>math.Pow\<close>/\<open>math.Log10\<close>, and the text of the environment variable
  \<open>DOWNLOAD_EXP_BYTES_SECS_RATIO\<close> when a link is made.
\<close>

section \<open>\<open>lib.Env\<close>\<close>

text \<open>Durations are nanoseconds.\<close>

record Env =
  ServerPort :: string
  EnvMode :: string
  LogLevel :: string
  DBHost :: string
  DBPort :: string
  DBUser :: string
  DBPassword :: string
  DBName :: string
  DBSSLMode :: string
  DBMaxOpenConns :: int
  DBMaxIdleConns :: int
  DBConnMaxIdleTime :: int
  DBConnMaxLifetime :: int
  AuthHost :: string
  AuthHTTPTimeout :: int
  LocalRoot :: string
  DownloadRatio :: float64
  PublicBaseURL :: string
  TrustedProxyCIDRs :: string
  CorsDebug :: bool
  CorsAllowedOrigins :: string
  SecurityEnableHSTS :: bool
  RateLimitEnabled :: bool
  RateLimitRPS :: float64
  RateLimitBurst :: int
  RateLimitUploadURLRPS :: float64
  RateLimitUploadURLBurst :: int
  AuditLogEnabled :: bool
  URLFetchMaxBytes :: int
  URLFetchTimeout :: int
  URLFetchAllowHTTP :: bool
  URLFetchMaxRedirects :: int
  MediaProcessingEnabled :: bool
  MediaWorkerCount :: int
  MediaWorkerPollMS :: int
  FFprobePath :: string
  MediaMaxImageBytes :: int
  MediaMaxVideoProbeBytes :: int

definition IsProduction :: "Env \<Rightarrow> bool" where
  "IsProduction e \<longleftrightarrow> EqualFold (TrimSpace (EnvMode e)) ''prod''"

definition IsLocal :: "Env \<Rightarrow> bool" where
  "IsLocal e \<longleftrightarrow> \<not> IsProduction e"

text \<open>\<open>time.Time{}\<close>: the first instant of year 1.\<close>

definition zero_time :: int where "zero_time = -62135596800000000000"

section \<open>External code\<close>

text \<open>
  The body of a response: the bytes still to come, how many of them successive reads give at most
  (then as many as asked for), whether the end comes together with the last bytes, and the error it
  ends with instead of EOF.
\<close>

record source =
  so_rest :: string
  so_chunks :: "nat list"
  so_early :: bool
  so_err :: "err option"

text \<open>What a server answers to one request: a redirect to a URL, or a response.\<close>

datatype answer = Redirect string | Answer (an_status: int) (an_type: string) (an_body: source)

text \<open>
  \<open>x_url_parse\<close> gives the scheme, the \<open>Hostname()\<close> and the host the transport dials; \<open>x_proxy\<close> the
  host of the proxy the process environment names for a URL; \<open>x_http\<close> what is answered to a
  request for a URL over a connection to an address.
\<close>

record ext =
  x_uuid_parse :: "string \<Rightarrow> uuid option"
  x_uuid_string :: "uuid \<Rightarrow> string"
  x_s3_config :: "err option"
  x_presign :: "presign_input \<Rightarrow> string result"
  x_auth_get :: "string \<Rightarrow> string \<Rightarrow> (int \<times> string) result"
  x_url_parse :: "string \<Rightarrow> (string \<times> string \<times> string) option"
  x_proxy :: "string \<Rightarrow> string option"
  x_lookup :: "string \<Rightarrow> ip list result"
  x_http :: "string \<Rightarrow> ip \<Rightarrow> answer result"
  x_env_ratio :: string
  x_pow_log10 :: "int \<Rightarrow> float64 \<Rightarrow> float64"

definition storage_backend :: "ext \<Rightarrow> Env \<Rightarrow> Storage \<Rightarrow> Backend result" where
  "storage_backend x e st = ForStorage (LocalRoot e) (x_s3_config x) (ns_str (st_type st)) (st_creds st)"

end
