(* ===== verification/Auth.thy ===== *)
theory Auth
  imports Config Tables
begin

text \<open>
  \<open>internal/auth\<close>: a raw token is resolved to a local user, from the tokens cached in the database or
  by asking uServer-Auth, whose answer is then stored. The answer of the remote service
  (\<open>x_auth_get\<close>) is external.
\<close>

section \<open>The client of uServer-Auth\<close>

record MeResponse =
  me_uuid :: string
  me_username :: string
  me_system :: string
  me_admin :: bool
  me_message :: string
  me_token :: string

record tokenTimes =
  tt_issued :: string
  tt_expires :: string

definition NewClient_base :: "string \<Rightarrow> string" where
  "NewClient_base baseURL = (if baseURL = [] then [] else TrimRight baseURL ''/'')"

definition decode_me :: "string \<Rightarrow> MeResponse result" where
  "decode_me body = (case json_parse body of None \<Rightarrow> Inl (Err ''invalid JSON'')
     | Some v \<Rightarrow> (case members v of None \<Rightarrow> Inl (Err ''cannot unmarshal'')
       | Some ms \<Rightarrow> (let f = (\<lambda>n. field_of n ms) in
           if \<not> (list_all (\<lambda>n. string_field_ok (f n)) [''uuid'', ''username'', ''system_name'', ''message'']
             \<and> bool_field_ok (f ''is_admin'')) then Inl (Err ''cannot unmarshal'')
           else Inr \<lparr>me_uuid = string_field (f ''uuid''), me_username = string_field (f ''username''),
             me_system = string_field (f ''system_name''), me_admin = bool_field (f ''is_admin''),
             me_message = string_field (f ''message''), me_token = raw_field (f ''token'')\<rparr>)))"

text \<open>The error of this second decoding is dropped.\<close>

definition decode_times :: "string \<Rightarrow> tokenTimes" where
  "decode_times raw = (let ms = (if raw = [] \<or> raw = ''null'' then []
       else case json_parse raw of None \<Rightarrow> [] | Some v \<Rightarrow> (case members v of None \<Rightarrow> [] | Some ms \<Rightarrow> ms))
     in \<lparr>tt_issued = string_field (field_of ''issued_at'' ms),
         tt_expires = string_field (field_of ''expires_at'' ms)\<rparr>)"

definition ValidateBearer :: "ext \<Rightarrow> string \<Rightarrow> string \<Rightarrow> (MeResponse \<times> tokenTimes) result" where
  "ValidateBearer x baseURL bearer =
     (if baseURL = [] then Inl (Err ''USERVER_AUTH_HOST or AUTH_HOST is not set'')
      else (case x_auth_get x (baseURL @ ''/auth/me'') bearer of
        Inl e \<Rightarrow> Inl e
      | Inr (status, body) \<Rightarrow>
          (let body = take 1048576 body in
           if status \<noteq> 200 then Inl (Err (''auth/me: status '' @ Itoa status @ '': '' @ TrimSpace body))
           else (case decode_me body of
             Inl e \<Rightarrow> Inl e
           | Inr me \<Rightarrow>
               if me_message me \<noteq> [] \<and> me_uuid me = [] then Inl (Err (me_message me))
               else if me_uuid me = [] \<or> me_username me = [] then Inl (Err ''invalid auth/me payload'')
               else Inr (me, decode_times (me_token me))))))"

section \<open>The service\<close>

definition parseAuthTime :: "string \<Rightarrow> int" where
  "parseAuthTime v = (if v = [] then zero_time
     else (case parse_rfc3339 v of Some t \<Rightarrow> t
       | None \<Rightarrow> (case parse_spaced v of Some t \<Rightarrow> t | None \<Rightarrow> zero_time)))"

definition token_user :: "string \<Rightarrow> int \<Rightarrow> db \<Rightarrow> User result" where
  "token_user token t d =
     (case find_by (\<lambda>k. tok_token k = token \<and> tok_expires k > t) (tokens d) of
        Inl e \<Rightarrow> Inl e | Inr k \<Rightarrow> find_by (\<lambda>u. u_id u = tok_user k) (users d))"

definition userByToken :: "string \<Rightarrow> User option result m" where
  "userByToken token = do {
     r \<leftarrow> db_query (token_user token);
     ret (case r of Inr u \<Rightarrow> Inr (Some u)
       | Inl e \<Rightarrow> if e = ErrNoRows then Inr None else Inl e)}"

definition loadOrCreateUserFromMe :: "MeResponse \<Rightarrow> User result m" where
  "loadOrCreateUserFromMe me = do {
     r \<leftarrow> db_query (\<lambda>t d. find_by (\<lambda>u. u_username u = me_username me) (users d));
     (case r of
        Inl e \<Rightarrow> if e \<noteq> ErrNoRows then ret (Inl e) else do {
          uid \<leftarrow> new_uuid;
          t0 \<leftarrow> now;
          let user = \<lparr>u_id = uid, u_username = me_username me, u_system = me_system me,
            u_admin = me_admin me, u_active = True, u_registered = t0, u_last_activity = t0\<rparr>;
          try_bind (db_exec (\<lambda>t. ins_user (user\<lparr>u_registered := t, u_last_activity := t\<rparr>)))
            (\<lambda>_. ret (Inr user))}
      | Inr user \<Rightarrow>
          try_bind (db_exec (\<lambda>t. upd_users (\<lambda>u. u_id u = u_id user)
            (\<lambda>u. u\<lparr>u_system := me_system me, u_admin := me_admin me, u_active := True,
                   u_last_activity := t\<rparr>)))
            (\<lambda>_. ret (Inr (user\<lparr>u_system := me_system me, u_admin := me_admin me,
                               u_active := True\<rparr>))))}"

text \<open>INSERT ... ON CONFLICT (token) DO UPDATE.\<close>

definition upsert_token :: "UserToken \<Rightarrow> db \<Rightarrow> unit result \<times> db" where
  "upsert_token r d =
     (if \<exists>k\<in>set (tokens d). tok_token k = tok_token r then
        (case upd_tokens (\<lambda>k. tok_token k = tok_token r)
           (\<lambda>k. k\<lparr>tok_expires := tok_expires r, tok_user := tok_user r\<rparr>) d of
           (Inl e, d') \<Rightarrow> (Inl e, d') | (Inr _, d') \<Rightarrow> (Inr (), d'))
      else ins_token r d)"

definition one_day :: int where "one_day = 86400000000000"

definition cacheBearerToken :: "uuid \<Rightarrow> string \<Rightarrow> tokenTimes \<Rightarrow> unit result m" where
  "cacheBearerToken userID rawToken tt = do {
     t0 \<leftarrow> now;
     let issued = parseAuthTime (tt_issued tt);
     let expires = parseAuthTime (tt_expires tt);
     let issued = (if issued = zero_time then t0 else issued);
     let expires = (if expires = zero_time then issued + one_day else expires);
     tokID \<leftarrow> new_uuid;
     db_exec (\<lambda>t. upsert_token \<lparr>tok_uuid = tokID, tok_token = rawToken, tok_issued = issued,
       tok_expires = expires, tok_created = t, tok_user = userID\<rparr>)}"

definition store_me :: "string \<Rightarrow> MeResponse \<Rightarrow> tokenTimes \<Rightarrow> User result m" where
  "store_me rawToken me tt =
     try_bind (loadOrCreateUserFromMe me) (\<lambda>user.
     try_bind (cacheBearerToken (u_id user) rawToken tt) (\<lambda>_. ret (Inr user)))"

definition Authenticate :: "ext \<Rightarrow> string \<Rightarrow> string \<Rightarrow> User result m" where
  "Authenticate x base rawToken =
     (if rawToken = [] then ret (Inl ErrUnauthorized)
      else try_bind (userByToken rawToken) (\<lambda>u. case u of
        Some u \<Rightarrow> ret (if \<not> u_active u then Inl ErrUnauthorized else Inr u)
      | None \<Rightarrow> (case ValidateBearer x base rawToken of
          Inl _ \<Rightarrow> ret (Inl ErrUnauthorized)
        | Inr (me, tt) \<Rightarrow> in_tx (store_me rawToken me tt))))"

section \<open>Integrity\<close>

lemma upsert_token_ok [ok_intros]: "db_ok d \<Longrightarrow> db_ok (snd (upsert_token r d))"
proof -
  assume d: "db_ok d"
  have "db_ok (snd (upd_tokens (\<lambda>k. tok_token k = tok_token r)
      (\<lambda>k. k\<lparr>tok_expires := tok_expires r, tok_user := tok_user r\<rparr>) d))"
    by (rule upd_tokens_ok[OF d]) simp
  with ins_token_ok[OF d, of r] show ?thesis
    by (auto simp: upsert_token_def split: prod.splits sum.splits)
qed

lemma auth_ok [keeps]:
  "keeps_all (on_db db_ok) (userByToken tok)" "keeps_all (on_db db_ok) (loadOrCreateUserFromMe me)"
  "keeps_all (on_db db_ok) (cacheBearerToken i tok tt)"
  "keeps_all (on_db db_ok) (store_me tok me tt)"
  "keeps_all (on_db db_ok) (Authenticate x base tok)"
proof -
  show u: "keeps_all (on_db db_ok) (userByToken tok)"
    unfolding userByToken_def by (intro keeps)
  show l: "keeps_all (on_db db_ok) (loadOrCreateUserFromMe me)" for me
    unfolding loadOrCreateUserFromMe_def Let_def by (intro keeps keeps_db_exec ok_intros; simp)
  show c: "keeps_all (on_db db_ok) (cacheBearerToken i tok tt)" for i tt
    unfolding cacheBearerToken_def Let_def by (intro keeps keeps_db_exec ok_intros)
  show s: "keeps_all (on_db db_ok) (store_me tok me tt)" for me tt
    unfolding store_me_def by (intro keeps l c)
  show "keeps_all (on_db db_ok) (Authenticate x base tok)"
    unfolding Authenticate_def by (intro keeps u s)
qed

end
