(* ===== verification/UrlFetch.thy ===== *)
theory UrlFetch
  imports Config
begin

text \<open>
  \<open>internal/urlfetch\<close>: the outbound client of upload-from-url. A URL is checked by name before the
  request and at every redirect, and the address of every connection is checked before it is dialled;
  the body is read through a cap. Parsing of URLs and addresses, name resolution and the servers
  themselves are external; the following of redirects is that of \<open>net/http\<close>.
\<close>

section \<open>Addresses\<close>

definition To4 :: "ip \<Rightarrow> ip option" where
  "To4 a = (if length a = 4 then Some a
     else if length a = 16 \<and> take 12 a = replicate 10 0 @ [255, 255] then Some (drop 12 a) else None)"

definition IsLoopback :: "ip \<Rightarrow> bool" where
  "IsLoopback a \<longleftrightarrow> (case To4 a of Some b \<Rightarrow> b ! 0 = 127 | None \<Rightarrow> a = replicate 15 0 @ [1])"

definition IsPrivate :: "ip \<Rightarrow> bool" where
  "IsPrivate a \<longleftrightarrow> (case To4 a of
     Some b \<Rightarrow> b ! 0 = 10 \<or> (b ! 0 = 172 \<and> b ! 1 div 16 = 1) \<or> (b ! 0 = 192 \<and> b ! 1 = 168)
   | None \<Rightarrow> length a = 16 \<and> a ! 0 div 2 = 126)"

definition IsLinkLocalUnicast :: "ip \<Rightarrow> bool" where
  "IsLinkLocalUnicast a \<longleftrightarrow> (case To4 a of
     Some b \<Rightarrow> b ! 0 = 169 \<and> b ! 1 = 254
   | None \<Rightarrow> length a = 16 \<and> a ! 0 = 254 \<and> a ! 1 div 64 = 2)"

definition IsLinkLocalMulticast :: "ip \<Rightarrow> bool" where
  "IsLinkLocalMulticast a \<longleftrightarrow> (case To4 a of
     Some b \<Rightarrow> b ! 0 = 224 \<and> b ! 1 = 0 \<and> b ! 2 = 0
   | None \<Rightarrow> length a = 16 \<and> a ! 0 = 255 \<and> a ! 1 mod 16 = 2)"

definition IsUnspecified :: "ip \<Rightarrow> bool" where
  "IsUnspecified a \<longleftrightarrow> To4 a = Some [0, 0, 0, 0] \<or> a = replicate 16 0"

definition blockedIP :: "ip \<Rightarrow> bool \<Rightarrow> bool" where
  "blockedIP a allowLoopback =
     (if allowLoopback \<and> IsLoopback a then False
      else if IsLoopback a \<or> IsPrivate a \<or> IsLinkLocalUnicast a \<or> IsLinkLocalMulticast a then True
      else if IsUnspecified a then True
      else if (case To4 a of Some b \<Rightarrow> b ! 0 = 0 \<or> b ! 0 = 127 | None \<Rightarrow> False) then True
      else if length a = 16 \<and> (a ! 0 = 252 \<or> a ! 0 = 253) then True
      else False)"

definition allResolvedIPsAllowed :: "ip list \<Rightarrow> bool \<Rightarrow> bool" where
  "allResolvedIPsAllowed addrs allowLoopback \<longleftrightarrow>
     addrs \<noteq> [] \<and> list_all (\<lambda>a. \<not> blockedIP a allowLoopback) addrs"

section \<open>Names and URLs\<close>

definition validateHostname :: "string \<Rightarrow> bool \<Rightarrow> unit result" where
  "validateHostname host allowLoopback = (let h = ToLower host in
     if h \<in> {''localhost'', ''127.0.0.1'', ''::1'', ''0.0.0.0''} \<and> \<not> allowLoopback then Inl ErrURLNotAllowed
     else if h = ''metadata.google.internal'' \<or> HasSuffix h ''.metadata.google.internal''
       then Inl ErrURLNotAllowed
     else if (HasSuffix h ''.local'' \<or> HasSuffix h ''.localhost'') \<and> \<not> allowLoopback
       then Inl ErrURLNotAllowed
     else if HasSuffix h ''.internal'' \<and> \<not> allowLoopback then Inl ErrURLNotAllowed
     else Inr ())"

definition validateFetchURL :: "ext \<Rightarrow> string \<Rightarrow> string \<Rightarrow> bool \<Rightarrow> bool \<Rightarrow> unit result" where
  "validateFetchURL x sch hostname allowHTTP allowLoopback = (let scheme = ToLower sch in
     if scheme \<noteq> ''https'' \<and> scheme \<noteq> ''http'' then Inl (Err (''urlfetch: unsupported URL scheme '' @ sch))
     else if scheme = ''http'' \<and> \<not> allowHTTP
       then Inl (Err ''urlfetch: only https URLs are allowed (set URL_FETCH_ALLOW_HTTP=1 to allow http)'')
     else (let host = TrimSpace hostname in
       if host = [] then Inl (Err ''urlfetch: empty host'')
       else (case validateHostname host allowLoopback of
         Inl e \<Rightarrow> Inl e
       | Inr _ \<Rightarrow> (case ParseIP (Trim host ''[]'') of
           None \<Rightarrow> Inr ()
         | Some a \<Rightarrow> if blockedIP a allowLoopback then Inl ErrURLNotAllowed else Inr ()))))"

section \<open>Dialling\<close>

text \<open>The transport's \<open>DialContext\<close>, up to the address it connects to.\<close>

definition dial :: "ext \<Rightarrow> bool \<Rightarrow> string \<Rightarrow> ip result" where
  "dial x allowLoopback host = (case validateHostname host allowLoopback of
     Inl e \<Rightarrow> Inl e
   | Inr _ \<Rightarrow> (case ParseIP host of
       Some a \<Rightarrow> if blockedIP a allowLoopback then Inl ErrURLNotAllowed else Inr a
     | None \<Rightarrow> (case x_lookup x host of
         Inl e \<Rightarrow> Inl e
       | Inr addrs \<Rightarrow> if \<not> allResolvedIPsAllowed addrs allowLoopback then Inl ErrURLNotAllowed
           else Inr (hd addrs))))"

section \<open>The client\<close>

definition maxRedir :: "Env \<Rightarrow> nat" where
  "maxRedir e = (if URLFetchMaxRedirects e \<le> 0 then 8 else nat (URLFetchMaxRedirects e))"

definition check_url :: "ext \<Rightarrow> Env \<Rightarrow> string \<Rightarrow> unit result" where
  "check_url x e url = (case x_url_parse x url of
     None \<Rightarrow> Inl (Err ''urlfetch: parse url'')
   | Some (scheme, hostname, _) \<Rightarrow>
       validateFetchURL x scheme hostname (URLFetchAllowHTTP e) (\<not> IsProduction e))"

text \<open>The host the connection for a URL goes to: the proxy's, when there is one.\<close>

definition dial_host :: "ext \<Rightarrow> string \<Rightarrow> string" where
  "dial_host x url = (case x_proxy x url of Some h \<Rightarrow> h
     | None \<Rightarrow> (case x_url_parse x url of Some (_, _, h) \<Rightarrow> h | None \<Rightarrow> []))"

text \<open>
  \<open>left\<close> is how many redirects may still be followed (\<open>maxRedir - len(via)\<close>); the addresses dialled
  come with the result.
\<close>

fun follow :: "ext \<Rightarrow> Env \<Rightarrow> nat \<Rightarrow> string \<Rightarrow> ip list \<times> answer result" where
  "follow x e left url = (case dial x (\<not> IsProduction e) (dial_host x url) of
     Inl er \<Rightarrow> ([], Inl er)
   | Inr a \<Rightarrow> (case x_http x url a of
       Inl er \<Rightarrow> ([a], Inl er)
     | Inr (Answer s ct b) \<Rightarrow> ([a], Inr (Answer s ct b))
     | Inr (Redirect loc) \<Rightarrow> (case left of
         0 \<Rightarrow> ([a], Inl (Err ''urlfetch: too many redirects''))
       | Suc left' \<Rightarrow> (case check_url x e loc of
           Inl er \<Rightarrow> ([a], Inl er)
         | Inr _ \<Rightarrow> (case follow x e left' loc of (as, r) \<Rightarrow> (a # as, r))))))"

declare follow.simps [simp del]

text \<open>\<open>len(via)\<close> is 1 at the first redirect.\<close>

definition Get :: "ext \<Rightarrow> Env \<Rightarrow> string \<Rightarrow> ip list \<times> answer result" where
  "Get x e rawURL = (case check_url x e rawURL of
     Inl er \<Rightarrow> ([], Inl er)
   | Inr _ \<Rightarrow> follow x e (maxRedir e - 1) rawURL)"

section \<open>The cap\<close>

text \<open>One \<open>Read\<close> of the body into a buffer of \<open>k\<close> bytes: data, and the end if it came.\<close>

definition src_read :: "nat \<Rightarrow> source \<Rightarrow> (string \<times> err option option) \<times> source" where
  "src_read k s =
     (let n = min k (case so_chunks s of [] \<Rightarrow> length (so_rest s) | c # _ \<Rightarrow> max 1 c);
          d = take n (so_rest s); rest = drop n (so_rest s)
      in ((d, if rest = [] \<and> (so_early s \<or> d = []) then Some (so_err s) else None),
          s\<lparr>so_rest := rest, so_chunks := tl (so_chunks s)\<rparr>))"

definition over_cap :: err where "over_cap = Err ''response exceeds maximum size''"

text \<open>\<open>CappedReader.Read\<close>: the state is \<open>N\<close> and the source.\<close>

definition capped_read :: "int \<Rightarrow> nat \<Rightarrow> int \<times> source \<Rightarrow> (string \<times> err option option) \<times> int \<times> source" where
  "capped_read cap k st = (case st of (n, s) \<Rightarrow>
     if cap \<le> 0 then (([], Some (Some (Err ''urlfetch: Max must be positive''))), n, s)
     else if n \<ge> cap then (([], Some (Some over_cap)), n, s)
     else (let room = cap - n; k = (if int k > room then nat room else k);
               ((d, en), s') = src_read k s; n' = n + int (length d)
           in if n' > cap then ((d, Some (Some over_cap)), n', s') else ((d, en), n', s')))"

text \<open>\<open>io.Copy\<close> with its 32 KiB buffer. The fuel is more than the number of reads.\<close>

fun copy_all :: "nat \<Rightarrow> int \<Rightarrow> int \<times> source \<Rightarrow> string \<Rightarrow> (string \<times> err option \<times> int) option" where
  "copy_all 0 cap st out = None"
| "copy_all (Suc fuel) cap st out = (case capped_read cap 32768 st of
     ((d, Some en), n, s) \<Rightarrow> Some (out @ d, en, n)
   | ((d, None), n, s) \<Rightarrow> copy_all fuel cap (n, s) (out @ d))"

definition capped_copy :: "int \<Rightarrow> source \<Rightarrow> string \<times> err option \<times> int" where
  "capped_copy cap s = (case copy_all (length (so_rest s) + 2) cap (0, s) [] of
     Some r \<Rightarrow> r | None \<Rightarrow> ([], Some (Err ''fuel''), 0))"

definition capped_reader :: "int \<Rightarrow> source \<Rightarrow> reader" where
  "capped_reader cap s = (case capped_copy cap s of (d, en, n) \<Rightarrow> Reader d en)"

section \<open>Lemmas\<close>

lemma dial_allowed: "dial x al host = Inr a \<Longrightarrow> \<not> blockedIP a al"
  by (auto simp: dial_def allResolvedIPsAllowed_def list_all_iff neq_Nil_conv
      split: sum.splits option.splits if_splits)

lemma follow_allowed:
  "follow x e left url = (as, r) \<Longrightarrow> a \<in> set as \<Longrightarrow> \<not> blockedIP a (\<not> IsProduction e)"
proof (induction left arbitrary: url as r)
  case 0
  then show ?case
    by (auto simp: follow.simps[of _ _ 0] split: sum.splits answer.splits dest: dial_allowed)
next
  case (Suc left)
  then show ?case
    using dial_allowed[of x "\<not> IsProduction e" "dial_host x url"]
    by (fastforce simp: follow.simps[of _ _ "Suc left"] split: sum.splits answer.splits prod.splits)
qed

lemma follow_length: "follow x e left url = (as, r) \<Longrightarrow> length as \<le> Suc left"
proof (induction left arbitrary: url as r)
  case 0
  then show ?case by (auto simp: follow.simps[of _ _ 0] split: sum.splits answer.splits)
next
  case (Suc left)
  then show ?case
    by (fastforce simp: follow.simps[of _ _ "Suc left"] split: sum.splits answer.splits prod.splits)
qed

definition cap_end :: "int \<Rightarrow> int \<Rightarrow> source \<Rightarrow> err option" where
  "cap_end cap n s = (let total = n + int (length (so_rest s)) in
     if total < cap \<or> (total = cap \<and> so_early s \<and> so_rest s \<noteq> []) then so_err s else Some over_cap)"

lemma copy_all_result:
  assumes "0 < cap"
  shows "n \<le> cap \<Longrightarrow> length (so_rest s) + 2 \<le> fuel \<Longrightarrow>
    copy_all fuel cap (n, s) out
      = Some (out @ take (nat (cap - n)) (so_rest s), cap_end cap n s,
              n + int (length (take (nat (cap - n)) (so_rest s))))"
proof (induction fuel arbitrary: n s out)
  case 0
  then show ?case by simp
next
  case (Suc fuel)
  show ?case
  proof (cases "n = cap")
    case True
    with assms show ?thesis by (auto simp: capped_read_def cap_end_def)
  next
    case False
    with Suc.prems have n: "n < cap" by simp
    define k where "k = (if int 32768 > cap - n then nat (cap - n) else 32768)"
    define m where "m = min k (case so_chunks s of [] \<Rightarrow> length (so_rest s) | c # _ \<Rightarrow> max 1 c)"
    define d where "d = take m (so_rest s)"
    define s' where "s' = s\<lparr>so_rest := drop m (so_rest s), so_chunks := tl (so_chunks s)\<rparr>"
    define ended where "ended \<longleftrightarrow> drop m (so_rest s) = [] \<and> (so_early s \<or> d = [])"
    have k: "0 < k" "int k \<le> cap - n" using n by (auto simp: k_def)
    then have m: "int m \<le> cap - n" by (simp add: m_def)
    have le: "n + int (length d) \<le> cap" using m by (simp add: d_def)
    have src: "src_read k s = ((d, if ended then Some (so_err s) else None), s')"
      by (simp only: src_read_def Let_def m_def d_def s'_def ended_def)
    have read: "capped_read cap 32768 (n, s)
        = ((d, if ended then Some (so_err s) else None), n + int (length d), s')"
      unfolding capped_read_def prod.case Let_def k_def[symmetric] src using n assms le by simp
    show ?thesis
    proof (cases "so_rest s = []")
      case True
      then have "d = []" "ended" by (simp_all add: d_def ended_def)
      with True n read show ?thesis by (simp add: cap_end_def)
    next
      case rest: False
      have m1: "1 \<le> m" using k(1) rest by (auto simp: m_def Suc_le_eq split: list.splits)
      then have d1: "d \<noteq> []" using rest by (simp add: d_def)
      have split: "so_rest s = d @ so_rest s'" by (simp add: d_def s'_def)
      have "nat (cap - n) = length d + nat (cap - (n + int (length d)))"
        using le by linarith
      then have keep: "take (nat (cap - n)) (so_rest s)
          = d @ take (nat (cap - (n + int (length d)))) (so_rest s')"
        unfolding split by simp
      show ?thesis
      proof (cases ended)
        case True
        then have "so_rest s' = []" "so_early s" using d1 by (simp_all add: ended_def s'_def)
        with split have "so_rest s = d" by simp
        with True read le rest \<open>so_early s\<close> d1 keep \<open>so_rest s' = []\<close> show ?thesis
          by (auto simp: cap_end_def Let_def)
      next
        case False
        have "length (so_rest s') + 2 \<le> fuel"
          using Suc.prems(2) m1 rest by (cases "so_rest s") (auto simp: s'_def)
        from Suc.IH[OF le this, of "out @ d"] False read keep
        have "copy_all (Suc fuel) cap (n, s) out
          = Some (out @ take (nat (cap - n)) (so_rest s), cap_end cap (n + int (length d)) s',
              n + int (length (take (nat (cap - n)) (so_rest s))))"
          by simp
        moreover have "cap_end cap (n + int (length d)) s' = cap_end cap n s"
        proof -
          have "so_early s' = so_early s" "so_err s' = so_err s" by (simp_all add: s'_def)
          moreover have "so_rest s' = [] \<Longrightarrow> \<not> so_early s" using False by (auto simp: ended_def s'_def)
          ultimately show ?thesis using split d1 by (auto simp: cap_end_def Let_def)
        qed
        ultimately show ?thesis by simp
      qed
    qed
  qed
qed

text \<open>The cap: what is stored, and how the copy ends.\<close>

lemma capped_copy_result:
  "0 < cap \<Longrightarrow> capped_copy cap s = (take (nat cap) (so_rest s), cap_end cap 0 s,
     int (length (take (nat cap) (so_rest s))))"
  using copy_all_result[of cap 0 s "length (so_rest s) + 2" "[]"]
  by (simp add: capped_copy_def del: copy_all.simps)

end
