(* ===== verification/RateLimit.thy ===== *)
theory RateLimit
  imports Config
begin

text \<open>
  \<open>internal/http_api/middleware_ratelimit.go\<close>: one token bucket per client address, in a table the
  middleware keeps below a bound by evicting entries. The bucket itself is \<open>golang.org/x/time/rate\<close>:
  a fresh bucket and its \<open>Allow\<close> are arguments. Go's map iteration picks the entry to evict, so the
  pick is an argument too. The table is an association list with distinct keys.
\<close>

record 'l ipRateEntry =
  en_lim :: 'l
  en_seen :: int

record 'l ipRateLimiter =
  rl_enabled :: bool
  rl_entries :: "(string \<times> 'l ipRateEntry) list"

text \<open>\<open>rl_enabled\<close> and the burst a new limiter runs with.\<close>

definition newIPRateLimiter :: "bool \<Rightarrow> float64 \<Rightarrow> int \<Rightarrow> 'l ipRateLimiter \<times> int" where
  "newIPRateLimiter enabled rps burst =
     (if \<not> enabled \<or> fle_zero rps then (\<lparr>rl_enabled = False, rl_entries = []\<rparr>, 0)
      else (\<lparr>rl_enabled = True, rl_entries = []\<rparr>, if burst \<le> 0 then 1 else burst))"

definition twenty_minutes :: int where "twenty_minutes = 1200000000000"

definition max_entries :: nat where "max_entries = 8000"

text \<open>
  The entry is a pointer: what happens to it after the eviction shows in the table only if it is
  still there.
\<close>

definition set_entry :: "string \<Rightarrow> 'e \<Rightarrow> (string \<times> 'e) list \<Rightarrow> (string \<times> 'e) list" where
  "set_entry ip e es = (if ip \<in> fst ` set es then map (\<lambda>(k, v). (k, if k = ip then e else v)) es
     else es @ [(ip, e)])"

definition find_entry :: "'l \<Rightarrow> int \<Rightarrow> string \<Rightarrow> (string \<times> 'l ipRateEntry) list
    \<Rightarrow> 'l ipRateEntry \<times> (string \<times> 'l ipRateEntry) list" where
  "find_entry fresh_lim t ip es =
     (let new = \<lparr>en_lim = fresh_lim, en_seen = zero_time\<rparr> in
      case map_of es ip of
        Some e \<Rightarrow> if t - en_seen e > twenty_minutes then (new, set_entry ip new es) else (e, es)
      | None \<Rightarrow> (new, set_entry ip new es))"

definition evict :: "(string list \<Rightarrow> string) \<Rightarrow> (string \<times> 'e) list \<Rightarrow> (string \<times> 'e) list" where
  "evict pick es =
     (if length es > max_entries then filter (\<lambda>(k, v). k \<noteq> pick (map fst es)) es else es)"

definition allow :: "'l \<Rightarrow> (int \<Rightarrow> 'l \<Rightarrow> bool \<times> 'l) \<Rightarrow> (string list \<Rightarrow> string) \<Rightarrow> int \<Rightarrow> string
    \<Rightarrow> 'l ipRateLimiter \<Rightarrow> bool \<times> 'l ipRateLimiter" where
  "allow fresh_lim Allow pick t ip l =
     (if \<not> rl_enabled l then (True, l)
      else (case find_entry fresh_lim t ip (rl_entries l) of (e, es) \<Rightarrow>
        (let es = evict pick es in
         case Allow t (en_lim e) of (ok, lm) \<Rightarrow>
           (ok, l\<lparr>rl_entries := (if ip \<in> fst ` set es
              then set_entry ip \<lparr>en_lim = lm, en_seen = t\<rparr> es else es)\<rparr>))))"

text \<open>The status the middleware answers with itself, if any.\<close>

definition rateLimitMiddleware :: "bool \<Rightarrow> int option" where
  "rateLimitMiddleware allowed = (if \<not> allowed then Some 429 else None)"

definition limiter_ok :: "'l ipRateLimiter \<Rightarrow> bool" where
  "limiter_ok l \<longleftrightarrow> distinct (map fst (rl_entries l)) \<and> length (rl_entries l) \<le> max_entries"

lemma keys_set_entry:
  "map fst (set_entry ip e es) = (if ip \<in> fst ` set es then map fst es else map fst es @ [ip])"
  by (induction es) (auto simp: set_entry_def)

lemma distinct_set_entry: "distinct (map fst es) \<Longrightarrow> distinct (map fst (set_entry ip e es))"
  by (simp add: keys_set_entry)

lemma length_set_entry: "length (set_entry ip e es) = length es + (if ip \<in> fst ` set es then 0 else 1)"
  by (simp add: set_entry_def)

lemma length_filter_key:
  "distinct (map fst es) \<Longrightarrow> k \<in> fst ` set es \<Longrightarrow> Suc (length (filter (\<lambda>(a, v). a \<noteq> k) es)) = length es"
proof (induction es)
  case (Cons x xs)
  have "k \<notin> fst ` set xs \<Longrightarrow> filter (\<lambda>(a, v). a \<noteq> k) xs = xs"
    by (auto simp: filter_id_conv image_iff)
  with Cons show ?case by (cases x) (auto simp: image_iff)
qed simp

lemma find_entry_keeps:
  "find_entry fresh_lim t ip es = (e, es') \<Longrightarrow> distinct (map fst es)
     \<Longrightarrow> distinct (map fst es') \<and> length es' \<le> Suc (length es)"
  by (auto simp: find_entry_def Let_def length_set_entry intro: distinct_set_entry
      split: option.splits if_splits)

lemma evict_bound:
  assumes "distinct (map fst es)" and "length es \<le> Suc max_entries"
    and pick: "\<And>ks. ks \<noteq> [] \<Longrightarrow> pick ks \<in> set ks"
  shows "distinct (map fst (evict pick es)) \<and> length (evict pick es) \<le> max_entries"
proof (cases "length es > max_entries")
  case True
  then have "pick (map fst es) \<in> fst ` set es"
    using pick[of "map fst es"] by (cases es) auto
  from length_filter_key[OF assms(1) this] assms(1,2) True show ?thesis
    by (simp add: evict_def distinct_map_filter_key)
next
  case False
  with assms(1) show ?thesis by (simp add: evict_def)
qed

text \<open>The table stays within its bound, whatever entry the eviction picks.\<close>

lemma allow_keeps:
  assumes "limiter_ok l" and pick: "\<And>ks. ks \<noteq> [] \<Longrightarrow> pick ks \<in> set ks"
  shows "limiter_ok (snd (allow fresh_lim Allow pick t ip l))"
proof -
  obtain e es where f: "find_entry fresh_lim t ip (rl_entries l) = (e, es)" by force
  have "distinct (map fst (evict pick es)) \<and> length (evict pick es) \<le> max_entries"
    using find_entry_keeps[OF f] assms(1)
    by (intro evict_bound pick) (auto simp: limiter_ok_def)
  then show ?thesis
    using assms(1) f
    by (auto simp: allow_def limiter_ok_def Let_def length_set_entry distinct_set_entry
        split: prod.splits)
qed

end
