(* ===== verification/MediaRules.thy ===== *)
theory MediaRules
  imports DataMedia Json Float64
begin

text \<open>
  The decisions of \<open>internal/media_processor\<close>: which files are media (\<open>MediaCategory\<close>), the boxes
  configured for resized images (\<open>parseImageResizerSizes\<close>), the size a resized image gets
  (\<open>computeNewImageDimensions\<close>, in float64) and its tag.
\<close>

section \<open>Categories\<close>

definition MediaCategory :: "StorageFile option \<Rightarrow> string" where
  "MediaCategory fo = (case fo of None \<Rightarrow> [] | Some f \<Rightarrow>
     (case sf_type f of None \<Rightarrow> [] | Some ty \<Rightarrow>
       (let g = ToUpper (TrimSpace (ns_str (mt_generic ty))) in
        if g = ''IMAGE'' \<or> g = ''VIDEO'' then g
        else (let mt = ToLower (mt_mime ty) in
          if HasPrefix mt ''image/'' then ''IMAGE''
          else if HasPrefix mt ''video/'' then ''VIDEO''
          else if mt = ''application/pdf'' \<or> Contains mt ''pdf'' then ''DOCUMENT''
          else if g = ''APPLICATION'' \<and> Contains mt ''pdf'' then ''DOCUMENT''
          else []))))"

definition ShouldEnqueue :: "StorageFile option \<Rightarrow> bool" where
  "ShouldEnqueue fo \<longleftrightarrow> MediaCategory fo \<noteq> []"

section \<open>Numbers\<close>

text \<open>The value of a JSON number's text, and the float64 it is read as.\<close>

definition num_rat :: "string \<Rightarrow> rat" where
  "num_rat s =
     (let neg = starts (CHR ''-'') s; b = (if neg then tl s else s);
          ip = takeWhile is_digit b; r = dropWhile is_digit b;
          fp = (if starts (CHR ''.'') r then takeWhile is_digit (tl r) else []);
          r2 = (if starts (CHR ''.'') r then dropWhile is_digit (tl r) else r);
          et = tl r2; eneg = starts (CHR ''-'') et;
          ed = (if eneg \<or> starts (CHR ''+'') et then tl et else et);
          ex = (if r2 = [] then 0 else if eneg then - digits_val ed else digits_val ed)
            - int (length fp);
          m = rat_of_int (digits_val (ip @ fp));
          q = (if 0 \<le> ex then m * 10 ^ nat ex else m / 10 ^ nat (- ex))
      in if neg then - q else q)"

text \<open>A number beyond the largest float64 cannot be decoded.\<close>

definition json_float :: "string \<Rightarrow> rat option" where
  "json_float s = (case round64 (num_rat s) of Fin q \<Rightarrow> Some q | _ \<Rightarrow> None)"

text \<open>\<open>int(f)\<close> truncates; out of range it is the smallest int, as on amd64.\<close>

definition trunc_int :: "rat \<Rightarrow> int" where
  "trunc_int q = (let n = (if 0 \<le> q then \<lfloor>q\<rfloor> else - \<lfloor>- q\<rfloor>) in if in_int64 n then n else min_int64)"

section \<open>Boxes\<close>

record imageBox =
  box_w :: int
  box_h :: int

definition parseOneSizeString :: "string \<Rightarrow> imageBox result" where
  "parseOneSizeString s0 =
     (let s = TrimSpace (ToLower (filter (\<lambda>c. c \<noteq> CHR '' '') s0)) in
      case split_on (CHR ''x'') s of
        [a, b] \<Rightarrow>
          (let (w, ok1) = Atoi a; (h, ok2) = Atoi b in
           if \<not> ok1 \<or> \<not> ok2 \<or> w \<le> 0 \<or> h \<le> 0 then Inl (Err (''bad size '' @ s))
           else Inr \<lparr>box_w = w, box_h = h\<rparr>)
      | _ \<Rightarrow> Inl (Err (''bad size '' @ s)))"

definition parseSizeStrings :: "string list \<Rightarrow> imageBox list" where
  "parseSizeStrings ss = List.map_filter (\<lambda>s. case parseOneSizeString s of
     Inl _ \<Rightarrow> None | Inr b \<Rightarrow> Some b) ss"

text \<open>A value decoded into \<open>any\<close>; missing map entries are nil.\<close>

definition numFromAny :: "json option \<Rightarrow> int" where
  "numFromAny v = (case v of
     Some (JNum s) \<Rightarrow> trunc_int (num_rat s)
   | Some (JStr s) \<Rightarrow> fst (Atoi (TrimSpace s))
   | _ \<Rightarrow> 0)"

definition map_get :: "(string \<times> string \<times> json) list \<Rightarrow> string \<Rightarrow> json option" where
  "map_get ms k = (case filter (\<lambda>m. fst m = k) ms of [] \<Rightarrow> None | es \<Rightarrow> Some (snd (snd (last es))))"

text \<open>Every number of a value must be in the range of float64 for the decoding to succeed.\<close>

fun decodable :: "json \<Rightarrow> bool" where
  "decodable (JNum s) = (json_float s \<noteq> None)"
| "decodable (JArr vs) = list_all decodable vs"
| "decodable (JObj ms) = list_all (\<lambda>m. decodable (snd (snd m))) ms"
| "decodable v = True"

definition box_of_any :: "json \<Rightarrow> imageBox option" where
  "box_of_any v = (case v of
     JStr s \<Rightarrow> (case parseOneSizeString s of Inl _ \<Rightarrow> None | Inr b \<Rightarrow> Some b)
   | JObj ms \<Rightarrow>
       (let w = numFromAny (map_get ms ''width''); h = numFromAny (map_get ms ''height'') in
        if w > 0 \<and> h > 0 then Some \<lparr>box_w = w, box_h = h\<rparr> else None)
   | _ \<Rightarrow> None)"

text \<open>An array of strings; a null element is the empty string.\<close>

definition string_array :: "json \<Rightarrow> string list option" where
  "string_array v = (case v of
     JNull \<Rightarrow> Some []
   | JArr vs \<Rightarrow> if list_all (\<lambda>e. case e of JStr s \<Rightarrow> True | JNull \<Rightarrow> True | _ \<Rightarrow> False) vs
       then Some (map (\<lambda>e. case e of JStr s \<Rightarrow> s | _ \<Rightarrow> []) vs) else None
   | _ \<Rightarrow> None)"

definition sizes_of :: "json \<Rightarrow> imageBox list result" where
  "sizes_of v = (case string_array v of
     Some (s # ss) \<Rightarrow> Inr (parseSizeStrings (s # ss))
   | _ \<Rightarrow> (case v of
       JNull \<Rightarrow> Inr []
     | JArr vs \<Rightarrow> if list_all decodable vs then Inr (List.map_filter box_of_any vs)
         else Inl (Err ''cannot unmarshal'')
     | _ \<Rightarrow> Inl (Err ''cannot unmarshal'')))"

text \<open>The member \<open>image_resizer\<close> as a pointer to a struct: nil, or its raw \<open>sizes\<close> member.\<close>

definition resizer_sizes :: "json \<Rightarrow> json option option result" where
  "resizer_sizes v = (case members v of None \<Rightarrow> Inl (Err ''cannot unmarshal'')
     | Some ms \<Rightarrow>
        (let vs = map snd (field_of ''image_resizer'' ms) in
         if list_all (\<lambda>e. members e \<noteq> None) vs then
           Inr (foldl (\<lambda>cur e. case e of JObj ns \<Rightarrow>
               (case field_of ''sizes'' ns of [] \<Rightarrow> Some (case cur of Some z \<Rightarrow> z | None \<Rightarrow> None)
                | zs \<Rightarrow> Some (Some (snd (last zs))))
             | _ \<Rightarrow> None) None vs)
         else Inl (Err ''cannot unmarshal'')))"

definition parseImageResizerSizes :: "string \<Rightarrow> imageBox list result" where
  "parseImageResizerSizes cfg =
     (if cfg = [] \<or> cfg = ''null'' then Inr []
      else (case json_parse cfg of None \<Rightarrow> Inl (Err ''invalid JSON'')
        | Some v \<Rightarrow> (case resizer_sizes v of
            Inl e \<Rightarrow> Inl e
          | Inr (Some (Some sizes)) \<Rightarrow> sizes_of sizes
          | Inr _ \<Rightarrow> Inr [])))"

section \<open>Dimensions\<close>

definition computeNewImageDimensions :: "int \<Rightarrow> int \<Rightarrow> int \<Rightarrow> int \<Rightarrow> int option \<times> int option" where
  "computeNewImageDimensions origW origH expectedW expectedH =
     (let factor = (if origH > origW then fdiv (float_of_int expectedW) (float_of_int origW)
                    else fdiv (float_of_int expectedH) (float_of_int origH))
      in (to_int (fmul (float_of_int origW) factor), to_int (fmul (float_of_int origH) factor)))"

definition sizeTagFromDimensions :: "int \<Rightarrow> int \<Rightarrow> string" where
  "sizeTagFromDimensions width height =
     (if width \<ge> 8192 \<and> height \<ge> 5472 then ''SIZE_8K''
      else if width \<ge> 4096 \<and> height \<ge> 2752 then ''SIZE_4K''
      else if width \<ge> 3200 \<and> height \<ge> 2144 then ''SIZE_3K''
      else if width \<ge> 2048 \<and> height \<ge> 1376 then ''SIZE_2K''
      else if width \<ge> 1280 \<and> height \<ge> 864 then ''SIZE_1K''
      else ''SIZE_VGA'')"

text \<open>Tag, width and height of the thumbnails every image gets.\<close>

definition thumbSpecs :: "(string \<times> int \<times> int) list" where
  "thumbSpecs = [(''SIZE_THUMB_SMALL'', 240, 180), (''SIZE_THUMB_MEDIUM'', 480, 360),
     (''SIZE_THUMB_LARGE'', 960, 720)]"

end
