(* ===== verification/Ffprobe.thy ===== *)
theory Ffprobe
  imports MediaRules GoFloat
begin

text \<open>
  \<open>ffprobeMeta\<close> of \<open>internal/media_processor/processor.go\<close>: ffprobe's JSON output is decoded into a
  struct, from which the duration and the first video stream are read. The struct is filled as
  \<open>encoding/json\<close> does: a repeated member is decoded over the earlier one, also inside the slice of
  streams, and any member of the wrong type makes the whole decoding fail.
\<close>

section \<open>Decoding into a struct\<close>

fun fold_members :: "('s \<Rightarrow> string \<Rightarrow> json \<Rightarrow> 's option) \<Rightarrow> 's \<Rightarrow> (string \<times> string \<times> json) list \<Rightarrow> 's option" where
  "fold_members f s [] = Some s"
| "fold_members f s ((k, _, v) # ms) = Option.bind (f s k v) (\<lambda>s'. fold_members f s' ms)"

definition dec_object :: "('s \<Rightarrow> string \<Rightarrow> json \<Rightarrow> 's option) \<Rightarrow> 's \<Rightarrow> json \<Rightarrow> 's option" where
  "dec_object f s v = (case v of JObj ms \<Rightarrow> fold_members f s ms | JNull \<Rightarrow> Some s | _ \<Rightarrow> None)"

definition dec_string :: "string \<Rightarrow> json \<Rightarrow> string option" where
  "dec_string cur v = (case v of JStr s \<Rightarrow> Some s | JNull \<Rightarrow> Some cur | _ \<Rightarrow> None)"

definition dec_int :: "int \<Rightarrow> json \<Rightarrow> int option" where
  "dec_int cur v = (case v of
     JNum s \<Rightarrow> (case Atoi s of (n, ok) \<Rightarrow> if ok then Some n else None) | JNull \<Rightarrow> Some cur | _ \<Rightarrow> None)"

section \<open>The output of ffprobe\<close>

record stream =
  si_codec :: string
  si_width :: int
  si_height :: int
  si_rate :: string

definition zero_stream :: stream where
  "zero_stream = \<lparr>si_codec = [], si_width = 0, si_height = 0, si_rate = []\<rparr>"

definition stream_field :: "stream \<Rightarrow> string \<Rightarrow> json \<Rightarrow> stream option" where
  "stream_field s k v =
     (if EqualFold k ''codec_type'' then map_option (\<lambda>x. s\<lparr>si_codec := x\<rparr>) (dec_string (si_codec s) v)
      else if EqualFold k ''width'' then map_option (\<lambda>x. s\<lparr>si_width := x\<rparr>) (dec_int (si_width s) v)
      else if EqualFold k ''height'' then map_option (\<lambda>x. s\<lparr>si_height := x\<rparr>) (dec_int (si_height s) v)
      else if EqualFold k ''avg_frame_rate'' then map_option (\<lambda>x. s\<lparr>si_rate := x\<rparr>) (dec_string (si_rate s) v)
      else Some s)"

text \<open>Elements are decoded over those the slice's memory already holds.\<close>

fun dec_streams :: "stream list \<Rightarrow> json list \<Rightarrow> stream list option" where
  "dec_streams old [] = Some old"
| "dec_streams old (v # vs) =
     Option.bind (dec_object stream_field (case old of [] \<Rightarrow> zero_stream | s # _ \<Rightarrow> s) v) (\<lambda>s.
     map_option (\<lambda>ss. s # ss) (dec_streams (tl old) vs))"

text \<open>The streams are the first \<open>pl_len\<close> of the slice's memory.\<close>

record ffprobe_payload =
  pl_duration :: string
  pl_streams :: "stream list"
  pl_len :: nat

definition payload_field :: "ffprobe_payload \<Rightarrow> string \<Rightarrow> json \<Rightarrow> ffprobe_payload option" where
  "payload_field p k v =
     (if EqualFold k ''format'' then
        map_option (\<lambda>d. p\<lparr>pl_duration := d\<rparr>)
          (dec_object (\<lambda>d k v. if EqualFold k ''duration'' then dec_string d v else Some d) (pl_duration p) v)
      else if EqualFold k ''streams'' then
        (case v of
           JArr vs \<Rightarrow> if vs = [] then Some (p\<lparr>pl_streams := [], pl_len := 0\<rparr>)
             else map_option (\<lambda>ss. p\<lparr>pl_streams := ss, pl_len := length vs\<rparr>) (dec_streams (pl_streams p) vs)
         | JNull \<Rightarrow> Some (p\<lparr>pl_streams := [], pl_len := 0\<rparr>)
         | _ \<Rightarrow> None)
      else Some p)"

definition decode_payload :: "string \<Rightarrow> ffprobe_payload option" where
  "decode_payload out = Option.bind (json_parse out)
     (dec_object payload_field \<lparr>pl_duration = [], pl_streams = [], pl_len = 0\<rparr>)"

section \<open>What is read from it\<close>

record probe =
  pr_duration :: float64
  pr_w :: int
  pr_h :: int
  pr_fps :: "int option"

definition no_probe :: probe where
  "no_probe = \<lparr>pr_duration = Fin 0, pr_w = 0, pr_h = 0, pr_fps = None\<rparr>"

text \<open>\<open>int64(x)\<close> of a float64; out of range it is the smallest int64, as on amd64.\<close>

definition float_trunc :: "float64 \<Rightarrow> int" where
  "float_trunc x = (case x of Fin q \<Rightarrow> trunc_int q | _ \<Rightarrow> min_int64)"

definition frame_rate :: "string \<Rightarrow> int option" where
  "frame_rate r = (if r = [] \<or> r = ''0/0'' then None
     else (case split_on (CHR ''/'') r of
         [a, b] \<Rightarrow> (let num = fst (ParseFloat a); den = fst (ParseFloat b) in
           if den = Fin 0 then None else Some (float_trunc (fadd (fdiv num den) (Fin (1 / 2)))))
       | _ \<Rightarrow> None))"

text \<open>The argument is ffprobe's standard output, or \<open>None\<close> when it failed.\<close>

definition ffprobeMeta :: "string option \<Rightarrow> probe" where
  "ffprobeMeta out = (case Option.bind out decode_payload of
     None \<Rightarrow> no_probe
   | Some p \<Rightarrow>
       (let dur = (if pl_duration p = [] then Fin 0 else fst (ParseFloat (pl_duration p))) in
        case find (\<lambda>s. si_codec s = ''video'') (take (pl_len p) (pl_streams p)) of
          None \<Rightarrow> no_probe\<lparr>pr_duration := dur\<rparr>
        | Some s \<Rightarrow> \<lparr>pr_duration = dur, pr_w = max 0 (si_width s), pr_h = max 0 (si_height s),
            pr_fps = frame_rate (si_rate s)\<rparr>))"

end
