(* ===== verification/Http.thy ===== *)
theory Http
  imports DataMedia Auth UrlFetch RateLimit EnvFile
begin

text \<open>
  What the handlers of \<open>internal/http_api\<close> share: the request as \<open>gin\<close> hands it over and the
  responses, query parameters and page links (\<open>paginate\<close>, \<open>pageLinks\<close>), the audit log, CORS options,
  security headers, and the life time of download links (\<open>internal/download_exp\<close>).
\<close>

section \<open>Query strings\<close>

definition hex_byte :: "char \<Rightarrow> char \<Rightarrow> char option" where
  "hex_byte a b = (case (hex_digit a, hex_digit b) of
     (Some x, Some y) \<Rightarrow> Some (byte (16 * x + y)) | _ \<Rightarrow> None)"

text \<open>\<open>url.QueryUnescape\<close>.\<close>

function QueryUnescape :: "string \<Rightarrow> string option" where
  "QueryUnescape [] = Some []"
| "QueryUnescape (c # s) =
     (if c = CHR ''+'' then map_option (Cons (CHR '' '')) (QueryUnescape s)
      else if c \<noteq> CHR ''%'' then map_option (Cons c) (QueryUnescape s)
      else if length s < 2 then None
      else (case hex_byte (s ! 0) (s ! 1) of None \<Rightarrow> None
        | Some b \<Rightarrow> map_option (Cons b) (QueryUnescape (drop 2 s))))"
  by pat_completeness auto
termination by (relation "measure length") auto

text \<open>\<open>url.ParseQuery\<close>, whose errors \<open>URL.Query\<close> drops, and \<open>gin\<close>'s \<open>c.Query\<close>.\<close>

definition query_pair :: "string \<Rightarrow> (string \<times> string) option" where
  "query_pair p = (if p = [] \<or> CHR '';'' \<in> set p then None
     else (case SplitN2 (CHR ''='') p of
       [k] \<Rightarrow> (case QueryUnescape k of Some k' \<Rightarrow> Some (k', []) | None \<Rightarrow> None)
     | k # v # _ \<Rightarrow> (case (QueryUnescape k, QueryUnescape v) of
         (Some k', Some v') \<Rightarrow> Some (k', v') | _ \<Rightarrow> None)
     | [] \<Rightarrow> None))"

definition parse_query :: "string \<Rightarrow> (string \<times> string) list" where
  "parse_query raw = List.map_filter query_pair (split_on (CHR ''&'') raw)"

definition Query :: "string \<Rightarrow> string \<Rightarrow> string" where
  "Query raw name = (case map_of (parse_query raw) name of Some v \<Rightarrow> v | None \<Rightarrow> [])"

section \<open>Requests and responses\<close>

text \<open>A file of a multipart form, and the error opening it gives, if any.\<close>

record upload_file =
  uf_name :: string
  uf_bytes :: string
  uf_type :: string
  uf_open_err :: "err option"

record request =
  rq_method :: string
  rq_path :: string
  rq_query :: string
  rq_auth :: string
  rq_client_ip :: string
  rq_param :: "string \<Rightarrow> string"
  rq_body :: string
  rq_file :: "upload_file option"

record links =
  ln_self :: string
  ln_next :: string
  ln_prev :: string

datatype payload =
    PNone
  | PText string
  | PDetail string
  | PStorages "Storage list" nat links
  | PStorage Storage
  | PFiles "StorageFile list" nat links
  | PFile "StorageFile option"
  | PMedias "StorageMedia list" nat links
  | PMedia StorageMedia
  | PStorageUsers "StorageUser list" nat
  | PStorageUser StorageUser
  | PDownload FileDownload
  | PRedirect string
  | PAttachment string string

record response =
  rs_status :: int
  rs_body :: payload

abbreviation reply :: "int \<Rightarrow> payload \<Rightarrow> response m" where
  "reply s p \<equiv> ret \<lparr>rs_status = s, rs_body = p\<rparr>"

definition err_text :: "err \<Rightarrow> string" where
  "err_text e = (case e of ErrNoRows \<Rightarrow> ''sql: no rows in result set''
     | ErrUnauthorized \<Rightarrow> ''unauthorized'' | ErrURLNotAllowed \<Rightarrow> ''url not allowed''
     | ErrConstraint \<Rightarrow> ''pq: constraint violated'' | Err s \<Rightarrow> s)"

text \<open>The two ways handlers answer a database error.\<close>

definition server_error :: "err \<Rightarrow> response m" where
  "server_error e = reply 500 (PDetail (err_text e))"

definition not_found_or_500 :: "err \<Rightarrow> response m" where
  "not_found_or_500 e = (if e = ErrNoRows then reply 404 (PDetail ''not found'') else server_error e)"

section \<open>Pages\<close>

definition paginate :: "request \<Rightarrow> int \<times> int" where
  "paginate rq = (fst (Atoi (Query (rq_query rq) ''limit'')), fst (Atoi (Query (rq_query rq) ''offset'')))"

definition page_href :: "string \<Rightarrow> int \<Rightarrow> int \<Rightarrow> string" where
  "page_href path limit offset = path @ ''?limit='' @ Itoa limit @ ''&offset='' @ Itoa offset"

definition pageLinks :: "request \<Rightarrow> int \<Rightarrow> int \<Rightarrow> int \<Rightarrow> links" where
  "pageLinks rq count limit offset =
     (let limit = (if limit \<le> 0 then 100 else limit);
          self = rq_path rq @ ''?'' @ rq_query rq;
          next = (if wrap64 (offset + limit) < count
                  then page_href (rq_path rq) limit (wrap64 (offset + limit)) else []);
          prev = (if offset > 0
                  then (let po = wrap64 (offset - limit); po = (if po < 0 then 0 else po)
                        in page_href (rq_path rq) limit po)
                  else [])
      in \<lparr>ln_self = self, ln_next = next, ln_prev = prev\<rparr>)"

section \<open>Audit log\<close>

fun pair_up :: "string list \<Rightarrow> (string \<times> string) list" where
  "pair_up [] = []"
| "pair_up [k] = [(k, [])]"
| "pair_up (k # v # r) = (k, v) # pair_up r"

definition audit :: "ext \<Rightarrow> Env \<Rightarrow> request \<Rightarrow> User option \<Rightarrow> string \<Rightarrow> string list \<Rightarrow> unit m" where
  "audit x e rq u action kvs =
     (if \<not> AuditLogEnabled e then ret ()
      else log_audit ([(''action'', action), (''path'', rq_path rq), (''method'', rq_method rq)]
        @ (case u of None \<Rightarrow> [] | Some us \<Rightarrow>
            [(''user_id'', x_uuid_string x (u_id us)), (''username'', u_username us)])
        @ pair_up kvs))"

section \<open>CORS and security headers\<close>

definition corsOptionsFromEnv :: "Env \<Rightarrow> string list \<times> bool" where
  "corsOptionsFromEnv e =
     (let s = TrimSpace (CorsAllowedOrigins e) in
      if s = [] then ([''*''], False)
      else (let origins = filter (\<lambda>p. p \<noteq> []) (map TrimSpace (split_on (CHR '','') s)) in
        if origins = [] then ([''*''], False)
        else (origins, \<not> list_ex (\<lambda>p. p = ''*'') origins)))"

definition securityHeaders :: "Env \<Rightarrow> bool \<Rightarrow> string \<Rightarrow> (string \<times> string) list" where
  "securityHeaders e tls forwardedProto =
     [(''X-Content-Type-Options'', ''nosniff''), (''X-Frame-Options'', ''DENY''),
      (''Referrer-Policy'', ''strict-origin-when-cross-origin''),
      (''Permissions-Policy'', ''camera=(), microphone=(), geolocation=()'')]
     @ (if SecurityEnableHSTS e \<and> (tls \<or> EqualFold forwardedProto ''https'')
        then [(''Strict-Transport-Security'', ''max-age=31536000; includeSubDomains'')] else [])"

section \<open>Life time of a download link\<close>

text \<open>
  \<open>int(math.Round(math.Pow(math.Log10(size), ratio)))\<close>; a value out of range converts to the
  smallest int, as on amd64.
\<close>

definition SecondsFromSize :: "ext \<Rightarrow> int \<Rightarrow> float64 \<Rightarrow> int" where
  "SecondsFromSize x fileSizeBytes ratio =
     (let ratio = (if fle_zero ratio then Fin (17 / 4) else ratio);
          sz = (if fileSizeBytes < 100000 then 100000 else fileSizeBytes)
      in case to_int (x_pow_log10 x sz ratio) of Some n \<Rightarrow> n | None \<Rightarrow> min_int64)"

definition SecondsFromEnv :: "ext \<Rightarrow> int \<Rightarrow> float64 \<Rightarrow> int" where
  "SecondsFromEnv x fileSizeBytes ratio =
     (let ratio = (if fle_zero ratio then
            (case ParseFloat (x_env_ratio x) of (r, ok) \<Rightarrow>
              if ok \<and> \<not> fle_zero r \<and> r \<noteq> NaN then r else Fin (17 / 4)) else ratio)
      in SecondsFromSize x fileSizeBytes ratio)"

section \<open>Following the links\<close>

text \<open>The query part of a link, and the page a client gets by following it.\<close>

definition link_query :: "string \<Rightarrow> string" where
  "link_query href = (case SplitN2 (CHR ''?'') href of [_, q] \<Rightarrow> q | _ \<Rightarrow> [])"

text \<open>
  What a client collects that starts with a page and follows the next links of a listing of \<open>rows\<close>,
  with at most \<open>fuel\<close> requests.
\<close>

fun crawl :: "nat \<Rightarrow> request \<Rightarrow> 'r list \<Rightarrow> 'r list" where
  "crawl 0 rq rows = []"
| "crawl (Suc fuel) rq rows =
     (case paginate rq of (limit, offset) \<Rightarrow>
        limit_offset (clamp_limit limit) (clamp_offset offset) rows
        @ (let ln = pageLinks rq (int (length rows)) limit offset in
           if ln_next ln = [] then []
           else crawl fuel (rq\<lparr>rq_query := link_query (ln_next ln)\<rparr>) rows))"

lemma digit_char: "is_digit c \<Longrightarrow> c \<notin> {CHR ''&'', CHR ''='', CHR ''+'', CHR ''%'', CHR '';'', CHR ''?''}"
  by (auto simp: is_digit_def)

lemma Itoa_chars:
  "c \<in> set (Itoa n) \<Longrightarrow> is_digit c \<or> c = CHR ''-''"
  using nat_digits_digits by (auto simp: Itoa_def list_all_iff split: if_splits)

lemma Itoa_safe: "set (Itoa n) \<inter> {CHR ''&'', CHR ''='', CHR ''+'', CHR ''%'', CHR '';'', CHR ''?''} = {}"
  using Itoa_chars[of _ n] digit_char by fastforce

lemma QueryUnescape_plain:
  "CHR ''+'' \<notin> set s \<Longrightarrow> CHR ''%'' \<notin> set s \<Longrightarrow> QueryUnescape s = Some s"
  by (induction s) auto

lemma query_pair_plain:
  assumes "set k \<inter> {CHR ''&'', CHR ''='', CHR ''+'', CHR ''%'', CHR '';''} = {}"
    and "set v \<inter> {CHR ''&'', CHR ''='', CHR ''+'', CHR ''%'', CHR '';''} = {}"
  shows "query_pair (k @ CHR ''='' # v) = Some (k, v)"
proof -
  have "SplitN2 (CHR ''='') (k @ CHR ''='' # v) = [k, v]" using assms by (intro SplitN2_at) auto
  with assms show ?thesis by (auto simp: query_pair_def QueryUnescape_plain)
qed

text \<open>The link is read back as the page it was made for.\<close>

lemma paginate_href:
  assumes "in_int64 l" and "in_int64 k" and "CHR ''?'' \<notin> set path"
  shows "paginate (rq\<lparr>rq_query := link_query (page_href path l k)\<rparr>) = (l, k)"
proof -
  have safe: "set (Itoa l) \<inter> {CHR ''&'', CHR ''='', CHR ''+'', CHR ''%'', CHR '';''} = {}"
    "set (Itoa k) \<inter> {CHR ''&'', CHR ''='', CHR ''+'', CHR ''%'', CHR '';''} = {}"
    using Itoa_safe by auto
  have q: "link_query (page_href path l k) = (''limit='' @ Itoa l) @ CHR ''&'' # (''offset='' @ Itoa k)"
    using SplitN2_at[OF assms(3), of "''limit='' @ Itoa l @ ''&offset='' @ Itoa k"]
    by (simp add: link_query_def page_href_def)
  have "CHR ''&'' \<notin> set (''limit='' @ Itoa l)" "CHR ''&'' \<notin> set (''offset='' @ Itoa k)"
    using safe by auto
  then have "split_on (CHR ''&'') (link_query (page_href path l k))
      = [''limit='' @ Itoa l, ''offset='' @ Itoa k]"
    unfolding q split_on_append_sep by (simp add: split_on_free del: split_on.simps append_Cons)
  moreover have "query_pair (''limit'' @ CHR ''='' # Itoa l) = Some (''limit'', Itoa l)"
    "query_pair (''offset'' @ CHR ''='' # Itoa k) = Some (''offset'', Itoa k)"
    by (rule query_pair_plain, simp, use safe in simp)+
  ultimately have "parse_query (link_query (page_href path l k))
      = [(''limit'', Itoa l), (''offset'', Itoa k)]"
    by (simp add: parse_query_def List.map_filter_def)
  then show ?thesis
    using decimal.dec_enc[OF assms(1)] decimal.dec_enc[OF assms(2)]
    by (simp add: paginate_def Query_def)
qed

end
