(* ===== verification/HandlersStorage.thy ===== *)
theory HandlersStorage
  imports Http MediaRules
begin

text \<open>
  The handlers of \<open>internal/http_api/router.go\<close> for storages and their access rows: administrators
  only. A handler takes the request after authentication, with the user it runs for.
\<close>

section \<open>Bodies\<close>

text \<open>\<open>ShouldBindJSON\<close>: the first JSON value of the body, as the members of a struct.\<close>

definition bind_json :: "string \<Rightarrow> (string \<times> string \<times> json) list result" where
  "bind_json body = (case json_first body of None \<Rightarrow> Inl (Err ''invalid body'')
     | Some v \<Rightarrow> (case members v of None \<Rightarrow> Inl (Err ''cannot unmarshal'') | Some ms \<Rightarrow> Inr ms))"

record storage_body =
  sb_type :: string
  sb_creds :: string
  sb_media :: string

definition bind_storage :: "string \<Rightarrow> storage_body result" where
  "bind_storage body = (case bind_json body of Inl e \<Rightarrow> Inl e
     | Inr ms \<Rightarrow> if \<not> string_field_ok (field_of ''type'' ms) then Inl (Err ''cannot unmarshal'')
         else Inr \<lparr>sb_type = string_field (field_of ''type'' ms),
           sb_creds = raw_field (field_of ''credentials'' ms),
           sb_media = raw_field (field_of ''media_convert_configuration'' ms)\<rparr>)"

section \<open>Guards\<close>

definition forbidden :: "response m" where
  "forbidden = reply 403 (PDetail ''forbidden'')"

definition admin_only :: "User \<Rightarrow> response m \<Rightarrow> response m" where
  "admin_only u h = (if \<not> u_admin u then forbidden else h)"

definition with_id :: "ext \<Rightarrow> request \<Rightarrow> string \<Rightarrow> string \<Rightarrow> (uuid \<Rightarrow> response m) \<Rightarrow> response m" where
  "with_id x rq name msg h = (case x_uuid_parse x (rq_param rq name) of
     None \<Rightarrow> reply 400 (PDetail msg) | Some i \<Rightarrow> h i)"

text \<open>\<open>if err != nil\<close> with the handler's own answer, else go on.\<close>

definition on_error :: "'a result \<Rightarrow> (err \<Rightarrow> response m) \<Rightarrow> ('a \<Rightarrow> response m) \<Rightarrow> response m" where
  "on_error r f h = (case r of Inl e \<Rightarrow> f e | Inr v \<Rightarrow> h v)"

definition hide_creds :: "Storage \<Rightarrow> Storage" where
  "hide_creds s = s\<lparr>st_creds := []\<rparr>"

section \<open>Storages\<close>

definition listStorages :: "request \<Rightarrow> User \<Rightarrow> response m" where
  "listStorages rq u = admin_only u
     (case paginate rq of (limit, offset) \<Rightarrow> do {
        r \<leftarrow> ListStorages limit offset;
        on_error r server_error (\<lambda>(items, count).
          reply 200 (PStorages (map hide_creds items) count (pageLinks rq (int count) limit offset)))})"

definition createStorage :: "ext \<Rightarrow> Env \<Rightarrow> request \<Rightarrow> User \<Rightarrow> response m" where
  "createStorage x e rq u = admin_only u
     (on_error (bind_storage (rq_body rq)) (\<lambda>er. reply 400 (PDetail (err_text er))) (\<lambda>b.
        if length (sb_creds b) = 0 then reply 400 (PDetail ''credentials required'')
        else do {
          r \<leftarrow> InsertStorage (sb_type b) (sb_creds b) (sb_media b);
          on_error r server_error (\<lambda>st. do {
            audit x e rq (Some u) ''storage.create'' [''storage_id'', x_uuid_string x (st_id st)];
            reply 200 (PStorage (hide_creds st))})}))"

definition getStorage :: "ext \<Rightarrow> request \<Rightarrow> User \<Rightarrow> response m" where
  "getStorage x rq u = admin_only u (with_id x rq ''storageID'' ''invalid id'' (\<lambda>sid. do {
     r \<leftarrow> GetStorage sid;
     on_error r not_found_or_500 (\<lambda>st. reply 200 (PStorage (hide_creds st)))}))"

definition writeStorage :: "ext \<Rightarrow> Env \<Rightarrow> request \<Rightarrow> User \<Rightarrow> bool \<Rightarrow> response m" where
  "writeStorage x e rq u requireCreds = admin_only u
     (with_id x rq ''storageID'' ''invalid id'' (\<lambda>sid.
      on_error (bind_storage (rq_body rq)) (\<lambda>er. reply 400 (PDetail (err_text er))) (\<lambda>b.
        if requireCreds \<and> length (sb_creds b) = 0 then reply 400 (PDetail ''credentials required'')
        else do {
          r \<leftarrow> GetStorage sid;
          on_error r not_found_or_500 (\<lambda>existing.
            let creds = (if length (sb_creds b) = 0 then st_creds existing else sb_creds b);
                media = (if length (sb_media b) = 0 then st_media_cfg existing else sb_media b);
                stType = (if sb_type b = [] \<and> st_type existing \<noteq> None
                  then ns_str (st_type existing) else sb_type b)
            in do {
              r \<leftarrow> UpdateStorage sid stType creds media;
              on_error r server_error (\<lambda>st. do {
                audit x e rq (Some u) (if requireCreds then ''storage.update'' else ''storage.patch'')
                  [''storage_id'', x_uuid_string x sid];
                reply 200 (PStorage (hide_creds st))})})})))"

definition updateStorage :: "ext \<Rightarrow> Env \<Rightarrow> request \<Rightarrow> User \<Rightarrow> response m" where
  "updateStorage x e rq u = writeStorage x e rq u True"

definition patchStorage :: "ext \<Rightarrow> Env \<Rightarrow> request \<Rightarrow> User \<Rightarrow> response m" where
  "patchStorage x e rq u = writeStorage x e rq u False"

definition deleteStorage :: "ext \<Rightarrow> Env \<Rightarrow> request \<Rightarrow> User \<Rightarrow> response m" where
  "deleteStorage x e rq u = admin_only u (with_id x rq ''storageID'' ''invalid id'' (\<lambda>sid. do {
     r \<leftarrow> DeleteStorage sid;
     on_error r not_found_or_500 (\<lambda>_. do {
       audit x e rq (Some u) ''storage.delete'' [''storage_id'', x_uuid_string x sid];
       reply 204 PNone})}))"

section \<open>Access rows\<close>

definition listStorageUsers :: "ext \<Rightarrow> request \<Rightarrow> User \<Rightarrow> response m" where
  "listStorageUsers x rq u = admin_only u (with_id x rq ''storageID'' ''invalid storage'' (\<lambda>sid. do {
     r \<leftarrow> ListStorageUsers sid;
     on_error r server_error (\<lambda>rows. reply 200 (PStorageUsers rows (length rows)))}))"

text \<open>The \<open>user\<close> member is a UUID in a string; missing or null it is the nil UUID.\<close>

definition uuid_field :: "ext \<Rightarrow> (string \<times> json) list \<Rightarrow> uuid" where
  "uuid_field x vs = foldl (\<lambda>cur (raw, v). case v of
     JStr s \<Rightarrow> (case x_uuid_parse x s of Some i \<Rightarrow> i | None \<Rightarrow> cur) | _ \<Rightarrow> cur) 0 vs"

definition uuid_field_ok :: "ext \<Rightarrow> (string \<times> json) list \<Rightarrow> bool" where
  "uuid_field_ok x vs = list_all (\<lambda>(raw, v). case v of
     JStr s \<Rightarrow> x_uuid_parse x s \<noteq> None | JNull \<Rightarrow> True | _ \<Rightarrow> False) vs"

definition bind_storage_user :: "ext \<Rightarrow> string \<Rightarrow> (uuid \<times> bool \<times> bool) result" where
  "bind_storage_user x body = (case bind_json body of Inl e \<Rightarrow> Inl e
     | Inr ms \<Rightarrow> if \<not> (uuid_field_ok x (field_of ''user'' ms) \<and> bool_field_ok (field_of ''may_read'' ms)
           \<and> bool_field_ok (field_of ''may_write'' ms)) then Inl (Err ''cannot unmarshal'')
         else Inr (uuid_field x (field_of ''user'' ms), bool_field (field_of ''may_read'' ms),
           bool_field (field_of ''may_write'' ms)))"

definition createStorageUser :: "ext \<Rightarrow> Env \<Rightarrow> request \<Rightarrow> User \<Rightarrow> response m" where
  "createStorageUser x e rq u = admin_only u (with_id x rq ''storageID'' ''invalid storage'' (\<lambda>sid.
     on_error (bind_storage_user x (rq_body rq)) (\<lambda>er. reply 400 (PDetail (err_text er)))
       (\<lambda>(userID, mayRead, mayWrite). do {
         r \<leftarrow> InsertStorageUser sid userID mayRead mayWrite (u_id u);
         on_error r (\<lambda>er. reply 400 (PDetail (err_text er))) (\<lambda>row. do {
           audit x e rq (Some u) ''storage_user.create''
             [''storage_id'', x_uuid_string x sid, ''subject_user_id'', x_uuid_string x userID];
           reply 201 (PStorageUser row)})})))"

definition getStorageUser :: "ext \<Rightarrow> request \<Rightarrow> User \<Rightarrow> response m" where
  "getStorageUser x rq u = admin_only u (with_id x rq ''storageID'' ''invalid storage'' (\<lambda>sid.
     with_id x rq ''userRowID'' ''invalid id'' (\<lambda>rid. do {
       r \<leftarrow> GetStorageUser sid rid;
       on_error r (\<lambda>_. reply 404 (PDetail ''not found'')) (\<lambda>row. reply 200 (PStorageUser row))})))"

definition bind_access :: "string \<Rightarrow> (bool option \<times> bool option) result" where
  "bind_access body = (case bind_json body of Inl e \<Rightarrow> Inl e
     | Inr ms \<Rightarrow> if \<not> (bool_field_ok (field_of ''may_read'' ms) \<and> bool_field_ok (field_of ''may_write'' ms))
         then Inl (Err ''cannot unmarshal'')
         else Inr (bool_ptr (field_of ''may_read'' ms), bool_ptr (field_of ''may_write'' ms)))"

definition patchStorageUser :: "ext \<Rightarrow> request \<Rightarrow> User \<Rightarrow> response m" where
  "patchStorageUser x rq u = admin_only u (with_id x rq ''storageID'' ''invalid storage'' (\<lambda>sid.
     with_id x rq ''userRowID'' ''invalid id'' (\<lambda>rid.
     on_error (bind_access (rq_body rq)) (\<lambda>er. reply 400 (PDetail (err_text er)))
       (\<lambda>(mayRead, mayWrite). do {
         r \<leftarrow> UpdateStorageUser sid rid mayRead mayWrite (u_id u);
         on_error r (\<lambda>_. reply 404 (PDetail ''not found'')) (\<lambda>row. reply 200 (PStorageUser row))}))))"

definition deleteStorageUser :: "ext \<Rightarrow> Env \<Rightarrow> request \<Rightarrow> User \<Rightarrow> response m" where
  "deleteStorageUser x e rq u = admin_only u (with_id x rq ''storageID'' ''invalid storage'' (\<lambda>sid.
     with_id x rq ''userRowID'' ''invalid id'' (\<lambda>rid. do {
       r \<leftarrow> DeleteStorageUser sid rid;
       on_error r (\<lambda>_. reply 404 (PDetail ''not found'')) (\<lambda>_. do {
         audit x e rq (Some u) ''storage_user.delete''
           [''storage_id'', x_uuid_string x sid, ''row_id'', x_uuid_string x rid];
         reply 204 PNone})})))"

section \<open>Invariants\<close>

lemma keeps_audit [keeps]: "keeps_all (on_db P) (audit x e rq u a kvs)"
  unfolding audit_def by (intro keeps)

lemma keeps_guards [keeps]:
  "keeps_all I h \<Longrightarrow> keeps_all I (admin_only u h)"
  "(\<And>i. keeps_all I (g i)) \<Longrightarrow> keeps_all I (with_id x rq nm msg g)"
  "(\<And>er. keeps_all I (f er)) \<Longrightarrow> (\<And>v. keeps_all I (k v)) \<Longrightarrow> keeps_all I (on_error r f k)"
  "keeps_all I (server_error er)" "keeps_all I (not_found_or_500 er)"
  "keeps_all I forbidden"
  unfolding admin_only_def with_id_def on_error_def server_error_def not_found_or_500_def forbidden_def
  by (auto intro!: keeps split: option.splits sum.splits)

end
