(* ===== verification/HandlersFiles.thy ===== *)
theory HandlersFiles
  imports HandlersStorage
begin

text \<open>
  The handlers for files, the trash, media and download links
  (\<open>internal/http_api/router.go\<close>, \<open>router_stream_upload.go\<close>).
\<close>

section \<open>Media jobs\<close>

definition maybeEnqueueMedia :: "Env \<Rightarrow> uuid \<Rightarrow> StorageFile option \<Rightarrow> unit m" where
  "maybeEnqueueMedia e storageID fo = (case fo of None \<Rightarrow> ret ()
     | Some f \<Rightarrow>
        if \<not> MediaProcessingEnabled e then ret ()
        else if sf_status f \<noteq> ''PUBLISHED'' \<or> \<not> ShouldEnqueue fo then ret ()
        else do {
          r \<leftarrow> StorageMediaExistsForFile (sf_id f);
          (case r of Inl _ \<Rightarrow> ret () | Inr exists \<Rightarrow>
             if exists then ret () else do {
               _ \<leftarrow> EnqueueMediaProcessing storageID (sf_id f);
               ret ()})})"

section \<open>Files\<close>

definition with_sf :: "ext \<Rightarrow> request \<Rightarrow> (uuid \<Rightarrow> uuid \<Rightarrow> response m) \<Rightarrow> response m" where
  "with_sf x rq h = with_id x rq ''storageID'' ''invalid storage'' (\<lambda>sid.
     with_id x rq ''fileID'' ''invalid file'' (\<lambda>fid. h sid fid))"

definition list_page :: "ext \<Rightarrow> request \<Rightarrow> User \<Rightarrow> bool \<Rightarrow> response m" where
  "list_page x rq u excluded = with_id x rq ''storageID'' ''invalid storage'' (\<lambda>sid.
     case paginate rq of (limit, offset) \<Rightarrow> do {
       r \<leftarrow> ListFiles sid excluded (u_admin u) (u_id u) limit offset;
       on_error r server_error (\<lambda>(items, count).
         reply 200 (PFiles items count (pageLinks rq (int count) limit offset)))})"

definition listFiles :: "ext \<Rightarrow> request \<Rightarrow> User \<Rightarrow> response m" where
  "listFiles x rq u = list_page x rq u False"

definition listTrash :: "ext \<Rightarrow> request \<Rightarrow> User \<Rightarrow> response m" where
  "listTrash x rq u = list_page x rq u True"

definition get_one :: "ext \<Rightarrow> request \<Rightarrow> User \<Rightarrow> bool \<Rightarrow> response m" where
  "get_one x rq u excluded = with_sf x rq (\<lambda>sid fid. do {
     r \<leftarrow> GetFile sid fid excluded (u_admin u) (u_id u);
     on_error r not_found_or_500 (\<lambda>f. reply 200 (PFile (Some f)))})"

definition getFile :: "ext \<Rightarrow> request \<Rightarrow> User \<Rightarrow> response m" where
  "getFile x rq u = get_one x rq u False"

definition getTrashFile :: "ext \<Rightarrow> request \<Rightarrow> User \<Rightarrow> response m" where
  "getTrashFile x rq u = get_one x rq u True"

definition may_modify :: "User \<Rightarrow> StorageFile \<Rightarrow> bool" where
  "may_modify u f \<longleftrightarrow> u_admin u \<or> sf_owner_id f = Some (u_id u)"

record file_patch =
  fp_name :: "string option"
  fp_visibility :: "string option"
  fp_custom :: string
  fp_virtual :: "string option"

definition bind_patch :: "string \<Rightarrow> file_patch result" where
  "bind_patch body = (case bind_json body of Inl e \<Rightarrow> Inl e
     | Inr ms \<Rightarrow> if \<not> list_all (\<lambda>n. string_field_ok (field_of n ms)) [''name'', ''visibility'', ''virtual_path'']
         then Inl (Err ''cannot unmarshal'')
         else Inr \<lparr>fp_name = string_ptr (field_of ''name'' ms),
           fp_visibility = string_ptr (field_of ''visibility'' ms),
           fp_custom = raw_field (field_of ''custom_metadata'' ms),
           fp_virtual = string_ptr (field_of ''virtual_path'' ms)\<rparr>)"

definition patchFile :: "ext \<Rightarrow> Env \<Rightarrow> request \<Rightarrow> User \<Rightarrow> response m" where
  "patchFile x e rq u = with_sf x rq (\<lambda>sid fid. do {
     r \<leftarrow> GetFile sid fid False (u_admin u) (u_id u);
     on_error r not_found_or_500 (\<lambda>f.
       if \<not> may_modify u f then forbidden
       else on_error (bind_patch (rq_body rq)) (\<lambda>er. reply 400 (PDetail (err_text er))) (\<lambda>b. do {
         r \<leftarrow> UpdateFileMeta sid fid (fp_name b) (fp_visibility b) (fp_custom b) (fp_virtual b) (u_id u);
         on_error r server_error (\<lambda>_. do {
           nf \<leftarrow> GetFile sid fid False (u_admin u) (u_id u);
           maybeEnqueueMedia e sid (ok_opt nf);
           reply 200 (PFile (ok_opt nf))})}))})"

definition deleteFile :: "ext \<Rightarrow> Env \<Rightarrow> request \<Rightarrow> User \<Rightarrow> response m" where
  "deleteFile x e rq u = with_sf x rq (\<lambda>sid fid. do {
     r \<leftarrow> GetFile sid fid False (u_admin u) (u_id u);
     on_error r not_found_or_500 (\<lambda>f.
       if \<not> may_modify u f then forbidden
       else do {
         r \<leftarrow> SetFileExcluded sid fid True (u_id u);
         on_error r server_error (\<lambda>_. do {
           audit x e rq (Some u) ''file.soft_delete''
             [''storage_id'', x_uuid_string x sid, ''file_id'', x_uuid_string x fid];
           reply 204 PNone})})})"

text \<open>The object goes first, best effort; a failure to delete it does not stop the row's.\<close>

definition permaDelete :: "ext \<Rightarrow> Env \<Rightarrow> request \<Rightarrow> User \<Rightarrow> response m" where
  "permaDelete x e rq u = with_sf x rq (\<lambda>sid fid. do {
     r \<leftarrow> GetFile sid fid True (u_admin u) (u_id u);
     on_error r not_found_or_500 (\<lambda>f.
       if \<not> may_modify u f then forbidden
       else do {
         r \<leftarrow> GetStorage sid;
         on_error r server_error (\<lambda>st. do {
           (case (storage_backend x e st, sf_real_path f) of
              (Inr be, Some p) \<Rightarrow> do { _ \<leftarrow> Delete be p; ret () }
            | _ \<Rightarrow> ret ());
           r \<leftarrow> PermaDeleteFile sid fid;
           on_error r not_found_or_500 (\<lambda>_. do {
             audit x e rq (Some u) ''file.perma_delete''
               [''storage_id'', x_uuid_string x sid, ''file_id'', x_uuid_string x fid];
             reply 204 PNone})})})})"

section \<open>Media\<close>

definition listMedia :: "ext \<Rightarrow> request \<Rightarrow> User \<Rightarrow> response m" where
  "listMedia x rq u = with_id x rq ''storageID'' ''invalid storage'' (\<lambda>sid. do {
     ok \<leftarrow> StorageUserMayRead sid (u_id u);
     if \<not> or_false ok \<and> \<not> u_admin u then forbidden
     else (case paginate rq of (limit, offset) \<Rightarrow> do {
       r \<leftarrow> ListStorageMedia sid (u_admin u) (u_id u) limit offset;
       on_error r server_error (\<lambda>(items, count).
         reply 200 (PMedias items count (pageLinks rq (int count) limit offset)))})})"

definition getMedia :: "ext \<Rightarrow> request \<Rightarrow> User \<Rightarrow> response m" where
  "getMedia x rq u = with_id x rq ''storageID'' ''invalid storage'' (\<lambda>sid.
     with_id x rq ''mediaID'' ''invalid media id'' (\<lambda>mid. do {
       r \<leftarrow> GetStorageMedia sid mid (u_admin u) (u_id u);
       on_error r not_found_or_500 (\<lambda>md. reply 200 (PMedia md))}))"

section \<open>Download links\<close>

text \<open>The error of this binding is dropped: a body that does not parse leaves the default.\<close>

definition force_download :: "string \<Rightarrow> bool" where
  "force_download body = (case bind_json body of Inl _ \<Rightarrow> True
     | Inr ms \<Rightarrow> (case bool_ptr (field_of ''force_download'' ms) of None \<Rightarrow> True | Some b \<Rightarrow> b))"

definition second :: int where "second = 1000000000"

definition raw_url :: "ext \<Rightarrow> Env \<Rightarrow> uuid \<Rightarrow> uuid \<Rightarrow> uuid \<Rightarrow> string" where
  "raw_url x e sid fid did = TrimRight (PublicBaseURL e) ''/'' @ ''/storages/'' @ x_uuid_string x sid
     @ ''/files/'' @ x_uuid_string x fid @ ''/raw/'' @ x_uuid_string x did"

definition createDownload :: "ext \<Rightarrow> Env \<Rightarrow> request \<Rightarrow> User \<Rightarrow> response m" where
  "createDownload x e rq u = with_sf x rq (\<lambda>sid fid. do {
     r \<leftarrow> GetFile sid fid False (u_admin u) (u_id u);
     on_error r not_found_or_500 (\<lambda>f. do {
       let force = force_download (rq_body rq);
       let sec = SecondsFromEnv x (sf_size f) (DownloadRatio e);
       t \<leftarrow> now;
       let row = \<lparr>dl_id = 0, dl_url = None, dl_force = force, dl_created_at = zero_time,
         dl_expires_at = t + wrap64 (sec * second), dl_owner = Some (u_id u), dl_file = sf_id f\<rparr>;
       r \<leftarrow> InsertDownload row;
       on_error r server_error (\<lambda>row. do {
         r \<leftarrow> GetStorage sid;
         on_error r server_error (\<lambda>st.
           on_error (storage_backend x e st) server_error (\<lambda>be.
             let ct = (case sf_type f of Some ty \<Rightarrow> mt_mime ty | None \<Rightarrow> []);
                 url = (if ns_str (st_type st) = ''AMAZON_S3''
                   then DownloadURL (x_presign x) be (ns_str (sf_real_path f)) (ns_str (sf_virt_path f)) ct
                     (wrap64 (sec * second)) force
                   else Inr (raw_url x e sid fid (dl_id row)))
             in on_error url server_error (\<lambda>url. do {
               _ \<leftarrow> UpdateDownloadURL (dl_id row) url;
               reply 201 (PDownload (row\<lparr>dl_url := Some url\<rparr>))})))})})})"

definition redirectIfExternalDownloadURL :: "FileDownload \<Rightarrow> string option" where
  "redirectIfExternalDownloadURL dl = (case dl_url dl of None \<Rightarrow> None
     | Some url \<Rightarrow> if \<not> HasPrefix url ''http://'' \<and> \<not> HasPrefix url ''https://'' then None else Some url)"

definition streamDownloadAttachmentName :: "StorageFile \<Rightarrow> string" where
  "streamDownloadAttachmentName f = (case sf_name f of Some n \<Rightarrow> if n \<noteq> [] then n else ''file''
     | None \<Rightarrow> ''file'')"

text \<open>\<open>c.FileAttachment\<close>: the file at a local path, 404 when there is none.\<close>

definition file_attachment :: "string \<Rightarrow> string \<Rightarrow> response m" where
  "file_attachment p name = do {
     r \<leftarrow> blob_op (\<lambda>b. (case b (LocalPath p) of None \<Rightarrow> Inl ErrNoRows | Some d \<Rightarrow> Inr (blob_bytes d), b));
     on_error r (\<lambda>_. reply 404 PNone) (\<lambda>d. reply 200 (PAttachment name d))}"

definition streamDownloadLoadContext ::
    "User \<Rightarrow> uuid \<Rightarrow> uuid \<Rightarrow> uuid \<Rightarrow> (FileDownload \<Rightarrow> StorageFile \<Rightarrow> Storage \<Rightarrow> response m) \<Rightarrow> response m" where
  "streamDownloadLoadContext u did sid fid h = do {
     r \<leftarrow> GetValidDownload did (u_id u);
     on_error r (\<lambda>_. reply 404 (PDetail ''not found'')) (\<lambda>dl. do {
       r \<leftarrow> GetFile sid fid False (u_admin u) (u_id u);
       on_error r (\<lambda>_. reply 404 (PDetail ''not found'')) (\<lambda>f.
         if sf_id f \<noteq> dl_file dl then reply 404 (PDetail ''not found'')
         else do {
           r \<leftarrow> GetStorage sid;
           on_error r server_error (\<lambda>st. h dl f st)})})}"

definition streamDownloadParseIDs :: "ext \<Rightarrow> request \<Rightarrow> (uuid \<Rightarrow> uuid \<Rightarrow> uuid \<Rightarrow> response m) \<Rightarrow> response m" where
  "streamDownloadParseIDs x rq h = with_id x rq ''downloadID'' ''invalid download id'' (\<lambda>did.
     with_sf x rq (\<lambda>sid fid. h did sid fid))"

definition streamDownload :: "ext \<Rightarrow> Env \<Rightarrow> request \<Rightarrow> User \<Rightarrow> response m" where
  "streamDownload x e rq u = streamDownloadParseIDs x rq (\<lambda>did sid fid.
     streamDownloadLoadContext u did sid fid (\<lambda>dl f st.
       case redirectIfExternalDownloadURL dl of Some url \<Rightarrow> reply 302 (PRedirect url)
       | None \<Rightarrow> (case sf_real_path f of None \<Rightarrow> reply 404 (PDetail ''no path'')
         | Some rp \<Rightarrow> on_error (storage_backend x e st) server_error (\<lambda>be.
             on_error (DownloadURL (x_presign x) be rp [] [] 0 (dl_force dl)) server_error (\<lambda>p.
               file_attachment p (streamDownloadAttachmentName f))))))"

section \<open>Invariants\<close>

lemma keeps_with_sf [keeps]:
  "(\<And>s f. keeps_all I (h s f)) \<Longrightarrow> keeps_all I (with_sf x rq h)"
  unfolding with_sf_def by (intro keeps)

end
