(* ===== verification/HandlersUpload.thy ===== *)
theory HandlersUpload
  imports HandlersFiles
begin

text \<open>
  Uploads (\<open>internal/http_api/router.go\<close>, \<open>router_stream_upload.go\<close>, \<open>router_upload_cleanup.go\<close>): a row
  is inserted as UPLOADING, the bytes are put, the row is published; a failure on the way deletes the
  bytes and the row.
\<close>

section \<open>Random signature keys\<close>

text \<open>\<open>randomSig\<close>: 48 random bytes (three draws of the source of randomness) in URL-safe base64.\<close>

definition b64_char :: "nat \<Rightarrow> char" where
  "b64_char n = (if n < 26 then char_of (n + 65) else if n < 52 then char_of (n + 71)
     else if n < 62 then char_of (n - 4) else if n = 62 then CHR ''-'' else CHR ''_'')"

fun RawURLEncoding :: "nat list \<Rightarrow> string" where
  "RawURLEncoding (a # b # c # r) =
     [b64_char (a div 4), b64_char (a mod 4 * 16 + b div 16), b64_char (b mod 16 * 4 + c div 64),
      b64_char (c mod 64)] @ RawURLEncoding r"
| "RawURLEncoding [a, b] =
     [b64_char (a div 4), b64_char (a mod 4 * 16 + b div 16), b64_char (b mod 16 * 4)]"
| "RawURLEncoding [a] = [b64_char (a div 4), b64_char (a mod 4 * 16)]"
| "RawURLEncoding [] = []"

definition word_bytes :: "uuid \<Rightarrow> nat list" where
  "word_bytes w = map (\<lambda>i. unat (take_bit 8 (drop_bit (8 * i) w))) [0..<16]"

definition randomSig :: "string m" where
  "randomSig = do {
     a \<leftarrow> new_uuid; b \<leftarrow> new_uuid; c \<leftarrow> new_uuid;
     let s = RawURLEncoding (word_bytes a @ word_bytes b @ word_bytes c);
     ret (if length s > 64 then take 64 s else s)}"

section \<open>Rolling back\<close>

definition rollbackUploadingFile :: "ext \<Rightarrow> Env \<Rightarrow> Storage \<Rightarrow> StorageFile \<Rightarrow> unit m" where
  "rollbackUploadingFile x e st frow = do {
     (if ns_str (sf_real_path frow) \<noteq> [] then
        (case storage_backend x e st of
           Inr be \<Rightarrow> do { _ \<leftarrow> Delete be (ns_str (sf_real_path frow)); ret () }
         | Inl _ \<Rightarrow> ret ())
      else ret ());
     _ \<leftarrow> DeleteFailedUploadingFile (sf_storage frow) (sf_id frow);
     ret ()}"

section \<open>Rows of uploads\<close>

definition blank_file :: StorageFile where
  "blank_file = \<lparr>sf_id = 0, sf_created_at = zero_time, sf_updated_at = None, sf_sig = [], sf_storage = 0,
     sf_owner_id = None, sf_name = None, sf_status = [], sf_visibility = [], sf_size = 0, sf_hash = None,
     sf_type_id = None, sf_ext = None, sf_exif = [], sf_custom = [], sf_origin = [], sf_orig_path = None,
     sf_real_path = None, sf_virt_path = None, sf_available = False, sf_excluded = False,
     sf_created_by_id = None, sf_updated_by_id = None, sf_owner = None, sf_type = None,
     sf_created_by = None, sf_updated_by = None\<rparr>"

definition local_upload_row :: "uuid \<Rightarrow> string \<Rightarrow> uuid \<Rightarrow> uuid \<Rightarrow> string \<Rightarrow> string \<Rightarrow> string \<Rightarrow> uuid option
    \<Rightarrow> StorageFile" where
  "local_upload_row i sig sid owner filename ext vpath mimeID =
     blank_file\<lparr>sf_id := i, sf_sig := sig, sf_storage := sid, sf_owner_id := Some owner,
       sf_name := Some filename, sf_status := ''UPLOADING'', sf_visibility := ''SYSTEM'', sf_size := 0,
       sf_ext := nullString ext, sf_origin := ''LOCAL'', sf_virt_path := Some vpath,
       sf_real_path := Some (TrimPrefix vpath ''/''), sf_created_by_id := Some owner,
       sf_type_id := mimeID\<rparr>"

definition url_upload_row :: "uuid \<Rightarrow> string \<Rightarrow> uuid \<Rightarrow> uuid \<Rightarrow> string \<Rightarrow> string \<Rightarrow> string \<Rightarrow> uuid option
    \<Rightarrow> StorageFile" where
  "url_upload_row i sig sid owner sourceURL ext vpath mimeID =
     blank_file\<lparr>sf_id := i, sf_sig := sig, sf_storage := sid, sf_owner_id := Some owner,
       sf_status := ''UPLOADING'', sf_visibility := ''SYSTEM'', sf_size := 0, sf_origin := ''WEB'',
       sf_orig_path := Some sourceURL, sf_virt_path := Some vpath,
       sf_real_path := Some (TrimPrefix vpath ''/''), sf_created_by_id := Some owner,
       sf_type_id := mimeID, sf_ext := Some ext\<rparr>"

definition mime_id :: "MimeType result \<Rightarrow> uuid option" where
  "mime_id r = (case r of Inl _ \<Rightarrow> None | Inr mt \<Rightarrow> Some (mt_id mt))"

section \<open>The last steps\<close>

text \<open>
  What both uploads do once the row is there: choose the backend, put the bytes, publish the row,
  and enqueue the file for media processing; on an error, roll back and answer 500.
\<close>

definition finish_upload :: "ext \<Rightarrow> Env \<Rightarrow> Storage \<Rightarrow> StorageFile \<Rightarrow> uuid \<Rightarrow> User \<Rightarrow> reader \<Rightarrow> int \<Rightarrow> int
    \<Rightarrow> string \<Rightarrow> response m" where
  "finish_upload x e st frow sid u body putSize size' ct =
     (let fail = (\<lambda>er. do { rollbackUploadingFile x e st frow; server_error er });
          real = ns_str (sf_real_path frow); vpath = ns_str (sf_virt_path frow) in
      on_error (storage_backend x e st) fail (\<lambda>be. do {
        r \<leftarrow> Put be real body putSize ct;
        on_error r fail (\<lambda>_. do {
          r \<leftarrow> UpdateFilePathsAndStatus (sf_id frow) ''PUBLISHED'' size' real vpath [] (sf_type_id frow);
          on_error r fail (\<lambda>_. do {
            out \<leftarrow> GetFile sid (sf_id frow) False True (u_id u);
            maybeEnqueueMedia e sid (ok_opt out);
            reply 201 (PFile (ok_opt out))})})}))"

definition content_type :: "string \<Rightarrow> string" where
  "content_type ct = (if ct = [] then ''application/octet-stream'' else ct)"

section \<open>From a form\<close>

definition extension_of :: "string \<Rightarrow> string" where
  "extension_of filename = (case after_last (CHR ''.'') filename of None \<Rightarrow> [] | Some s \<Rightarrow> ToLower s)"

definition uploadMultipart :: "ext \<Rightarrow> Env \<Rightarrow> request \<Rightarrow> User \<Rightarrow> response m" where
  "uploadMultipart x e rq u = with_id x rq ''storageID'' ''invalid storage'' (\<lambda>sid. do {
     ok \<leftarrow> StorageUserMayWrite sid (u_id u);
     if \<not> or_false ok \<and> \<not> u_admin u then forbidden
     else do {
       r \<leftarrow> GetStorage sid;
       on_error r (\<lambda>_. reply 404 (PDetail ''storage not found'')) (\<lambda>st.
         case rq_file rq of None \<Rightarrow> reply 400 (PDetail ''file required'')
         | Some fh \<Rightarrow> (case uf_open_err fh of Some er \<Rightarrow> reply 400 (PDetail (err_text er))
           | None \<Rightarrow> do {
               i \<leftarrow> new_uuid;
               sig \<leftarrow> randomSig;
               let ext = extension_of (uf_name fh);
               mt \<leftarrow> FindMimeByExtension ext;
               let vpath = ''/'' @ x_uuid_string x i @ ''/'' @ uf_name fh;
               let frow = local_upload_row i sig sid (u_id u) (uf_name fh) ext vpath (mime_id mt);
               r \<leftarrow> InsertFile frow;
               on_error r server_error (\<lambda>_.
                 finish_upload x e st frow sid u (Reader (uf_bytes fh) None)
                   (int (length (uf_bytes fh))) (int (length (uf_bytes fh))) (content_type (uf_type fh)))}))}})"

section \<open>From a URL\<close>

definition extensionFromSourceURL :: "string \<Rightarrow> string" where
  "extensionFromSourceURL sourceURL = (case after_last (CHR ''.'') sourceURL of
     None \<Rightarrow> ''bin''
   | Some s \<Rightarrow> (let ext = ToLower (TrimSpace s) in if length ext > 16 then take 16 ext else ext))"

definition newUploadingFileFromURL ::
    "ext \<Rightarrow> User \<Rightarrow> uuid \<Rightarrow> string \<Rightarrow> string \<Rightarrow> (StorageFile \<Rightarrow> response m) \<Rightarrow> response m" where
  "newUploadingFileFromURL x u sid sourceURL ext h = do {
     i \<leftarrow> new_uuid;
     sig \<leftarrow> randomSig;
     mt \<leftarrow> FindMimeByExtension ext;
     let vpath = ''/'' @ x_uuid_string x i @ ''/file'';
     let frow = url_upload_row i sig sid (u_id u) sourceURL ext vpath (mime_id mt);
     r \<leftarrow> InsertFile frow;
     on_error r server_error (\<lambda>_. h frow)}"

definition putStreamURLUpload ::
    "ext \<Rightarrow> Env \<Rightarrow> Storage \<Rightarrow> StorageFile \<Rightarrow> int \<Rightarrow> string \<Rightarrow> source \<Rightarrow> uuid \<Rightarrow> User \<Rightarrow> response m" where
  "putStreamURLUpload x e st frow status ct body sid u =
     (if status \<noteq> 200 then do {
        rollbackUploadingFile x e st frow;
        reply 502 (PDetail ''failed to fetch url'')}
      else (case capped_copy (URLFetchMaxBytes e) body of (d, er, n) \<Rightarrow>
        finish_upload x e st frow sid u (Reader d er) (-1) n (content_type ct)))"

definition bind_url :: "string \<Rightarrow> string" where
  "bind_url body = (case bind_json body of Inl _ \<Rightarrow> []
     | Inr ms \<Rightarrow> if string_field_ok (field_of ''url'' ms) then string_field (field_of ''url'' ms) else [])"

definition uploadFromURL :: "ext \<Rightarrow> Env \<Rightarrow> request \<Rightarrow> User \<Rightarrow> response m" where
  "uploadFromURL x e rq u = with_id x rq ''storageID'' ''invalid storage'' (\<lambda>sid. do {
     ok \<leftarrow> StorageUserMayWrite sid (u_id u);
     if \<not> or_false ok \<and> \<not> u_admin u then forbidden
     else (let url = bind_url (rq_body rq) in
       if url = [] then reply 400 (PDetail ''url required'')
       else do {
         r \<leftarrow> GetStorage sid;
         on_error r (\<lambda>_. reply 404 (PDetail ''storage not found'')) (\<lambda>st.
           newUploadingFileFromURL x u sid url (extensionFromSourceURL url) (\<lambda>frow.
             case snd (Get x e url) of
               Inl er \<Rightarrow> do {
                 rollbackUploadingFile x e st frow;
                 (if er = ErrURLNotAllowed then reply 400 (PDetail ''url not allowed'')
                  else reply 502 (PDetail ''failed to fetch url''))}
             | Inr (Answer status ct body) \<Rightarrow> putStreamURLUpload x e st frow status ct body sid u
             | Inr (Redirect loc) \<Rightarrow> reply 502 (PDetail ''failed to fetch url'')))})})"

section \<open>Invariants\<close>

lemma keeps_randomSig [keeps]: "keeps_all (on_db P) randomSig"
  unfolding randomSig_def Let_def by (intro keeps)

lemma keeps_answer [keeps]:
  "(\<And>l. keeps_all I (f l)) \<Longrightarrow> (\<And>s ct b. keeps_all I (g s ct b)) \<Longrightarrow> keeps_all I (case_answer f g a)"
  by (cases a) simp_all

text \<open>A signature key always fits its column: the guard of \<open>randomSig\<close> never cuts it.\<close>

lemma length_b64: "length (RawURLEncoding bs) = (4 * length bs + 2) div 3"
  by (induction bs rule: RawURLEncoding.induct) simp_all

end
