(* ===== verification/Router.thy ===== *)
theory Router
  imports HandlersUpload
begin

text \<open>
  \<open>Router.Register\<close> and the middleware chain of \<open>internal/http_api/router.go\<close>: which handler serves a
  route, rate limiting by client address, and the authentication every route but the health check
  goes through. \<open>gin\<close> matches paths to routes.
\<close>

section \<open>Authentication\<close>

definition unauthorized :: "string \<Rightarrow> response" where
  "unauthorized msg = \<lparr>rs_status = 401, rs_body = PDetail msg\<rparr>"

definition authenticateMiddleware :: "ext \<Rightarrow> string \<Rightarrow> string \<Rightarrow> (response + User) m" where
  "authenticateMiddleware x base h =
     (if h = [] then ret (Inl (unauthorized ''Authentication credentials were not provided.''))
      else (case SplitN2 (CHR '' '') h of
        [sch, tok] \<Rightarrow>
          (let scheme = TrimSpace sch in
           if \<not> EqualFold scheme ''Token'' \<and> \<not> EqualFold scheme ''Bearer''
           then ret (Inl (unauthorized ''Invalid token header.''))
           else do {
             r \<leftarrow> Authenticate x base (TrimSpace tok);
             ret (case r of Inl _ \<Rightarrow> Inl (unauthorized ''Invalid token.'') | Inr u \<Rightarrow> Inr u)})
      | _ \<Rightarrow> ret (Inl (unauthorized ''Invalid token header.''))))"

section \<open>Routes\<close>

datatype route =
    ListStoragesR | CreateStorageR | GetStorageR | UpdateStorageR | PatchStorageR | DeleteStorageR
  | ListFilesR | GetFileR | PatchFileR | DeleteFileR | CreateDownloadR
  | ListTrashR | GetTrashFileR | PermaDeleteR
  | ListStorageUsersR | CreateStorageUserR | GetStorageUserR | PatchStorageUserR | DeleteStorageUserR
  | UploadMultipartR | UploadFromURLR | StreamDownloadR | ListMediaR | GetMediaR

definition route_table :: "(string \<times> string \<times> route) list" where
  "route_table =
    [(''GET'', ''/storages'', ListStoragesR), (''POST'', ''/storages'', CreateStorageR),
     (''GET'', ''/storages/:storageID'', GetStorageR), (''PUT'', ''/storages/:storageID'', UpdateStorageR),
     (''PATCH'', ''/storages/:storageID'', PatchStorageR),
     (''DELETE'', ''/storages/:storageID'', DeleteStorageR),
     (''GET'', ''/storages/:storageID/files'', ListFilesR),
     (''GET'', ''/storages/:storageID/files/:fileID'', GetFileR),
     (''PATCH'', ''/storages/:storageID/files/:fileID'', PatchFileR),
     (''DELETE'', ''/storages/:storageID/files/:fileID'', DeleteFileR),
     (''POST'', ''/storages/:storageID/files/:fileID/download'', CreateDownloadR),
     (''GET'', ''/storages/:storageID/trash'', ListTrashR),
     (''GET'', ''/storages/:storageID/trash/:fileID'', GetTrashFileR),
     (''DELETE'', ''/storages/:storageID/trash/:fileID'', PermaDeleteR),
     (''GET'', ''/storages/:storageID/users'', ListStorageUsersR),
     (''POST'', ''/storages/:storageID/users'', CreateStorageUserR),
     (''GET'', ''/storages/:storageID/users/:userRowID'', GetStorageUserR),
     (''PATCH'', ''/storages/:storageID/users/:userRowID'', PatchStorageUserR),
     (''DELETE'', ''/storages/:storageID/users/:userRowID'', DeleteStorageUserR),
     (''POST'', ''/storages/:storageID/upload-from-file'', UploadMultipartR),
     (''POST'', ''/storages/:storageID/upload-from-url'', UploadFromURLR),
     (''GET'', ''/storages/:storageID/files/:fileID/raw/:downloadID'', StreamDownloadR),
     (''GET'', ''/storages/:storageID/media'', ListMediaR),
     (''GET'', ''/storages/:storageID/media/:mediaID'', GetMediaR)]"

fun handler :: "ext \<Rightarrow> Env \<Rightarrow> route \<Rightarrow> request \<Rightarrow> User \<Rightarrow> response m" where
  "handler x e ListStoragesR rq u = listStorages rq u"
| "handler x e CreateStorageR rq u = createStorage x e rq u"
| "handler x e GetStorageR rq u = getStorage x rq u"
| "handler x e UpdateStorageR rq u = updateStorage x e rq u"
| "handler x e PatchStorageR rq u = patchStorage x e rq u"
| "handler x e DeleteStorageR rq u = deleteStorage x e rq u"
| "handler x e ListFilesR rq u = listFiles x rq u"
| "handler x e GetFileR rq u = getFile x rq u"
| "handler x e PatchFileR rq u = patchFile x e rq u"
| "handler x e DeleteFileR rq u = deleteFile x e rq u"
| "handler x e CreateDownloadR rq u = createDownload x e rq u"
| "handler x e ListTrashR rq u = listTrash x rq u"
| "handler x e GetTrashFileR rq u = getTrashFile x rq u"
| "handler x e PermaDeleteR rq u = permaDelete x e rq u"
| "handler x e ListStorageUsersR rq u = listStorageUsers x rq u"
| "handler x e CreateStorageUserR rq u = createStorageUser x e rq u"
| "handler x e GetStorageUserR rq u = getStorageUser x rq u"
| "handler x e PatchStorageUserR rq u = patchStorageUser x rq u"
| "handler x e DeleteStorageUserR rq u = deleteStorageUser x e rq u"
| "handler x e UploadMultipartR rq u = uploadMultipart x e rq u"
| "handler x e UploadFromURLR rq u = uploadFromURL x e rq u"
| "handler x e StreamDownloadR rq u = streamDownload x e rq u"
| "handler x e ListMediaR rq u = listMedia x rq u"
| "handler x e GetMediaR rq u = getMedia x rq u"

text \<open>A request once the rate limiters have let it through.\<close>

definition serve_route :: "ext \<Rightarrow> Env \<Rightarrow> route \<Rightarrow> request \<Rightarrow> response m" where
  "serve_route x e r rq = do {
     a \<leftarrow> authenticateMiddleware x (NewClient_base (AuthHost e)) (rq_auth rq);
     (case a of Inl resp \<Rightarrow> ret resp | Inr u \<Rightarrow> handler x e r rq u)}"

section \<open>The whole chain\<close>

text \<open>The limiters of the router, and the bucket implementation they run on.\<close>

record 'l limiters =
  global_rl :: "'l ipRateLimiter"
  url_rl :: "'l ipRateLimiter"

record 'l buckets =
  bk_global :: 'l
  bk_url :: 'l
  bk_allow :: "int \<Rightarrow> 'l \<Rightarrow> bool \<times> 'l"
  bk_pick :: "string list \<Rightarrow> string"

definition too_many :: response where
  "too_many = \<lparr>rs_status = 429, rs_body = PDetail ''rate limit exceeded''\<rparr>"

text \<open>
  The global limiter comes before authentication, the limiter of upload-from-url after it.
\<close>

definition serve :: "ext \<Rightarrow> Env \<Rightarrow> 'l buckets \<Rightarrow> route \<Rightarrow> request \<Rightarrow> 'l limiters \<times> world
    \<Rightarrow> response \<times> 'l limiters \<times> world" where
  "serve x e b r rq s = (case s of (ls, w) \<Rightarrow>
     (case allow (bk_global b) (bk_allow b) (bk_pick b) (wclock w) (rq_client_ip rq) (global_rl ls) of
       (ok, g) \<Rightarrow>
         (let ls = ls\<lparr>global_rl := g\<rparr> in
          case rateLimitMiddleware ok of Some _ \<Rightarrow> (too_many, ls, w)
          | None \<Rightarrow>
            (case run (authenticateMiddleware x (NewClient_base (AuthHost e)) (rq_auth rq)) w of
               (Inl resp, w) \<Rightarrow> (resp, ls, w)
             | (Inr u, w) \<Rightarrow>
                 if r \<noteq> UploadFromURLR then
                   (case run (handler x e r rq u) w of (resp, w) \<Rightarrow> (resp, ls, w))
                 else
                   (case allow (bk_url b) (bk_allow b) (bk_pick b) (wclock w) (rq_client_ip rq) (url_rl ls) of
                     (ok, g) \<Rightarrow>
                       (let ls = ls\<lparr>url_rl := g\<rparr> in
                        case rateLimitMiddleware ok of Some _ \<Rightarrow> (too_many, ls, w)
                        | None \<Rightarrow> (case run (handler x e r rq u) w of (resp, w) \<Rightarrow> (resp, ls, w))))))))"

end
