(* ===== verification/Requests.thy ===== *)
theory Requests
  imports Router
begin

text \<open>
  What requests do to the world, in terms of the operations they call. \<open>world_frame\<close> is a predicate
  on worlds that reads, audit records, calls to object stores and draws of random values keep;
  \<open>request_ops\<close> asks in addition that the operations of \<open>internal/data\<close> that requests use, and the
  authentication, keep it: then every handler and the middleware keep it. Its instances are the
  integrity of the database (below), the types of its rows and the refinement of the worker pool.
\<close>

section \<open>Predicates that only the database matters to\<close>

locale world_frame =
  fixes W :: "world \<Rightarrow> bool"
  assumes faults: "W w \<Longrightarrow> W (w\<lparr>wfaults := fs\<rparr>)"
    and audited: "W w \<Longrightarrow> W (w\<lparr>waudit := a\<rparr>)"
    and stored: "W w \<Longrightarrow> W (w\<lparr>wblobs := b\<rparr>)"
    and drawn: "W w \<Longrightarrow> W (w\<lparr>wdrawn := Suc (wdrawn w)\<rparr>)"
begin

lemma reading: "reads m \<Longrightarrow> keeps_all W m"
  unfolding keeps_all_def reads_def by (metis faults)

lemma drawing: "keeps_all W new_uuid" "keeps_all W now" "keeps_all W randomSig"
proof -
  show d: "keeps_all W new_uuid" and "keeps_all W now"
    by (simp_all add: keeps_all_def drawn)
  show "keeps_all W randomSig"
    unfolding randomSig_def Let_def by (intro keeps_bind keeps_return d)
qed

lemma next_fault: "run next_fault w = (f, w') \<Longrightarrow> W w \<Longrightarrow> W w'"
  by (auto simp: next_fault_def faults split: list.splits)

lemma blobs: "keeps_all W (blob_op q)"
  by (auto simp: keeps_all_def blob_op_def intro: stored next_fault split: prod.splits option.splits)

lemma auditing: "keeps_all W (audit x e rq u a kvs)"
  unfolding audit_def by (intro keeps) (simp add: keeps_all_def audited)

lemmas frame = drawing blobs auditing

end

lemma on_db_frame: "world_frame (on_db P)"
  by unfold_locales (simp_all add: on_db_def)

section \<open>The operations of requests\<close>

locale request_ops = world_frame +
  assumes storage_ops: "keeps_all W (InsertStorage tp cr md)" "keeps_all W (UpdateStorage i tp cr md)"
      "keeps_all W (DeleteStorage i)"
    and access_ops: "keeps_all W (InsertStorageUser i j r wr act)"
      "keeps_all W (UpdateStorageUser i j r' wr' act)" "keeps_all W (DeleteStorageUser i j)"
    and file_ops: "keeps_all W (UpdateFileMeta s i n v c p act)" "keeps_all W (SetFileExcluded s i exc act)"
      "keeps_all W (DeleteFailedUploadingFile s i)" "keeps_all W (PermaDeleteFile s i)"
      "keeps_all W (UpdateFilePathsAndStatus i ''PUBLISHED'' z rp vp [] mt)"
    and download_ops: "keeps_all W (InsertDownload dl)" "keeps_all W (UpdateDownloadURL i url)"
    and upload_rows: "keeps_all W (InsertFile (local_upload_row i sg s j nm ext vp mt))"
      "keeps_all W (InsertFile (url_upload_row i sg s j nm ext vp mt))"
    and enqueue_op: "keeps_all W (EnqueueMediaProcessing s i)"
    and login: "keeps_all W (Authenticate x base tok)"
begin

lemma enqueued: "keeps_all W (maybeEnqueueMedia e s f)"
  unfolding maybeEnqueueMedia_def by (intro keeps enqueue_op reading media_reads)+

lemmas ops = frame storage_ops access_ops file_ops download_ops upload_rows enqueued login

lemma storage_handlers:
  "keeps_all W (listStorages rq u)" "keeps_all W (createStorage x e rq u)"
  "keeps_all W (getStorage x rq u)" "keeps_all W (writeStorage x e rq u c)"
  "keeps_all W (deleteStorage x e rq u)" "keeps_all W (listStorageUsers x rq u)"
  "keeps_all W (createStorageUser x e rq u)" "keeps_all W (getStorageUser x rq u)"
  "keeps_all W (patchStorageUser x rq u)" "keeps_all W (deleteStorageUser x e rq u)"
  unfolding listStorages_def createStorage_def getStorage_def writeStorage_def deleteStorage_def
    listStorageUsers_def createStorageUser_def getStorageUser_def patchStorageUser_def
    deleteStorageUser_def Let_def
  by (intro keeps ops reading data_reads)+

lemma file_handlers:
  "keeps_all W (list_page x rq u exc)" "keeps_all W (get_one x rq u exc)"
  "keeps_all W (patchFile x e rq u)" "keeps_all W (deleteFile x e rq u)"
  "keeps_all W (permaDelete x e rq u)" "keeps_all W (listMedia x rq u)"
  "keeps_all W (getMedia x rq u)" "keeps_all W (createDownload x e rq u)"
  "keeps_all W (streamDownload x e rq u)"
  unfolding list_page_def get_one_def patchFile_def deleteFile_def permaDelete_def listMedia_def
    getMedia_def createDownload_def streamDownload_def streamDownloadParseIDs_def streamDownloadLoadContext_def
    Delete_def file_attachment_def Let_def
  by (intro keeps ops reading data_reads file_reads media_reads)+

lemma rolled_back: "keeps_all W (rollbackUploadingFile x e st f)"
  unfolding rollbackUploadingFile_def Delete_def by (intro keeps ops)

lemma finished: "keeps_all W (finish_upload x e st f s u body ps sz ct)"
  unfolding finish_upload_def Put_def Let_def by (intro keeps ops rolled_back reading file_reads)

lemma upload_handlers:
  "keeps_all W (uploadMultipart x e rq u)" "keeps_all W (uploadFromURL x e rq u)"
  unfolding uploadMultipart_def uploadFromURL_def newUploadingFileFromURL_def putStreamURLUpload_def Let_def
  by (intro keeps ops rolled_back finished reading data_reads file_reads)+

lemma handled: "keeps_all W (handler x e rt rq u)"
  by (cases rt)
    (simp_all add: storage_handlers file_handlers upload_handlers updateStorage_def patchStorage_def
      listFiles_def listTrash_def getFile_def getTrashFile_def)

lemma authenticated: "keeps_all W (authenticateMiddleware x base h)"
  unfolding authenticateMiddleware_def Let_def
  by (cases "SplitN2 (CHR '' '') h"; cases "tl (SplitN2 (CHR '' '') h)")
    (auto intro!: keeps login split: list.splits)

lemma route_served: "keeps_all W (serve_route x e rt rq)"
  unfolding serve_route_def by (intro keeps handled authenticated)

lemma served:
  assumes "W w" and "serve x e b rt rq (ls, w) = (resp, ls', w')"
  shows "W w'"
proof -
  obtain r w1 where a: "run (authenticateMiddleware x (NewClient_base (AuthHost e)) (rq_auth rq)) w = (r, w1)"
    by force
  have w1: "W w1" using keeps_allD[OF authenticated assms(1) a] .
  have "run (Router.handler x e rt rq us) w1 = (q, w2) \<Longrightarrow> W w2" for us q w2
    using keeps_allD[OF handled w1] .
  with assms a w1 show ?thesis
    by (auto simp: serve_def Let_def simp del: handler.simps split: option.splits sum.splits if_splits prod.splits)
qed

end

section \<open>Integrity\<close>

interpretation integrity: request_ops "on_db db_ok"
  by (rule request_ops.intro[OF on_db_frame]) (unfold_locales; intro keeps)

end
