(* ===== verification/MediaProc.thy ===== *)
theory MediaProc
  imports Ffprobe JsonText Config
begin

text \<open>
  \<open>internal/media_processor\<close>: what one media job does. Image codecs, EXIF decoding, temporary
  files and the ffprobe command are external (\<open>mext\<close>). A panic of an image codec unwinds
  like an error (the transaction is rolled back by the deferred call) up to the worker, which turns
  it into an error.
\<close>

section \<open>External code\<close>

datatype 'a call = Returns 'a | Fails err | Panics string

record image =
  im_w :: int
  im_h :: int
  im_data :: string

text \<open>
  An EXIF tag read as a string, as its first integer, as its first fraction; the tags of an image with
  their names, which are distinct.
\<close>

record tag =
  tg_string :: "string option"
  tg_int :: "int option"
  tg_rat :: "(int \<times> int) option"

type_synonym exif = "(string \<times> tag) list"

text \<open>
  \<open>m_temp\<close> is the error of writing a temporary copy, if any; \<open>m_ffprobe\<close> what ffprobe prints about a
  file, or \<open>None\<close> when it fails or takes more than a minute.
\<close>

record mext =
  m_exif :: "string \<Rightarrow> exif option"
  m_decode :: "string \<Rightarrow> image call"
  m_resize :: "image \<Rightarrow> int \<Rightarrow> int \<Rightarrow> image"
  m_fit :: "image \<Rightarrow> int \<Rightarrow> int \<Rightarrow> image"
  m_encode :: "image \<Rightarrow> int \<Rightarrow> string call"
  m_temp :: "string \<Rightarrow> err option"
  m_ffprobe :: "string \<Rightarrow> string option"

definition panic_err :: "string \<Rightarrow> err" where
  "panic_err s = Err (''panic in media process: '' @ s)"

definition call_result :: "'a call \<Rightarrow> 'a result" where
  "call_result c = (case c of Returns v \<Rightarrow> Inr v | Fails e \<Rightarrow> Inl e | Panics s \<Rightarrow> Inl (panic_err s))"

section \<open>Texts\<close>

text \<open>\<open>fmt.Sprintf("%.4f", float64(w*h)/1e6)\<close>: exact decimal rounding of the float64, ties to even.\<close>

definition pad4 :: "string \<Rightarrow> string" where
  "pad4 s = replicate (4 - length s) (CHR ''0'') @ s"

definition fmt4 :: "float64 \<Rightarrow> string" where
  "fmt4 v = (case v of NaN \<Rightarrow> ''NaN'' | Inf s \<Rightarrow> if s then ''-Inf'' else ''+Inf''
     | Fin q \<Rightarrow> (let n = round_even (\<bar>q\<bar> * 10000) in
         (if q < 0 then ''-'' else []) @ Itoa (n div 10000) @ ''.'' @ pad4 (Itoa (n mod 10000))))"

definition megapixels :: "int \<Rightarrow> int \<Rightarrow> string" where
  "megapixels w h = fmt4 (fdiv (float_of_int (wrap64 (w * h))) (Fin 1000000))"

section \<open>EXIF\<close>

text \<open>The tags that are strings; a map never fails to marshal.\<close>

definition exif_strings :: "exif \<Rightarrow> (string \<times> string) list" where
  "exif_strings x = List.map_filter (\<lambda>(n, t). map_option (\<lambda>s. (n, s)) (tg_string t)) x"

definition exifToJSON :: "exif \<Rightarrow> string" where
  "exifToJSON x = MarshalMap (exif_strings x)"

definition decodeImageEXIF :: "mext \<Rightarrow> string \<Rightarrow> string \<times> exif option" where
  "decodeImageEXIF mx buf = (case m_exif mx buf of None \<Rightarrow> (''{}'', None)
     | Some x \<Rightarrow> (let exifJSON = exifToJSON x in (if exifJSON = [] then ''{}'' else exifJSON, Some x)))"

definition exifString :: "exif \<Rightarrow> string \<Rightarrow> string option" where
  "exifString x n = (case Option.bind (map_of x n) tg_string of None \<Rightarrow> None
     | Some s \<Rightarrow> if s = [] then None else Some s)"

definition exifInt :: "exif \<Rightarrow> string \<Rightarrow> int option" where
  "exifInt x n = Option.bind (map_of x n) tg_int"

definition exifFloat :: "exif \<Rightarrow> string \<Rightarrow> float64 option" where
  "exifFloat x n = (case Option.bind (map_of x n) tg_rat of None \<Rightarrow> None
     | Some (num, den) \<Rightarrow> if den = 0 then None else Some (fdiv (float_of_int num) (float_of_int den)))"

definition firstNonEmpty :: "string option \<Rightarrow> string option \<Rightarrow> string option" where
  "firstNonEmpty a b = (case a of Some s \<Rightarrow> if s \<noteq> [] then a else b | None \<Rightarrow> b)"

definition or_keep :: "'a option \<Rightarrow> 'a option \<Rightarrow> 'a option" where
  "or_keep a b = (case a of Some _ \<Rightarrow> a | None \<Rightarrow> b)"

definition fillEXIF :: "MediaImage \<Rightarrow> exif option \<Rightarrow> int \<Rightarrow> int \<Rightarrow> MediaImage" where
  "fillEXIF img0 xo w h =
     (let img = img0\<lparr>mi_exif_w := Some w, mi_exif_h := Some h\<rparr> in
      case xo of None \<Rightarrow> img
      | Some x \<Rightarrow> img\<lparr>
          mi_exif_w := or_keep (exifInt x ''PixelXDimension'') (mi_exif_w img),
          mi_exif_h := or_keep (exifInt x ''PixelYDimension'') (mi_exif_h img),
          mi_maker := exifString x ''Make'', mi_model := exifString x ''Model'',
          mi_taken := firstNonEmpty (exifString x ''DateTimeOriginal'') (exifString x ''DateTime''),
          mi_exposition := exifString x ''ExposureTime'', mi_aperture := exifString x ''FNumber'',
          mi_iso := or_keep (exifInt x ''ISOSpeedRatings'') (mi_iso img),
          mi_orientation := or_keep (exifInt x ''Orientation'') (mi_orientation img),
          mi_focal := or_keep (exifFloat x ''FocalLength'') (mi_focal img),
          mi_flash := (case exifInt x ''Flash'' of Some v \<Rightarrow> Some (v mod 2 \<noteq> 0)
            | None \<Rightarrow> mi_flash img)\<rparr>)"

definition blank_image :: "uuid \<Rightarrow> uuid \<Rightarrow> MediaImage" where
  "blank_image i mediaID = \<lparr>mi_id = i, mi_focal = None, mi_aperture = None, mi_flash = None,
     mi_iso = None, mi_orientation = None, mi_flipped = None, mi_exposition = None, mi_taken = None,
     mi_maker = None, mi_model = None, mi_exif_h = None, mi_exif_w = None, mi_size_tag = None,
     mi_height = None, mi_width = None, mi_megapixels = None, mi_media = mediaID\<rparr>"

section \<open>Derived files\<close>

definition derived_file :: "StorageFile \<Rightarrow> uuid \<Rightarrow> string \<Rightarrow> string \<Rightarrow> string \<Rightarrow> int \<Rightarrow> uuid option
    \<Rightarrow> string \<Rightarrow> string \<Rightarrow> StorageFile" where
  "derived_file f tid sig name vpath size' jpegType exif custom =
     \<lparr>sf_id = tid, sf_created_at = zero_time, sf_updated_at = None, sf_sig = sig,
      sf_storage = sf_storage f, sf_owner_id = sf_owner_id f, sf_name = Some name,
      sf_status = ''PUBLISHED'', sf_visibility = sf_visibility f, sf_size = size', sf_hash = None,
      sf_type_id = jpegType, sf_ext = Some ''jpg'', sf_exif = exif, sf_custom = custom,
      sf_origin = ''DERIVED'', sf_orig_path = None, sf_real_path = Some (TrimPrefix vpath ''/''),
      sf_virt_path = Some vpath, sf_available = True, sf_excluded = False,
      sf_created_by_id = sf_created_by_id f, sf_updated_by_id = None, sf_owner = None,
      sf_type = None, sf_created_by = None, sf_updated_by = None\<rparr>"

text \<open>The int a dimension rounds to; out of range it is the smallest int, as on amd64.\<close>

definition dim :: "int option \<Rightarrow> int" where
  "dim n = (case n of Some v \<Rightarrow> v | None \<Rightarrow> min_int64)"

section \<open>The steps of an image's transaction\<close>

text \<open>
  \<open>sig\<close> draws a signature key; \<open>ids\<close> prints UUIDs. A derived file is a row and its object; the loops
  over boxes and over \<open>thumbSpecs\<close> store one derived file and the row that points to it per turn.
\<close>

definition storeDerived :: "Backend \<Rightarrow> StorageFile \<Rightarrow> string \<Rightarrow> string \<Rightarrow> unit result m" where
  "storeDerived be dfile vpath bout = try_bind (InsertFileTx dfile) (\<lambda>_.
     Put be (TrimPrefix vpath ''/'') (Reader bout None) (int (length bout)) ''image/jpeg'')"

definition sizedImageRow :: "mext \<Rightarrow> (uuid \<Rightarrow> string) \<Rightarrow> string m \<Rightarrow> Backend \<Rightarrow> image \<Rightarrow> StorageFile
    \<Rightarrow> imageBox \<Rightarrow> uuid \<Rightarrow> uuid option \<Rightarrow> int \<Rightarrow> int \<Rightarrow> unit result m" where
  "sizedImageRow mx ids sig be img f b imageRowID jpegType ow oh =
     (case computeNewImageDimensions ow oh (box_w b) (box_h b) of (dw, dh) \<Rightarrow>
      let rw = dim dw; rh = dim dh in
      if ow < rw \<or> oh < rh then ret (Inr ())
      else (case call_result (m_encode mx (m_resize mx img rw rh) 90) of
        Inl e \<Rightarrow> ret (Inl e)
      | Inr bout \<Rightarrow> do {
          tid \<leftarrow> new_uuid;
          let sizeTag = sizeTagFromDimensions rw rh;
          let vpath = ''/'' @ ids tid @ ''/resized_'' @ ToLower sizeTag @ ''.jpg'';
          s \<leftarrow> sig;
          let sfile = derived_file f tid s (sizeTag @ ''_resized.jpg'') vpath (int (length bout))
            jpegType (sf_exif f) (sf_custom f);
          try_bind (storeDerived be sfile vpath bout) (\<lambda>_. do {
          rid \<leftarrow> new_uuid;
          InsertStorageMediaImageSizedTx \<lparr>ms_id = rid, ms_size_tag = Some sizeTag,
              ms_height = Some rh, ms_width = Some rw, ms_megapixels = Some (megapixels rw rh),
              ms_image = imageRowID, ms_file = tid\<rparr> (sf_created_by_id f)})}))"

fun insertSizedImageRows :: "mext \<Rightarrow> (uuid \<Rightarrow> string) \<Rightarrow> string m \<Rightarrow> Backend \<Rightarrow> image \<Rightarrow> StorageFile
    \<Rightarrow> imageBox list \<Rightarrow> uuid \<Rightarrow> uuid option \<Rightarrow> int \<Rightarrow> int \<Rightarrow> unit result m" where
  "insertSizedImageRows mx ids sig be img f [] imageRowID jpegType ow oh = ret (Inr ())"
| "insertSizedImageRows mx ids sig be img f (b # bs) imageRowID jpegType ow oh =
     try_bind (sizedImageRow mx ids sig be img f b imageRowID jpegType ow oh)
       (\<lambda>_. insertSizedImageRows mx ids sig be img f bs imageRowID jpegType ow oh)"

definition thumbnailRow :: "mext \<Rightarrow> (uuid \<Rightarrow> string) \<Rightarrow> string m \<Rightarrow> Backend \<Rightarrow> image \<Rightarrow> StorageFile
    \<Rightarrow> string \<times> int \<times> int \<Rightarrow> uuid \<Rightarrow> uuid option \<Rightarrow> unit result m" where
  "thumbnailRow mx ids sig be img f spec mediaID jpegType =
     (case spec of (tag, w, h) \<Rightarrow>
      let thumb = m_fit mx img w h in
      case call_result (m_encode mx thumb 85) of
        Inl e \<Rightarrow> ret (Inl e)
      | Inr bout \<Rightarrow> do {
          tid \<leftarrow> new_uuid;
          let vpath = ''/'' @ ids tid @ ''/'' @ tag @ ''.jpg'';
          s \<leftarrow> sig;
          let tfile = derived_file f tid s (tag @ ''.jpg'') vpath (int (length bout)) jpegType [] [];
          try_bind (storeDerived be tfile vpath bout) (\<lambda>_. do {
          rid \<leftarrow> new_uuid;
          InsertStorageMediaThumbnailTx \<lparr>th_id = rid, th_size_tag = tag,
              th_height = Some (im_h thumb), th_width = Some (im_w thumb),
              th_megapixels = Some (megapixels (im_w thumb) (im_h thumb)), th_media = mediaID,
              th_file = tid\<rparr> (sf_created_by_id f)})})"

fun insertThumbnailRows :: "mext \<Rightarrow> (uuid \<Rightarrow> string) \<Rightarrow> string m \<Rightarrow> Backend \<Rightarrow> image \<Rightarrow> StorageFile
    \<Rightarrow> (string \<times> int \<times> int) list \<Rightarrow> uuid \<Rightarrow> uuid option \<Rightarrow> unit result m" where
  "insertThumbnailRows mx ids sig be img f [] mediaID jpegType = ret (Inr ())"
| "insertThumbnailRows mx ids sig be img f (spec # specs) mediaID jpegType =
     try_bind (thumbnailRow mx ids sig be img f spec mediaID jpegType)
       (\<lambda>_. insertThumbnailRows mx ids sig be img f specs mediaID jpegType)"

lemmas image_steps = sizedImageRow_def thumbnailRow_def storeDerived_def

section \<open>One job\<close>

definition image_tx :: "mext \<Rightarrow> (uuid \<Rightarrow> string) \<Rightarrow> string m \<Rightarrow> Backend \<Rightarrow> image \<Rightarrow> StorageFile \<Rightarrow> string
    \<Rightarrow> uuid \<Rightarrow> MediaImage \<Rightarrow> uuid option \<Rightarrow> unit result m" where
  "image_tx mx ids sig be img f mediaCfg mediaID imgRow jpegType =
     try_bind (InsertStorageMediaTx mediaID ''IMAGE'' (sf_id f) (sf_created_by_id f)) (\<lambda>_.
     try_bind (InsertStorageMediaImageTx imgRow (sf_created_by_id f)) (\<lambda>_.
     try_bind (ret (parseImageResizerSizes mediaCfg)) (\<lambda>sizes.
     try_bind (insertSizedImageRows mx ids sig be img f sizes (mi_id imgRow) jpegType (im_w img) (im_h img))
       (\<lambda>_. insertThumbnailRows mx ids sig be img f thumbSpecs mediaID jpegType))))"

text \<open>The rows of a decoded image, in one transaction; the EXIF tags are kept afterwards, if that works.\<close>

definition storeImage :: "mext \<Rightarrow> ext \<Rightarrow> string m \<Rightarrow> Backend \<Rightarrow> string \<Rightarrow> StorageFile \<Rightarrow> image
    \<Rightarrow> string \<times> exif option \<Rightarrow> unit result m" where
  "storeImage mx x sig be mediaCfg f img exifs = do {
     jpegMime \<leftarrow> GetMimeByMIME ''image/jpeg'';
     let jpegType = (case jpegMime of Inr mt \<Rightarrow> Some (mt_id mt) | Inl _ \<Rightarrow> None);
     mediaID \<leftarrow> new_uuid;
     imageRowID \<leftarrow> new_uuid;
     let imgRow = fillEXIF ((blank_image imageRowID mediaID)\<lparr>
       mi_size_tag := Some ''SIZE_ORIGINAL'', mi_height := Some (im_h img), mi_width := Some (im_w img),
       mi_megapixels := Some (megapixels (im_w img) (im_h img))\<rparr>) (snd exifs) (im_w img) (im_h img);
     try_bind (in_tx (image_tx mx (x_uuid_string x) sig be img f mediaCfg mediaID imgRow jpegType)) (\<lambda>_. do {
       _ \<leftarrow> UpdateFileExifMetadata (sf_id f) (fst exifs);
       ret (Inr ())})}"

definition processImage :: "mext \<Rightarrow> ext \<Rightarrow> string m \<Rightarrow> Env \<Rightarrow> Storage \<Rightarrow> StorageFile \<Rightarrow> unit result m" where
  "processImage mx x sig e st f =
     (case storage_backend x e st of Inl er \<Rightarrow> ret (Inl er)
      | Inr be \<Rightarrow> try_bind (Open be (ns_str (sf_real_path f))) (\<lambda>bytes.
          let buf = take (nat (MediaMaxImageBytes e)) bytes in
          if int (length buf) \<ge> MediaMaxImageBytes e
          then ret (Inl (Err ''image exceeds MEDIA_MAX_IMAGE_BYTES''))
          else (let exifs = decodeImageEXIF mx buf in
            case m_decode mx buf of
              Fails er \<Rightarrow> ret (Inl (Err ''decode image''))
            | Panics s \<Rightarrow> ret (Inl (panic_err s))
            | Returns img \<Rightarrow> storeImage mx x sig be (st_media_cfg st) f img exifs)))"

definition video_row :: "uuid \<Rightarrow> uuid \<Rightarrow> probe \<Rightarrow> MediaVideo" where
  "video_row i mediaID p = \<lparr>mv_id = i, mv_fps = pr_fps p, mv_duration = None,
     mv_size_tag = Some ''SIZE_ORIGINAL'', mv_height = (if pr_h p > 0 then Some (pr_h p) else None),
     mv_width = (if pr_w p > 0 then Some (pr_w p) else None),
     mv_megapixels = (if pr_w p > 0 \<and> pr_h p > 0 then Some (megapixels (pr_w p) (pr_h p)) else None),
     mv_media = mediaID\<rparr>"

definition probeVideo :: "mext \<Rightarrow> ext \<Rightarrow> Env \<Rightarrow> Storage \<Rightarrow> StorageFile \<Rightarrow> probe result m" where
  "probeVideo mx x e st f =
     (if FFprobePath e \<noteq> [] \<and> sf_size f > 0 \<and> sf_size f \<le> MediaMaxVideoProbeBytes e then
        (case storage_backend x e st of Inl er \<Rightarrow> ret (Inl er)
         | Inr be \<Rightarrow> try_bind (Open be (ns_str (sf_real_path f))) (\<lambda>bytes.
             let tmp = take (nat (MediaMaxVideoProbeBytes e)) bytes in
             case m_temp mx tmp of Some er \<Rightarrow> ret (Inl er)
             | None \<Rightarrow> ret (Inr (ffprobeMeta (m_ffprobe mx tmp)))))
      else ret (Inr no_probe))"

definition processVideo :: "mext \<Rightarrow> ext \<Rightarrow> Env \<Rightarrow> Storage \<Rightarrow> StorageFile \<Rightarrow> unit result m" where
  "processVideo mx x e st f = do {
     mediaID \<leftarrow> new_uuid;
     videoID \<leftarrow> new_uuid;
     try_bind (probeVideo mx x e st f) (\<lambda>p.
       in_tx (try_bind (InsertStorageMediaTx mediaID ''VIDEO'' (sf_id f) (sf_created_by_id f)) (\<lambda>_.
         InsertStorageMediaVideoTx (video_row videoID mediaID p) (pr_duration p))))}"

definition processDocument :: "StorageFile \<Rightarrow> unit result m" where
  "processDocument f = do {
     mediaID \<leftarrow> new_uuid;
     docID \<leftarrow> new_uuid;
     in_tx (try_bind (InsertStorageMediaTx mediaID ''DOCUMENT'' (sf_id f) (sf_created_by_id f)) (\<lambda>_.
       InsertStorageMediaDocumentTx
         \<lparr>mdoc_id = docID, mdoc_pages = None, mdoc_bw = False, mdoc_media = mediaID\<rparr>))}"

definition processCategory :: "mext \<Rightarrow> ext \<Rightarrow> string m \<Rightarrow> Env \<Rightarrow> StorageFile \<Rightarrow> Storage \<Rightarrow> unit result m" where
  "processCategory mx x sig e f st = (let c = MediaCategory (Some f) in
     if c = ''IMAGE'' then processImage mx x sig e st f
     else if c = ''VIDEO'' then processVideo mx x e st f
     else if c = ''DOCUMENT'' then processDocument f
     else ret (Inr ()))"

definition Process :: "mext \<Rightarrow> ext \<Rightarrow> string m \<Rightarrow> Env \<Rightarrow> MediaJob \<Rightarrow> unit result m" where
  "Process mx x sig e job =
     try_bind (StorageMediaExistsForFile (mj_file job)) (\<lambda>exists.
     if exists then ret (Inr ())
     else try_bind (GetFileForWorker (mj_storage job) (mj_file job)) (\<lambda>f.
       if sf_status f \<noteq> ''PUBLISHED'' \<or> sf_real_path f = None then ret (Inr ())
       else try_bind (GetStorage (mj_storage job)) (\<lambda>st. processCategory mx x sig e f st)))"

section \<open>Invariants\<close>

lemma keeps_call [keeps]:
  "(\<And>v. keeps_all I (f v)) \<Longrightarrow> (\<And>er. keeps_all I (g er)) \<Longrightarrow> (\<And>s. keeps_all I (h s))
     \<Longrightarrow> keeps_all I (case_call f g h c)"
  by (cases c) simp_all

lemma keeps_sized [keeps]:
  "keeps_all (on_db db_ok) sig
     \<Longrightarrow> keeps_all (on_db db_ok) (insertSizedImageRows mx ids sig be img f bs i ty ow oh)"
  by (induction bs) (auto simp: image_steps Put_def Let_def intro!: keeps)

lemma keeps_thumbs [keeps]:
  "keeps_all (on_db db_ok) sig
     \<Longrightarrow> keeps_all (on_db db_ok) (insertThumbnailRows mx ids sig be img f specs i ty)"
  by (induction specs) (auto simp: image_steps Put_def Let_def intro!: keeps)

lemma process_ok [keeps]:
  assumes sig: "keeps_all (on_db db_ok) sig"
  shows "keeps_all (on_db db_ok) (Process mx x sig e job)"
  unfolding Process_def processCategory_def processImage_def storeImage_def processVideo_def processDocument_def image_tx_def
    probeVideo_def Open_def Let_def
  by (intro keeps reads_keeps media_reads data_reads sig)+

end
