(* ===== verification/WorkerPool.thy ===== *)
theory WorkerPool
  imports MediaProc HandlersUpload
begin

text \<open>
  \<open>internal/media_worker/pool.go\<close>: one round of a worker's loop, and the pool as a transition system
  in which the steps of several workers, of requests and of a crash interleave. A claim and the
  marking of a result are single statements, hence atomic; everything in between may overlap.
\<close>

section \<open>One round\<close>

text \<open>
  What a round does: an error or an empty queue makes the worker wait for its ticker, otherwise the
  job is processed and marked; the errors of marking are dropped.
\<close>

datatype round = Waited | Worked MediaJob "unit result"

definition cut_msg :: "string \<Rightarrow> string" where
  "cut_msg msg = (if length msg > 8000 then take 8000 msg else msg)"

definition worker_round :: "(MediaJob \<Rightarrow> unit result m) \<Rightarrow> round m" where
  "worker_round process = do {
     r \<leftarrow> ClaimMediaJob;
     (case r of
        Inl _ \<Rightarrow> ret Waited
      | Inr None \<Rightarrow> ret Waited
      | Inr (Some job) \<Rightarrow> do {
          out \<leftarrow> process job;
          (case out of
             Inl e \<Rightarrow> do { _ \<leftarrow> FailMediaJob (mj_id job) (cut_msg (err_text e)); ret () }
           | Inr _ \<Rightarrow> do { _ \<leftarrow> CompleteMediaJob (mj_id job); ret () });
          ret (Worked job out)})}"

definition media_worker_round :: "mext \<Rightarrow> ext \<Rightarrow> Env \<Rightarrow> round m" where
  "media_worker_round mx x e = worker_round (Process mx x randomSig e)"

text \<open>How many workers \<open>Start\<close> launches.\<close>

definition Start :: "Env \<Rightarrow> nat" where
  "Start e = (if \<not> MediaProcessingEnabled e \<or> MediaWorkerCount e \<le> 0 then 0 else nat (MediaWorkerCount e))"

section \<open>The pool\<close>

text \<open>
  \<open>po_busy w\<close> is the job worker \<open>w\<close> holds. Two fields only record what happened: the ids ever given to
  jobs, and the ids of the jobs claimed, in order.
\<close>

record pool =
  po_db :: db
  po_busy :: "nat \<Rightarrow> MediaJob option"
  po_ids :: "uuid list"
  po_claims :: "uuid list"

text \<open>What processing and requests may do to the jobs: nothing but lose some (deleted files).\<close>

definition jobs_shrink :: "db \<Rightarrow> db \<Rightarrow> bool" where
  "jobs_shrink d d' \<longleftrightarrow> set (jobs d') \<subseteq> set (jobs d)"

inductive pool_step :: "nat \<Rightarrow> pool \<Rightarrow> pool \<Rightarrow> bool" for n where
  Claim: "w < n \<Longrightarrow> po_busy p w = None \<Longrightarrow> claim_job t (po_db p) = (Some j, d') \<Longrightarrow>
    pool_step n p (p\<lparr>po_db := d', po_busy := (po_busy p)(w \<mapsto> j), po_claims := mj_id j # po_claims p\<rparr>)"
| Finish: "w < n \<Longrightarrow> po_busy p w = Some j \<Longrightarrow>
    pool_step n p (p\<lparr>po_db := finish_job t j out (po_db p), po_busy := (po_busy p)(w := None)\<rparr>)"
| Lost_mark: "w < n \<Longrightarrow> po_busy p w = Some j \<Longrightarrow>
    pool_step n p (p\<lparr>po_busy := (po_busy p)(w := None)\<rparr>)"
| Enqueue: "i \<notin> set (po_ids p) \<Longrightarrow> enqueue_stmt i s f t (po_db p) = (Inr (), d') \<Longrightarrow>
    pool_step n p (p\<lparr>po_db := d', po_ids := i # po_ids p\<rparr>)"
| Other: "db_ok d' \<Longrightarrow> jobs_shrink (po_db p) d' \<Longrightarrow> pool_step n p (p\<lparr>po_db := d'\<rparr>)"
| Crash: "pool_step n p (p\<lparr>po_busy := (\<lambda>_. None)\<rparr>)"

inductive pool_reach :: "nat \<Rightarrow> pool \<Rightarrow> pool \<Rightarrow> bool" for n p where
  Start: "pool_reach n p p"
| Step: "pool_reach n p q \<Longrightarrow> pool_step n q q' \<Longrightarrow> pool_reach n p q'"

inductive_cases pool_stepE: "pool_step n p q"

definition pool_init :: "db \<Rightarrow> pool" where
  "pool_init d = \<lparr>po_db = d, po_busy = (\<lambda>_. None), po_ids = map mj_id (jobs d), po_claims = []\<rparr>"

section \<open>The invariant\<close>

text \<open>
  A job is fresh (pending, no attempt), claimed at most once, and held by one worker at most.
\<close>

definition job_state_ok :: "pool \<Rightarrow> MediaJob \<Rightarrow> bool" where
  "job_state_ok p j \<longleftrightarrow> mj_id j \<in> set (po_ids p)
     \<and> (if mj_id j \<in> set (po_claims p) then \<not> pending j \<and> mj_attempts j = 1
        else pending j \<and> mj_attempts j = 0)"

definition pool_inv :: "pool \<Rightarrow> bool" where
  "pool_inv p \<longleftrightarrow> db_ok (po_db p) \<and> distinct (po_claims p) \<and> set (po_claims p) \<subseteq> set (po_ids p)
     \<and> (\<forall>j\<in>set (jobs (po_db p)). job_state_ok p j)
     \<and> (\<forall>w j. po_busy p w = Some j \<longrightarrow> mj_id j \<in> set (po_claims p))
     \<and> (\<forall>w v j k. po_busy p w = Some j \<longrightarrow> po_busy p v = Some k \<longrightarrow> mj_id j = mj_id k \<longrightarrow> w = v)"

definition fresh_jobs :: "db \<Rightarrow> bool" where
  "fresh_jobs d \<longleftrightarrow> list_all (\<lambda>j. pending j \<and> mj_attempts j = 0) (jobs d)"

lemma pool_inv_init: "db_ok d \<Longrightarrow> fresh_jobs d \<Longrightarrow> pool_inv (pool_init d)"
  by (auto simp: pool_inv_def pool_init_def job_state_ok_def fresh_jobs_def list_all_iff)

lemma claim_job_Some:
  assumes "db_ok d" and "claim_job t d = (Some j, d')"
  obtains q where "q \<in> set (jobs d)" "pending q" "j = claimed t q"
    "jobs d' = upd_where (\<lambda>r. mj_id r = mj_id q) (claimed t) (jobs d)"
proof -
  from assms obtain q where q: "next_pending d = Some q" "j = claimed t q"
    "jobs d' = upd_where (\<lambda>r. mj_id r = mj_id q) (claimed t) (jobs d)"
    by (auto simp: claim_job_def claim_stmt_run split: option.splits)
  show thesis using that[OF next_pending_Some(1,2)[OF q(1)] q(2,3)] .
qed

lemma finish_job_jobs:
  "db_ok d \<Longrightarrow> \<exists>f. jobs (finish_job t j out d) = upd_where (\<lambda>r. mj_id r = mj_id j) f (jobs d)
     \<and> (\<forall>r. mj_id (f r) = mj_id r \<and> mj_attempts (f r) = mj_attempts r \<and> \<not> pending (f r))"
  by (cases out) (auto simp: finish_job_def complete_stmt_run fail_stmt_run pending_def)

lemma enqueue_jobs:
  "enqueue_stmt i s f t d = (Inr (), d') \<Longrightarrow> jobs d' = jobs d \<or> (\<exists>j. jobs d' = jobs d @ [j]
     \<and> mj_id j = i \<and> pending j \<and> mj_attempts j = 0)"
  by (auto simp: enqueue_stmt_def ins_job_def stmt_def pending_def split: if_splits)

lemma job_ids_distinct: "db_ok d \<Longrightarrow> distinct (map mj_id (jobs d))"
  by (simp add: db_ok_def keys_ok_def)

lemma pool_inv_claim:
  assumes inv: "pool_inv p" and "po_busy p w = None" and c: "claim_job t (po_db p) = (Some j, d')"
  shows "pool_inv (p\<lparr>po_db := d', po_busy := (po_busy p)(w \<mapsto> j), po_claims := mj_id j # po_claims p\<rparr>)"
proof -
  have db: "db_ok (po_db p)" using inv by (simp add: pool_inv_def)
  obtain q where q: "q \<in> set (jobs (po_db p))" "pending q" "j = claimed t q"
    "jobs d' = upd_where (\<lambda>r. mj_id r = mj_id q) (claimed t) (jobs (po_db p))"
    using claim_job_Some[OF db c] .
  have qs: "mj_id q \<in> set (po_ids p)" "mj_id q \<notin> set (po_claims p)" "mj_attempts q = 0"
    using inv q(1,2) by (auto simp: pool_inv_def job_state_ok_def split: if_splits)
  have same: "r = q" if "r \<in> set (jobs (po_db p))" "mj_id r = mj_id q" for r
    using job_ids_distinct[OF db] that q(1) by (metis distinct_map inj_onD)
  have ji: "mj_id j = mj_id q" by (simp add: q(3) claimed_def)
  have "job_state_ok (p\<lparr>po_db := d', po_busy := (po_busy p)(w \<mapsto> j), po_claims := mj_id j # po_claims p\<rparr>) r"
    if "r \<in> set (jobs d')" for r
  proof (cases "mj_id r = mj_id q")
    case True
    with that q(4) same have "r = claimed t q"
      by (auto simp: set_upd_where claimed_def)
    then show ?thesis using qs ji by (simp add: job_state_ok_def claimed_def pending_def)
  next
    case False
    with that q(4) have "r \<in> set (jobs (po_db p))" by (auto simp: set_upd_where claimed_def)
    with inv False show ?thesis by (simp add: pool_inv_def job_state_ok_def ji)
  qed
  moreover have "db_ok d'" using jobs_at.claim_inv[OF db c] .
  ultimately show ?thesis
    using inv qs assms(2) ji by (fastforce simp: pool_inv_def)
qed

lemma pool_inv_finish:
  assumes inv: "pool_inv p" and b: "po_busy p w = Some j"
  shows "pool_inv (p\<lparr>po_db := finish_job t j out (po_db p), po_busy := (po_busy p)(w := None)\<rparr>)"
proof -
  have db: "db_ok (po_db p)" using inv by (simp add: pool_inv_def)
  obtain f where f: "jobs (finish_job t j out (po_db p)) = upd_where (\<lambda>r. mj_id r = mj_id j) f (jobs (po_db p))"
    "\<forall>r. mj_id (f r) = mj_id r \<and> mj_attempts (f r) = mj_attempts r \<and> \<not> pending (f r)"
    using finish_job_jobs[OF db] by blast
  have "mj_id j \<in> set (po_claims p)" using inv b by (auto simp: pool_inv_def)
  then have "\<forall>r\<in>set (jobs (finish_job t j out (po_db p))). job_state_ok p r"
    using inv f by (auto simp: pool_inv_def job_state_ok_def set_upd_where)
  moreover have "db_ok (finish_job t j out (po_db p))" using jobs_at.finish_inv[OF db] .
  ultimately show ?thesis
    using inv by (auto simp: pool_inv_def job_state_ok_def)
qed

lemma pool_inv_enqueue:
  assumes inv: "pool_inv p" and i: "i \<notin> set (po_ids p)"
    and q: "enqueue_stmt i s f t (po_db p) = (Inr (), d')"
  shows "pool_inv (p\<lparr>po_db := d', po_ids := i # po_ids p\<rparr>)"
proof -
  have "db_ok d'" using job_stmts_ok(1)[of "po_db p" i s f t] inv q by (simp add: pool_inv_def)
  moreover have "\<forall>r\<in>set (jobs d'). job_state_ok (p\<lparr>po_db := d', po_ids := i # po_ids p\<rparr>) r"
    using enqueue_jobs[OF q] inv i by (auto simp: pool_inv_def job_state_ok_def)
  ultimately show ?thesis using inv by (auto simp: pool_inv_def)
qed

lemma pool_inv_step: "pool_step n p q \<Longrightarrow> pool_inv p \<Longrightarrow> pool_inv q"
proof (induction rule: pool_step.induct)
  case (Claim w p t j d')
  then show ?case by (intro pool_inv_claim)
next
  case (Finish w p j t out)
  then show ?case by (intro pool_inv_finish)
next
  case (Lost_mark w p j)
  then show ?case by (auto simp: pool_inv_def job_state_ok_def)
next
  case (Enqueue i p s f t d')
  then show ?case by (intro pool_inv_enqueue)
next
  case (Other d' p)
  then show ?case by (auto simp: pool_inv_def job_state_ok_def jobs_shrink_def subset_iff)
next
  case (Crash p)
  then show ?case by (simp add: pool_inv_def job_state_ok_def)
qed

lemma pool_inv_reach: "pool_reach n p q \<Longrightarrow> pool_inv p \<Longrightarrow> pool_inv q"
  by (induction rule: pool_reach.induct) (auto intro: pool_inv_step)

text \<open>A claimed job nobody holds is never touched again: its row stays as it is, or goes.\<close>

definition abandoned :: "pool \<Rightarrow> MediaJob \<Rightarrow> bool" where
  "abandoned p j \<longleftrightarrow> mj_id j \<in> set (po_claims p) \<and> (\<forall>w k. po_busy p w = Some k \<longrightarrow> mj_id k \<noteq> mj_id j)
     \<and> (\<forall>r\<in>set (jobs (po_db p)). mj_id r = mj_id j \<longrightarrow> r = j)"

lemma abandoned_step:
  assumes "pool_step n p q" and inv: "pool_inv p" and a: "abandoned p j"
  shows "abandoned q j"
  using assms
proof (induction rule: pool_step.induct)
  case (Claim w p t k d')
  have db: "db_ok (po_db p)" using Claim by (simp add: pool_inv_def)
  obtain r where r: "r \<in> set (jobs (po_db p))" "pending r" "k = claimed t r"
    "jobs d' = upd_where (\<lambda>r'. mj_id r' = mj_id r) (claimed t) (jobs (po_db p))"
    using claim_job_Some[OF db Claim(3)] .
  have "mj_id r \<noteq> mj_id j"
    using Claim r(1,2) by (auto simp: pool_inv_def job_state_ok_def abandoned_def split: if_splits)
  with Claim r show ?case by (auto simp: abandoned_def set_upd_where claimed_def)
next
  case (Finish w p k t out)
  have db: "db_ok (po_db p)" using Finish by (simp add: pool_inv_def)
  have "mj_id k \<noteq> mj_id j" using Finish by (auto simp: abandoned_def)
  with Finish finish_job_jobs[OF db, of t k out] show ?case
    by (fastforce simp: abandoned_def set_upd_where)
next
  case (Enqueue i p s f t d')
  then have "i \<noteq> mj_id j" by (auto simp: pool_inv_def abandoned_def)
  with Enqueue enqueue_jobs[OF Enqueue(2)] show ?case by (auto simp: abandoned_def)
qed (auto simp: abandoned_def jobs_shrink_def subset_iff)

section \<open>Processing leaves the queue alone\<close>

lemma stmts_jobs:
  "jobs (snd (ins_file r d)) = jobs d" "jobs (snd (ins_media md d)) = jobs d"
  "jobs (snd (ins_image im cb d)) = jobs d" "jobs (snd (ins_video v d)) = jobs d"
  "jobs (snd (ins_document doc d)) = jobs d" "jobs (snd (ins_thumb th cb d)) = jobs d"
  "jobs (snd (ins_sized sz cb d)) = jobs d" "jobs (snd (upd_files P f d)) = jobs d"
  by (simp_all add: ins_defs upd_files_def stmt_def)

lemma ops_jobs [keeps]:
  "keeps_all (on_db (\<lambda>d. jobs d = J)) (InsertFileTx f)"
  "keeps_all (on_db (\<lambda>d. jobs d = J)) (InsertStorageMediaTx i ty fid cb)"
  "keeps_all (on_db (\<lambda>d. jobs d = J)) (InsertStorageMediaImageTx im cb)"
  "keeps_all (on_db (\<lambda>d. jobs d = J)) (InsertStorageMediaVideoTx v dur)"
  "keeps_all (on_db (\<lambda>d. jobs d = J)) (InsertStorageMediaDocumentTx doc)"
  "keeps_all (on_db (\<lambda>d. jobs d = J)) (InsertStorageMediaThumbnailTx th cb)"
  "keeps_all (on_db (\<lambda>d. jobs d = J)) (InsertStorageMediaImageSizedTx sz cb)"
  "keeps_all (on_db (\<lambda>d. jobs d = J)) (UpdateFileExifMetadata fid meta)"
  unfolding InsertFileTx_def InsertStorageMediaTx_def InsertStorageMediaImageTx_def
    InsertStorageMediaVideoTx_def InsertStorageMediaDocumentTx_def InsertStorageMediaThumbnailTx_def
    InsertStorageMediaImageSizedTx_def UpdateFileExifMetadata_def
  by (intro keeps keeps_db_exec; simp add: stmts_jobs)+

lemma sized_jobs [keeps]:
  "keeps_all (on_db (\<lambda>d. jobs d = J)) (insertSizedImageRows mx ids randomSig be img f bs i ty ow oh)"
  by (induction bs) (auto simp: image_steps Put_def Let_def intro!: keeps split: prod.splits)

lemma thumbs_jobs [keeps]:
  "keeps_all (on_db (\<lambda>d. jobs d = J)) (insertThumbnailRows mx ids randomSig be img f specs i ty)"
  by (induction specs) (auto simp: image_steps Put_def Let_def intro!: keeps)

lemma process_jobs: "keeps_all (on_db (\<lambda>d. jobs d = J)) (Process mx x randomSig e job)"
  unfolding Process_def processCategory_def processImage_def storeImage_def processVideo_def processDocument_def image_tx_def
    probeVideo_def Open_def Let_def
  by (intro keeps reads_keeps media_reads data_reads)+

end
