(* ===== verification/PoolLoop.thy ===== *)
theory PoolLoop
  imports WorkerPool
begin

text \<open>
  The life of the pool (\<open>internal/media_worker/pool.go\<close>): the loop of every worker with its tests of
  the stop channel, its ticker, and \<open>Stop\<close>, which closes the channel and waits for the workers.
\<close>

section \<open>The loop\<close>

text \<open>
  Where a worker is: at the head of its loop, waiting for its ticker after an error or an empty queue,
  working on a job, or returned (\<open>wg.Done\<close>).
\<close>

datatype phase = Head | Waiting | Busy MediaJob | Returned

text \<open>A job in hand: it is processed and marked; errors of marking are dropped.\<close>

definition work :: "(MediaJob \<Rightarrow> unit result m) \<Rightarrow> MediaJob \<Rightarrow> unit result m" where
  "work process job = do {
     out \<leftarrow> process job;
     (case out of
        Inl e \<Rightarrow> do { _ \<leftarrow> FailMediaJob (mj_id job) (cut_msg (err_text e)); ret () }
      | Inr _ \<Rightarrow> do { _ \<leftarrow> CompleteMediaJob (mj_id job); ret () });
     ret out}"

text \<open>
  One step of one worker, in its own code: \<open>stop\<close> says whether the channel is closed. When both the
  channel and the ticker are ready, \<open>select\<close> takes either.
\<close>

inductive loop_step :: "(MediaJob \<Rightarrow> unit result m) \<Rightarrow> bool \<Rightarrow> phase \<times> world \<Rightarrow> phase \<times> world \<Rightarrow> bool"
  for process where
  Stopped: "loop_step process True (Head, w) (Returned, w)"
| Claimed: "run ClaimMediaJob w = (Inr (Some j), w') \<Longrightarrow> loop_step process False (Head, w) (Busy j, w')"
| Nothing: "run ClaimMediaJob w = (r, w') \<Longrightarrow> (\<And>j. r \<noteq> Inr (Some j)) \<Longrightarrow> loop_step process False (Head, w) (Waiting, w')"
| Woken: "loop_step process True (Waiting, w) (Returned, w)"
| Tick: "loop_step process stop (Waiting, w) (Head, w)"
| Done: "run (work process j) w = (out, w') \<Longrightarrow> loop_step process stop (Busy j, w) (Head, w')"

inductive_cases loop_stepE: "loop_step process stop (p, w) (q, w')"

section \<open>All workers\<close>

record running =
  rn_workers :: "phase list"
  rn_stop :: bool
  rn_world :: world

definition launched :: "Env \<Rightarrow> world \<Rightarrow> running" where
  "launched e w = \<lparr>rn_workers = replicate (Start e) Head, rn_stop = False, rn_world = w\<rparr>"

text \<open>\<open>Stop\<close> closes the channel, if \<open>Start\<close> has made one.\<close>

definition Stop :: "Env \<Rightarrow> running \<Rightarrow> running" where
  "Stop e r = (if Start e = 0 then r else r\<lparr>rn_stop := True\<rparr>)"

text \<open>A step of worker \<open>i\<close>.\<close>

definition worker_step :: "(MediaJob \<Rightarrow> unit result m) \<Rightarrow> nat \<Rightarrow> running \<Rightarrow> running \<Rightarrow> bool" where
  "worker_step process i r r' \<longleftrightarrow> i < length (rn_workers r) \<and> (\<exists>q w. r' = r\<lparr>rn_workers := (rn_workers r)[i := q], rn_world := w\<rparr>
     \<and> loop_step process (rn_stop r) (rn_workers r ! i, rn_world r) (q, w))"

text \<open>
  A run: steps of workers, the closing of the channel, and anything requests and the database do in
  between. It counts the workers' steps and collects the claims.
\<close>

inductive pool_run :: "(MediaJob \<Rightarrow> unit result m) \<Rightarrow> running \<Rightarrow> nat \<Rightarrow> MediaJob list \<Rightarrow> running \<Rightarrow> bool"
  for process r where
  Launch: "pool_run process r 0 [] r"
| Step: "pool_run process r n js s \<Longrightarrow> worker_step process i s s' \<Longrightarrow>
    pool_run process r (Suc n) (case rn_workers s' ! i of Busy j \<Rightarrow> j # js | _ \<Rightarrow> js) s'"
| Close: "pool_run process r n js s \<Longrightarrow> pool_run process r n js (s\<lparr>rn_stop := True\<rparr>)"
| World: "pool_run process r n js s \<Longrightarrow> pool_run process r n js (s\<lparr>rn_world := w\<rparr>)"

text \<open>\<open>wg.Wait\<close> returns once every worker has.\<close>

definition waited :: "running \<Rightarrow> bool" where
  "waited r \<longleftrightarrow> list_all (\<lambda>p. p = Returned) (rn_workers r)"

section \<open>Stopping\<close>

fun rank :: "phase \<Rightarrow> nat" where
  "rank Head = 1"
| "rank Waiting = 2"
| "rank (Busy j) = 2"
| "rank Returned = 0"

text \<open>Once the channel is closed, every step of a worker brings it closer to its return.\<close>

lemma stopped_step: "loop_step process True (p, w) (q, w') \<Longrightarrow> rank q < rank p \<and> (\<forall>j. q \<noteq> Busy j)"
  by (erule loop_stepE) simp_all

text \<open>And a worker that has not returned always has a step.\<close>

lemma loop_progress: "p \<noteq> Returned \<Longrightarrow> \<exists>q w'. loop_step process stop (p, w) (q, w')"
proof (cases p)
  case Head
  obtain r w' where r: "run ClaimMediaJob w = (r, w')" by force
  show ?thesis
  proof (cases stop)
    case False
    with Head r show ?thesis
      by (cases "\<exists>j. r = Inr (Some j)") (auto intro: loop_step.Claimed loop_step.Nothing)
  next
    case True
    with Head show ?thesis by (auto intro: loop_step.Stopped)
  qed
next
  case (Busy j)
  then show ?thesis by (metis loop_step.Done prod.collapse)
qed (blast intro: loop_step.Tick)+

definition ranks :: "running \<Rightarrow> nat" where
  "ranks r = sum_list (map rank (rn_workers r))"

lemma ranks_step:
  assumes "worker_step process i r r'" and "rn_stop r"
  shows "ranks r' < ranks r" "rn_stop r'" "\<forall>j. rn_workers r' ! i \<noteq> Busy j"
proof -
  obtain q w where i: "i < length (rn_workers r)" and r': "r' = r\<lparr>rn_workers := (rn_workers r)[i := q], rn_world := w\<rparr>"
    and s: "loop_step process True (rn_workers r ! i, rn_world r) (q, w)"
    using assms by (auto simp: worker_step_def)
  have "rank (rn_workers r ! i) \<le> sum_list (map rank (rn_workers r))"
    using i elem_le_sum_list[of i "map rank (rn_workers r)"] by simp
  moreover have "rank q < rank (rn_workers r ! i)" using stopped_step[OF s] by simp
  ultimately show "ranks r' < ranks r"
    using i by (simp add: ranks_def r' map_update sum_list_update less_diff_conv2)
  show "rn_stop r'" "\<forall>j. rn_workers r' ! i \<noteq> Busy j"
    using assms(2) i stopped_step[OF s] by (simp_all add: r')
qed

lemma stopped_run:
  assumes "pool_run process r n js s" and "rn_stop r"
  shows "n + ranks s \<le> ranks r \<and> rn_stop s \<and> js = []"
  using assms
proof (induction rule: pool_run.induct)
  case (Step n js s i s')
  then show ?case using ranks_step[OF Step(2)] by (auto split: phase.split)
qed (simp_all add: ranks_def)

lemma no_workers_run:
  "pool_run process r n js s \<Longrightarrow> rn_workers r = [] \<Longrightarrow> n = 0 \<and> js = [] \<and> rn_workers s = []"
  by (induction rule: pool_run.induct) (auto simp: worker_step_def)

lemma ranks_le: "ranks r \<le> 2 * length (rn_workers r)"
proof -
  have two: "rank p \<le> 2" for p by (cases p) simp_all
  have "sum_list (map rank ps) \<le> 2 * length ps" for ps
  proof (induction ps)
    case (Cons p ps)
    with two[of p] show ?case by simp
  qed simp
  then show ?thesis by (simp add: ranks_def)
qed

lemma not_waited_step:
  assumes "\<not> waited r"
  shows "\<exists>i r'. worker_step process i r r'"
proof -
  obtain i where "i < length (rn_workers r)" "rn_workers r ! i \<noteq> Returned"
    using assms by (auto simp: waited_def list_all_length)
  with loop_progress[of "rn_workers r ! i" process "rn_stop r" "rn_world r"] show ?thesis
    by (auto simp: worker_step_def)
qed

text \<open>A round of the loop, as two steps of it.\<close>

lemma round_steps:
  assumes "run (worker_round process) w = (Worked j out, w')"
  obtains w1 where "loop_step process False (Head, w) (Busy j, w1)" "run (work process j) w1 = (out, w')"
    "loop_step process False (Busy j, w1) (Head, w')"
proof -
  obtain r w1 where r: "run ClaimMediaJob w = (r, w1)" by force
  with assms have "r = Inr (Some j) \<and> run (work process j) w1 = (out, w')"
    by (auto simp: worker_round_def work_def split: sum.splits option.splits prod.splits)
  with r that loop_step.Claimed loop_step.Done show thesis by metis
qed

end
