(* ===== verification/EnvConfig.thy ===== *)
theory EnvConfig
  imports Config Json
begin

text \<open>
  \<open>lib/env.go\<close>, the connection string of \<open>lib/db.go\<close> and the trusted proxies of \<open>lib/handler.go\<close>:
  the configuration read from the environment with its defaults and bounds. The
  environment and the search for ffprobe are arguments.
\<close>

section \<open>Reading variables\<close>

definition getenvDefault :: "(string \<Rightarrow> string) \<Rightarrow> string \<Rightarrow> string \<Rightarrow> string" where
  "getenvDefault env key def = (let v = env key in if v = [] then def else v)"

fun getenvFirstNonEmpty :: "(string \<Rightarrow> string) \<Rightarrow> string list \<Rightarrow> string \<Rightarrow> string" where
  "getenvFirstNonEmpty env [] def = def"
| "getenvFirstNonEmpty env (k # ks) def =
     (let v = TrimSpace (env k) in if v \<noteq> [] then v else getenvFirstNonEmpty env ks def)"

definition env_int :: "(string \<Rightarrow> string) \<Rightarrow> string \<Rightarrow> string \<Rightarrow> int" where
  "env_int env key def = fst (Atoi (getenvDefault env key def))"

definition env_on :: "(string \<Rightarrow> string) \<Rightarrow> string \<Rightarrow> bool" where
  "env_on env key \<longleftrightarrow> EqualFold (TrimSpace (env key)) ''1'' \<or> EqualFold (TrimSpace (env key)) ''true''"

definition env_not_off :: "(string \<Rightarrow> string) \<Rightarrow> string \<Rightarrow> bool" where
  "env_not_off env key \<longleftrightarrow>
     \<not> EqualFold (TrimSpace (env key)) ''0'' \<and> \<not> EqualFold (TrimSpace (env key)) ''false''"

definition at_least :: "int \<Rightarrow> int \<Rightarrow> int" where
  "at_least lo n = (if n < lo then lo else n)"

definition clamp :: "int \<Rightarrow> int \<Rightarrow> int \<Rightarrow> int" where
  "clamp lo hi n = (let n = (if n < lo then lo else n) in if n > hi then hi else n)"

definition positive_or :: "int \<Rightarrow> int \<Rightarrow> int" where
  "positive_or def n = (if n \<le> 0 then def else n)"

definition float_or :: "float64 \<Rightarrow> float64 \<Rightarrow> float64" where
  "float_or def v = (if fle_zero v then def else v)"

definition resolveFFprobePath :: "(string \<Rightarrow> string) \<Rightarrow> string option \<Rightarrow> string" where
  "resolveFFprobePath env lookPath = (let p = TrimSpace (env ''FFPROBE_PATH'') in
     if p \<noteq> [] then p else (case lookPath of Some q \<Rightarrow> q | None \<Rightarrow> []))"

definition secs :: "int \<Rightarrow> int" where
  "secs n = wrap64 (n * 1000000000)"

section \<open>\<open>NewEnv\<close>\<close>

definition NewEnv :: "(string \<Rightarrow> string) \<Rightarrow> string option \<Rightarrow> Env" where
  "NewEnv env lookPath =
     (let pf = (\<lambda>key def. fst (ParseFloat (getenvDefault env key def)));
          dbIdleSecs = (let n = env_int env ''DB_CONN_MAX_IDLE_SECS'' ''90'' in if n < 0 then 90 else n);
          dbLifeSecs = env_int env ''DB_CONN_MAX_LIFETIME_SECS'' ''0''
      in \<lparr>ServerPort = getenvFirstNonEmpty env [''APP_PORT'', ''PORT'', ''FLASK_PORT''] ''5000'',
          EnvMode = getenvDefault env ''ENV_MODE'' ''development'',
          LogLevel = getenvDefault env ''LOG_LEVEL'' ''info'',
          DBHost = env ''POSTGRES_HOST'',
          DBPort = getenvDefault env ''POSTGRES_PORT'' ''5432'',
          DBUser = env ''POSTGRES_USER'',
          DBPassword = env ''POSTGRES_PASS'',
          DBName = env ''POSTGRES_DB'',
          DBSSLMode = TrimSpace (env ''POSTGRES_SSLMODE''),
          DBMaxOpenConns = positive_or 25 (env_int env ''DB_MAX_OPEN_CONNS'' ''25''),
          DBMaxIdleConns = at_least 0 (env_int env ''DB_MAX_IDLE_CONNS'' ''10''),
          DBConnMaxIdleTime = secs dbIdleSecs,
          DBConnMaxLifetime = (if dbLifeSecs > 0 then secs dbLifeSecs else 0),
          AuthHost = TrimRight (getenvFirstNonEmpty env [''USERVER_AUTH_HOST'', ''AUTH_HOST''] []) ''/'',
          AuthHTTPTimeout = secs (clamp 5 120 (env_int env ''USERVER_AUTH_TIMEOUT_SECS'' ''15'')),
          LocalRoot = getenvFirstNonEmpty env [''LOCAL_STORAGE_ROOT'', ''LOCAL_TEST_STORAGE_ROOT''] ''/storages/local'',
          DownloadRatio = float_or (Fin (17 / 4)) (pf ''DOWNLOAD_EXP_BYTES_SECS_RATIO'' ''4.25''),
          PublicBaseURL = TrimRight (env ''APP_PUBLIC_BASE_URL'') ''/'',
          TrustedProxyCIDRs = env ''TRUSTED_PROXY_CIDRS'',
          CorsDebug = env_on env ''CORS_DEBUG'',
          CorsAllowedOrigins = TrimSpace (env ''CORS_ALLOWED_ORIGINS''),
          SecurityEnableHSTS = env_on env ''SECURITY_ENABLE_HSTS'',
          RateLimitEnabled = env_not_off env ''RATE_LIMIT_ENABLED'',
          RateLimitRPS = float_or (Fin 30) (pf ''RATE_LIMIT_RPS'' ''30''),
          RateLimitBurst = positive_or 60 (env_int env ''RATE_LIMIT_BURST'' ''60''),
          RateLimitUploadURLRPS = float_or (Fin 5) (pf ''RATE_LIMIT_UPLOAD_URL_RPS'' ''5''),
          RateLimitUploadURLBurst = positive_or 10 (env_int env ''RATE_LIMIT_UPLOAD_URL_BURST'' ''10''),
          AuditLogEnabled = env_not_off env ''AUDIT_LOG_ENABLED'',
          URLFetchMaxBytes = positive_or 536870912 (env_int env ''URL_FETCH_MAX_BYTES'' (Itoa 536870912)),
          URLFetchTimeout = secs (clamp 5 600 (env_int env ''URL_FETCH_TIMEOUT_SECS'' ''120'')),
          URLFetchAllowHTTP = env_on env ''URL_FETCH_ALLOW_HTTP'',
          URLFetchMaxRedirects = clamp 0 20 (env_int env ''URL_FETCH_MAX_REDIRECTS'' ''8''),
          MediaProcessingEnabled = env_not_off env ''MEDIA_PROCESSING_ENABLED'',
          MediaWorkerCount = at_least 0 (env_int env ''MEDIA_WORKER_COUNT'' ''2''),
          MediaWorkerPollMS = at_least 200 (env_int env ''MEDIA_WORKER_POLL_MS'' ''1500''),
          FFprobePath = resolveFFprobePath env lookPath,
          MediaMaxImageBytes = positive_or 83886080 (env_int env ''MEDIA_MAX_IMAGE_BYTES'' (Itoa 83886080)),
          MediaMaxVideoProbeBytes = positive_or 268435456 (env_int env ''MEDIA_MAX_VIDEO_PROBE_BYTES'' (Itoa 268435456))\<rparr>)"

section \<open>Trusted proxies\<close>

definition trusted_proxies :: "Env \<Rightarrow> string list" where
  "trusted_proxies e =
     (let cidr = TrimSpace (TrustedProxyCIDRs e);
          proxies = (if cidr \<noteq> [] then filter (\<lambda>t. t \<noteq> []) (map TrimSpace (split_on (CHR '','') cidr))
            else [''127.0.0.1'', ''::1'', ''10.0.0.0/8'', ''172.16.0.0/12'', ''192.168.0.0/16''])
      in if proxies = [] then [''127.0.0.1'', ''::1''] else proxies)"

section \<open>The connection string\<close>

definition hex_char :: "nat \<Rightarrow> char" where
  "hex_char n = char_of (if n < 10 then n + 48 else n + 55)"

definition unreserved :: "char \<Rightarrow> bool" where
  "unreserved c \<longleftrightarrow> (let n = of_char c :: nat in (48 \<le> n \<and> n \<le> 57) \<or> (65 \<le> n \<and> n \<le> 90)
     \<or> (97 \<le> n \<and> n \<le> 122)) \<or> c = CHR ''-'' \<or> c = CHR ''_'' \<or> c = CHR ''.'' \<or> c = CHR ''~''"

definition escape_byte :: "char \<Rightarrow> string" where
  "escape_byte c = (if unreserved c then [c] else if c = CHR '' '' then ''+''
     else [CHR ''%'', hex_char (of_char c div 16), hex_char (of_char c mod 16)])"

definition QueryEscape :: "string \<Rightarrow> string" where
  "QueryEscape s = concat (map escape_byte s)"

definition ssl_mode :: "Env \<Rightarrow> string" where
  "ssl_mode e = (if DBSSLMode e = [] then (if IsProduction e then ''require'' else ''disable'')
     else DBSSLMode e)"

definition database_dsn :: "Env \<Rightarrow> string" where
  "database_dsn e = ''postgres://'' @ QueryEscape (DBUser e) @ '':'' @ QueryEscape (DBPassword e) @ ''@''
     @ DBHost e @ '':'' @ DBPort e @ ''/'' @ DBName e @ ''?sslmode='' @ ssl_mode e"

text \<open>
  How the driver reads user and password back: \<open>net/url\<close> decodes percent escapes in the user part of
  a URL, and leaves a plus sign alone.
\<close>

function userinfo_unescape :: "string \<Rightarrow> string option" where
  "userinfo_unescape [] = Some []"
| "userinfo_unescape (c # s) =
     (if c \<noteq> CHR ''%'' then map_option (Cons c) (userinfo_unescape s)
      else if length s < 2 then None
      else (case (hex_digit (s ! 0), hex_digit (s ! 1)) of
          (Some a, Some b) \<Rightarrow> map_option (Cons (byte (16 * a + b))) (userinfo_unescape (drop 2 s))
        | _ \<Rightarrow> None))"
  by pat_completeness auto
termination by (relation "measure length") auto

lemma hex_digit_char: "n < 16 \<Longrightarrow> hex_digit (hex_char n) = Some n"
  by (auto simp: hex_digit_def hex_char_def Let_def)

lemma char_small: "(of_char c :: nat) < 256"
  by simp

lemma unreserved_not_percent: "unreserved c \<Longrightarrow> c \<noteq> CHR ''%''"
  by (auto simp: unreserved_def Let_def)

lemma unescape_escape_byte:
  assumes "c \<noteq> CHR '' ''"
  shows "userinfo_unescape (escape_byte c @ s) = map_option (Cons c) (userinfo_unescape s)"
proof (cases "unreserved c")
  case True
  then show ?thesis using unreserved_not_percent[of c] by (simp add: escape_byte_def)
next
  case False
  have "(of_char c :: nat) div 16 < 16" "(of_char c :: nat) mod 16 < 16"
    using char_small[of c] by (auto simp: less_mult_imp_div_less)
  note h = hex_digit_char[OF this(1)] hex_digit_char[OF this(2)]
  have "byte (16 * (of_char c div 16) + of_char c mod 16) = c"
    by (simp add: byte_def)
  with False assms h show ?thesis by (simp add: escape_byte_def)
qed

lemma userinfo_escape: "CHR '' '' \<notin> set s \<Longrightarrow> userinfo_unescape (QueryEscape s) = Some s"
proof (induction s)
  case (Cons c s)
  then show ?case using unescape_escape_byte[of c] by (auto simp: QueryEscape_def)
qed (simp add: QueryEscape_def)

interpretation dsn_user: codec QueryEscape "\<lambda>s. the (userinfo_unescape s)" "\<lambda>s. CHR '' '' \<notin> set s"
  by unfold_locales (simp add: userinfo_escape)

end
