(* ===== verification/Startup.thy ===== *)
theory Startup
  imports EnvConfig Router PoolLoop
begin

text \<open>
  How the process is put together from its configuration: the logger (\<open>lib/logger.go\<close>), the outbound
  transport (\<open>lib/http_transport.go\<close>), the handle of the database (\<open>lib/db.go\<close>), gin
  (\<open>lib/handler.go\<close>), the server, the migrations and the health probe (\<open>cmd/commands\<close>), and the
  ticker of the workers. Durations are nanoseconds.
\<close>

section \<open>Logging\<close>

datatype level = DebugLevel | InfoLevel | WarnLevel | ErrorLevel

record log_config =
  lc_development :: bool
  lc_color :: bool
  lc_level :: level

definition newLogger :: "Env \<Rightarrow> log_config" where
  "newLogger e = \<lparr>lc_development = IsLocal e, lc_color = IsLocal e,
     lc_level = (if LogLevel e = ''debug'' then DebugLevel else if LogLevel e = ''warn'' then WarnLevel
       else if LogLevel e = ''error'' then ErrorLevel else InfoLevel)\<rparr>"

text \<open>What gin writes becomes an info line without its end; the byte count is always the whole.\<close>

definition GinLogger_Write :: "string \<Rightarrow> string option \<times> nat" where
  "GinLogger_Write p = (let msg = TrimRight p [CHR 13, CHR 10] in
     (if msg \<noteq> [] then Some msg else None, length p))"

datatype fx_event = OnStartExecuted string "string option" | OnStopExecuted string "string option"
  | Started "string option" | OtherEvent

text \<open>The message and the fields of the debug line an event leaves.\<close>

definition LogEvent :: "fx_event \<Rightarrow> (string \<times> (string \<times> string) list) option" where
  "LogEvent ev = (case ev of
     OnStartExecuted f (Some er) \<Rightarrow> Some (''OnStart failed: '', [(''callee'', f), (''error'', er)])
   | OnStopExecuted f (Some er) \<Rightarrow> Some (''OnStop failed: '', [(''callee'', f), (''error'', er)])
   | Started None \<Rightarrow> Some (''started'', [])
   | _ \<Rightarrow> None)"

section \<open>Outbound HTTP\<close>

record pooled_transport =
  pt_dial_timeout :: int
  pt_keep_alive :: int
  pt_http2 :: bool
  pt_max_idle :: int
  pt_max_idle_per_host :: int
  pt_max_per_host :: int
  pt_idle_timeout :: int
  pt_tls_timeout :: int
  pt_continue_timeout :: int

definition NewPooledTransport :: pooled_transport where
  "NewPooledTransport = \<lparr>pt_dial_timeout = secs 10, pt_keep_alive = secs 30, pt_http2 = True,
     pt_max_idle = 100, pt_max_idle_per_host = 32, pt_max_per_host = 64, pt_idle_timeout = secs 90,
     pt_tls_timeout = secs 10, pt_continue_timeout = secs 1\<rparr>"

text \<open>The clients for uServer-Auth and for uploads from a URL.\<close>

record auth_client =
  ac_base :: string
  ac_timeout :: int
  ac_transport :: pooled_transport

definition NewClient :: "string \<Rightarrow> int \<Rightarrow> auth_client" where
  "NewClient baseURL timeout = \<lparr>ac_base = NewClient_base baseURL,
     ac_timeout = (if timeout \<le> 0 then secs 15 else timeout), ac_transport = NewPooledTransport\<rparr>"

definition NewService :: "Env \<Rightarrow> auth_client" where
  "NewService e = NewClient (AuthHost e) (AuthHTTPTimeout e)"

record fetch_client =
  fc_timeout :: int
  fc_redirects :: nat
  fc_allow_http :: bool
  fc_allow_loopback :: bool

definition NewFetchClient :: "Env \<Rightarrow> fetch_client" where
  "NewFetchClient e = \<lparr>fc_timeout = URLFetchTimeout e, fc_redirects = maxRedir e,
     fc_allow_http = URLFetchAllowHTTP e, fc_allow_loopback = (\<not> IsProduction e)\<rparr>"

section \<open>The router\<close>

text \<open>The two limiters, each with the burst of its buckets, and the options of the CORS middleware.\<close>

definition NewRouter :: "Env \<Rightarrow> ('l ipRateLimiter \<times> int) \<times> ('l ipRateLimiter \<times> int)" where
  "NewRouter e = (newIPRateLimiter (RateLimitEnabled e) (RateLimitRPS e) (RateLimitBurst e),
     newIPRateLimiter (RateLimitEnabled e) (RateLimitUploadURLRPS e) (RateLimitUploadURLBurst e))"

record cors_options =
  co_origins :: "string list"
  co_methods :: "string list"
  co_headers :: "string list"
  co_credentials :: bool
  co_debug :: bool

definition cors_middleware :: "Env \<Rightarrow> cors_options" where
  "cors_middleware e = (case corsOptionsFromEnv e of (origins, allowCreds) \<Rightarrow>
     \<lparr>co_origins = origins, co_methods = [''GET'', ''POST'', ''PUT'', ''PATCH'', ''DELETE'', ''OPTIONS'', ''HEAD''],
      co_headers = [''*''], co_credentials = allowCreds, co_debug = CorsDebug e\<rparr>)"

section \<open>The database handle\<close>

text \<open>Connections are kept for ever unless a lifetime is set.\<close>

record pool_config =
  pc_dsn :: string
  pc_max_open :: int
  pc_idle_time :: int
  pc_max_idle :: int
  pc_lifetime :: "int option"

definition NewDatabase :: "Env \<Rightarrow> pool_config" where
  "NewDatabase e = \<lparr>pc_dsn = database_dsn e, pc_max_open = DBMaxOpenConns e,
     pc_idle_time = DBConnMaxIdleTime e, pc_max_idle = DBMaxIdleConns e,
     pc_lifetime = (if DBConnMaxLifetime e > 0 then Some (DBConnMaxLifetime e) else None)\<rparr>"

section \<open>gin and the server\<close>

record engine =
  en_release :: bool
  en_proxies :: "string list"

definition NewRequestHandler :: "Env \<Rightarrow> engine" where
  "NewRequestHandler e = \<lparr>en_release = (\<not> IsLocal e), en_proxies = trusted_proxies e\<rparr>"

record server =
  sv_addr :: string
  sv_header_timeout :: int
  sv_read_timeout :: int
  sv_write_timeout :: int
  sv_idle_timeout :: int
  sv_max_header :: int

definition ServeCommand :: "Env \<Rightarrow> server" where
  "ServeCommand e = \<lparr>sv_addr = CHR '':'' # ServerPort e, sv_header_timeout = secs 10,
     sv_read_timeout = secs 60, sv_write_timeout = secs 120, sv_idle_timeout = secs 180,
     sv_max_header = 1048576\<rparr>"

text \<open>The status and the text of \<open>/healthz\<close>, which neither limiter nor authentication guards.\<close>

definition healthz :: "int \<times> string" where
  "healthz = (200, ''ok'')"

section \<open>Commands\<close>

text \<open>What ends the process: \<open>logger.Fatal\<close>. \<open>ErrNoChange\<close> is not an error of a migration run.\<close>

datatype migrate_err = ErrNoChange | MigrateErr string

definition createMigrationStruct :: "string result \<Rightarrow> (string \<Rightarrow> 'm result) \<Rightarrow> 'm result" where
  "createMigrationStruct driver newInstance = (case driver of
     Inl er \<Rightarrow> Inl (Err (''postgres migrate driver: '' @ err_text er))
   | Inr d \<Rightarrow> (case newInstance d of Inl er \<Rightarrow> Inl (Err (''migrate instance: '' @ err_text er)) | Inr mi \<Rightarrow> Inr mi))"

definition migrate_run :: "string \<Rightarrow> 'm result \<Rightarrow> ('m \<Rightarrow> migrate_err option) \<Rightarrow> unit result" where
  "migrate_run what m go = (case m of Inl er \<Rightarrow> Inl er
     | Inr mi \<Rightarrow> (case go mi of
         Some (MigrateErr s) \<Rightarrow> Inl (Err (what @ '': '' @ s))
       | _ \<Rightarrow> Inr ()))"

definition MigrateUpCommand :: "'m result \<Rightarrow> ('m \<Rightarrow> migrate_err option) \<Rightarrow> unit result" where
  "MigrateUpCommand m up = migrate_run ''migrate up'' m up"

definition MigrateDownCommand :: "'m result \<Rightarrow> ('m \<Rightarrow> migrate_err option) \<Rightarrow> unit result" where
  "MigrateDownCommand m down = migrate_run ''migrate down'' m down"

text \<open>The probe of the container: a GET on the local port; the environment and the client are arguments.\<close>

definition probe_url :: "(string \<Rightarrow> string) \<Rightarrow> string" where
  "probe_url env = ''http://127.0.0.1:'' @ getenvFirstNonEmpty env [''APP_PORT'', ''PORT'', ''FLASK_PORT''] ''5000''
     @ ''/healthz''"

definition HealthProbeCommand :: "(string \<Rightarrow> string) \<Rightarrow> (string \<Rightarrow> int result) \<Rightarrow> unit result" where
  "HealthProbeCommand env get = (case get (probe_url env) of
     Inl er \<Rightarrow> Inl er
   | Inr status \<Rightarrow> if status \<noteq> 200 then Inl (Err (''healthz: status '' @ Itoa status)) else Inr ())"

text \<open>A machine on which one server listens, as a client on it sees it.\<close>

definition listening :: "server \<Rightarrow> string \<Rightarrow> int result" where
  "listening sv url = (if url = ''http://127.0.0.1'' @ sv_addr sv @ ''/healthz'' then Inr (fst healthz)
     else Inl (Err ''connection refused''))"

section \<open>The ticker of the workers\<close>

text \<open>\<open>time.NewTicker\<close> panics on an interval that is not positive.\<close>

definition poll_interval :: "Env \<Rightarrow> int" where
  "poll_interval e = wrap64 (MediaWorkerPollMS e * 1000000)"

definition ticker_panics :: "Env \<Rightarrow> bool" where
  "ticker_panics e \<longleftrightarrow> Start e > 0 \<and> poll_interval e \<le> 0"

lemma poll_interval_ok:
  assumes "MediaWorkerPollMS e \<ge> 200" and "MediaWorkerPollMS e \<le> 9223372036854"
  shows "poll_interval e = MediaWorkerPollMS e * 1000000" "\<not> ticker_panics e"
proof -
  show "poll_interval e = MediaWorkerPollMS e * 1000000"
    using assms unfolding poll_interval_def by (intro wrap64_id) (simp add: in_int64_def min_int64_def max_int64_def)
  with assms show "\<not> ticker_panics e" by (simp add: ticker_panics_def)
qed

end
