(* ===== verification/Bootstrap.thy ===== *)
theory Bootstrap
  imports EnvFile Json
begin

text \<open>
  \<open>internal/userver_auth/run.go\<close> and \<open>run_phases.go\<close>: creating a system at uServer-Auth, registering a
  first administrator, and keeping what was created in the env file. The auth server is a function
  from requests to a status and a body; the requests made are recorded.
\<close>

section \<open>Requests\<close>

text \<open>A JSON body is kept as the map it is made from.\<close>

datatype body_value = BStr string | BBool bool

record auth_request =
  ar_url :: string
  ar_authorization :: "string option"
  ar_body :: "(string \<times> body_value) list"

type_synonym auth_server = "auth_request \<Rightarrow> (int \<times> string) result"

record boot =
  bt_file :: env_file
  bt_calls :: "auth_request list"
  bt_log :: "persist_log list"

text \<open>The process environment, as far as persisting reads it.\<close>

record boot_env =
  be_skip_persist :: string
  be_path :: string

definition persist :: "boot_env \<Rightarrow> (string \<times> string) list \<Rightarrow> bool \<Rightarrow> boot \<Rightarrow> boot" where
  "persist be updates quiet b =
     (case persistBootstrapEnv (be_skip_persist be) (be_path be) quiet (bt_file b) updates of
        (lg, fs) \<Rightarrow> b\<lparr>bt_file := fs, bt_log := bt_log b @ lg\<rparr>)"

definition call :: "auth_server \<Rightarrow> auth_request \<Rightarrow> boot \<Rightarrow> (int \<times> string) result \<times> boot" where
  "call srv r b = (srv r, b\<lparr>bt_calls := bt_calls b @ [r]\<rparr>)"

section \<open>Creating the system\<close>

definition system_request :: "string \<Rightarrow> string \<Rightarrow> string \<Rightarrow> string \<Rightarrow> auth_request" where
  "system_request ctxBase createTok sysName customTok =
     \<lparr>ar_url = ctxBase @ ''/auth/system'', ar_authorization = Some (''Token '' @ createTok),
      ar_body = [(''name'', BStr sysName)] @ (if customTok \<noteq> [] then [(''token'', BStr customTok)] else [])\<rparr>"

definition decode_system :: "string \<Rightarrow> string result" where
  "decode_system body = (case json_parse body of None \<Rightarrow> Inl (Err ''bootstrap:auth: decode system response'')
     | Some v \<Rightarrow> (case members v of None \<Rightarrow> Inl (Err ''bootstrap:auth: decode system response'')
       | Some ms \<Rightarrow> if string_field_ok (field_of ''token'' ms) \<and> string_field_ok (field_of ''name'' ms)
           then Inr (string_field (field_of ''token'' ms))
           else Inl (Err ''bootstrap:auth: decode system response'')))"

definition phaseCreateSystem :: "auth_server \<Rightarrow> boot_env \<Rightarrow> string \<Rightarrow> string \<Rightarrow> string \<Rightarrow> string \<Rightarrow> string
    \<Rightarrow> boot \<Rightarrow> string result \<times> boot" where
  "phaseCreateSystem srv be ctxBase createTok sysName customTok priorSystemKey b =
     (if createTok = [] then (Inr priorSystemKey, b)
      else if sysName = [] then (Inl (Err
        ''bootstrap:auth: FILEMGR_BOOTSTRAP_SYSTEM_NAME is required when SYSTEM_CREATION_TOKEN is set''), b)
      else (case call srv (system_request ctxBase createTok sysName customTok) b of
        (Inl e, b) \<Rightarrow> (Inl (Err ''bootstrap:auth POST /auth/system''), b)
      | (Inr (status, body), b) \<Rightarrow>
          (let body = take 1048576 body in
           if status = 201 then
             (case decode_system body of
                Inl e \<Rightarrow> (Inl e, b)
              | Inr tok \<Rightarrow>
                  if tok \<noteq> [] then (Inr tok, persist be [(''FILEMGR_SYSTEM_TOKEN'', tok)] True b)
                  else (Inr priorSystemKey, b))
           else if status = 409 then (Inr priorSystemKey, b)
           else (Inl (Err (''bootstrap:auth POST /auth/system: status '' @ Itoa status @ '': ''
             @ TrimSpace body)), b))))"

section \<open>Registering the administrator\<close>

definition register_request :: "string \<Rightarrow> string \<Rightarrow> string \<Rightarrow> string \<Rightarrow> string \<Rightarrow> bool \<Rightarrow> auth_request" where
  "register_request ctxBase sysName user pass systemAPIKey isAdmin =
     \<lparr>ar_url = ctxBase @ ''/auth/register'', ar_authorization = None,
      ar_body = [(''username'', BStr user), (''system_name'', BStr sysName),
        (''system_token'', BStr systemAPIKey), (''password'', BStr pass), (''is_admin'', BBool isAdmin)]\<rparr>"

definition persistAfterRegister :: "boot_env \<Rightarrow> string \<Rightarrow> string \<Rightarrow> string \<Rightarrow> string \<Rightarrow> boot \<Rightarrow> boot" where
  "persistAfterRegister be systemAPIKey user pass isAdminStr =
     persist be [(''FILEMGR_SYSTEM_TOKEN'', systemAPIKey), (''FILEMGR_BOOTSTRAP_ADMIN_USERNAME'', user),
       (''FILEMGR_BOOTSTRAP_ADMIN_PASSWORD'', pass), (''FILEMGR_BOOTSTRAP_ADMIN_IS_ADMIN'', isAdminStr)] False"

definition phaseRegisterAdmin :: "auth_server \<Rightarrow> boot_env \<Rightarrow> string \<Rightarrow> string \<Rightarrow> string \<Rightarrow> string \<Rightarrow> string
    \<Rightarrow> string \<Rightarrow> boot \<Rightarrow> err option \<times> boot" where
  "phaseRegisterAdmin srv be isAdminVar ctxBase sysName user pass systemAPIKey b =
     (let v = TrimSpace isAdminVar;
          isAdmin = (if v = ''0'' \<or> EqualFold v ''false'' then False else True);
          isAdminStr = (if \<not> isAdmin then ''0'' else ''1'') in
      case call srv (register_request ctxBase sysName user pass systemAPIKey isAdmin) b of
        (Inl e, b) \<Rightarrow> (Some (Err ''bootstrap:auth POST /auth/register''), b)
      | (Inr (status, body), b) \<Rightarrow>
          (let body = take 1048576 body in
           if status = 201 \<or> status = 409
           then (None, persistAfterRegister be systemAPIKey user pass isAdminStr b)
           else (Some (Err (''bootstrap:auth POST /auth/register: status '' @ Itoa status @ '': ''
             @ TrimSpace body)), b)))"

section \<open>The run\<close>

definition boot_env_of :: "(string \<Rightarrow> string) \<Rightarrow> boot_env" where
  "boot_env_of getenv = \<lparr>be_skip_persist = getenv ''FILEMGR_SKIP_PERSIST_BOOTSTRAP_ENV'',
     be_path = resolveEnvFilePath getenv\<rparr>"

definition Run :: "auth_server \<Rightarrow> (string \<Rightarrow> string) \<Rightarrow> string \<Rightarrow> boot \<Rightarrow> err option \<times> boot" where
  "Run srv getenv authHost b =
     (if TrimSpace (getenv ''SKIP_AUTH_BOOTSTRAP'') = ''1'' then (None, b)
      else
        (let sysName = TrimSpace (getenv ''FILEMGR_BOOTSTRAP_SYSTEM_NAME'');
             createTok = TrimSpace (getenv ''SYSTEM_CREATION_TOKEN'');
             systemAPIKey = TrimSpace (getenv ''FILEMGR_SYSTEM_TOKEN'');
             customTok = TrimSpace (getenv ''FILEMGR_BOOTSTRAP_CUSTOM_SYSTEM_TOKEN'');
             user = TrimSpace (getenv ''FILEMGR_BOOTSTRAP_ADMIN_USERNAME'');
             pass = getenv ''FILEMGR_BOOTSTRAP_ADMIN_PASSWORD'';
             be = boot_env_of getenv in
         if createTok = [] \<and> sysName = [] \<and> user = [] \<and> pass = [] then (None, b)
         else
           (let base = TrimSpace authHost in
            if base = [] then (Some (Err ''bootstrap:auth: set USERVER_AUTH_HOST or AUTH_HOST''), b)
            else
              (let ctxBase = TrimRight base ''/'' in
               case phaseCreateSystem srv be ctxBase createTok sysName customTok systemAPIKey b of
                 (Inl e, b) \<Rightarrow> (Some e, b)
               | (Inr systemAPIKey, b) \<Rightarrow>
                   if user = [] \<and> pass = [] then (None, b)
                   else if user = [] \<or> pass = [] then
                     (Some (Err ''bootstrap:auth: set both FILEMGR_BOOTSTRAP_ADMIN_USERNAME and FILEMGR_BOOTSTRAP_ADMIN_PASSWORD''), b)
                   else if sysName = [] then
                     (Some (Err ''bootstrap:auth: FILEMGR_BOOTSTRAP_SYSTEM_NAME is required for register''), b)
                   else if systemAPIKey = [] then
                     (Some (Err ''bootstrap:auth: FILEMGR_SYSTEM_TOKEN is required to register''), b)
                   else phaseRegisterAdmin srv be (getenv ''FILEMGR_BOOTSTRAP_ADMIN_IS_ADMIN'') ctxBase
                     sysName user pass systemAPIKey b))))"

end
