(* ===== verification/Application.thy ===== *)
theory Application
  imports Startup Bootstrap
begin

text \<open>
  How the process is assembled (\<open>cmd\<close>, \<open>lib/lib.go\<close> and the constructors they name): the commands of
  the binary, the constructors and invocations each hands to fx with what they need, and the hooks
  they append to its life cycle. fx itself is a library; \<open>built\<close> says which orders of calls its
  documentation allows.
\<close>

section \<open>Constructors\<close>

text \<open>What fx builds, by type.\<close>

datatype comp = Env | Logger | RequestHandler | Database | DataDB | AuthService | ObjectFactory
  | Processor | Pool | URLFetchClient | APIRouter | HTTPServer

datatype direction = Up | Down

datatype action = StartWorkers | StopWorkers | RegisterRoutes | Listen | ShutdownServer | CloseDatabase
  | Migrate direction

record hook =
  on_start :: "action list"
  on_stop :: "action list"

record constructor =
  gives :: comp
  needs :: "comp list"
  hooks :: "hook list"

definition hookless :: "comp \<Rightarrow> comp list \<Rightarrow> constructor" where
  "hookless c ns = \<lparr>gives = c, needs = ns, hooks = []\<rparr>"

definition lib_NewEnv :: constructor where "lib_NewEnv = hookless Env []"

definition lib_GetLogger :: constructor where "lib_GetLogger = hookless Logger []"

definition lib_NewRequestHandler :: constructor where
  "lib_NewRequestHandler = hookless RequestHandler [Logger, Env]"

definition lib_NewDatabase :: constructor where
  "lib_NewDatabase = \<lparr>gives = Database, needs = [Env, Logger],
     hooks = [\<lparr>on_start = [], on_stop = [CloseDatabase]\<rparr>]\<rparr>"

definition data_NewDB :: constructor where "data_NewDB = hookless DataDB [Database]"

definition auth_NewService :: constructor where "auth_NewService = hookless AuthService [Database, Env]"

definition object_store_NewFactory :: constructor where
  "object_store_NewFactory = hookless ObjectFactory [Env]"

definition media_processor_NewProcessor :: constructor where
  "media_processor_NewProcessor = hookless Processor [Env, DataDB, ObjectFactory, Logger]"

definition media_worker_NewPool :: constructor where
  "media_worker_NewPool = hookless Pool [Env, DataDB, Processor, Logger]"

definition urlfetch_NewClient :: constructor where "urlfetch_NewClient = hookless URLFetchClient [Env]"

definition http_api_NewRouter :: constructor where
  "http_api_NewRouter = hookless APIRouter
     [RequestHandler, Env, Logger, DataDB, AuthService, ObjectFactory, URLFetchClient]"

text \<open>The server registers the routes and listens when it starts.\<close>

definition ServeCommand_Run :: constructor where
  "ServeCommand_Run = \<lparr>gives = HTTPServer, needs = [Env, RequestHandler, APIRouter, Logger],
     hooks = [\<lparr>on_start = [RegisterRoutes, Listen], on_stop = [ShutdownServer]\<rparr>]\<rparr>"

section \<open>Applications\<close>

text \<open>An invocation: what it needs, what it does at once, and the hooks it appends.\<close>

record invocation =
  iv_needs :: "comp list"
  iv_does :: "action list"
  iv_hooks :: "hook list"

definition media_worker_Register :: invocation where
  "media_worker_Register = \<lparr>iv_needs = [Pool], iv_does = [],
     iv_hooks = [\<lparr>on_start = [StartWorkers], on_stop = [StopWorkers]\<rparr>]\<rparr>"

record application =
  provides :: "constructor list"
  invokes :: "invocation list"

definition lib_Module :: "constructor list" where
  "lib_Module = [lib_NewRequestHandler, lib_NewEnv, lib_GetLogger, lib_NewDatabase]"

definition CommonModules :: application where
  "CommonModules = \<lparr>provides = lib_Module @ [data_NewDB, auth_NewService, object_store_NewFactory,
       media_processor_NewProcessor, media_worker_NewPool, urlfetch_NewClient, http_api_NewRouter],
     invokes = [media_worker_Register]\<rparr>"

text \<open>\<open>fx.Invoke(func(*http.Server) {})\<close> makes fx build the server.\<close>

definition WrapServerCommand :: "constructor \<Rightarrow> application \<Rightarrow> application" where
  "WrapServerCommand cmd opt = \<lparr>provides = provides opt @ [cmd],
     invokes = invokes opt @ [\<lparr>iv_needs = [gives cmd], iv_does = [], iv_hooks = []\<rparr>]\<rparr>"

definition WrapSubCommand :: "invocation \<Rightarrow> application \<Rightarrow> application" where
  "WrapSubCommand cmd opt = opt\<lparr>invokes := invokes opt @ [cmd]\<rparr>"

definition migrate_command :: "direction \<Rightarrow> invocation" where
  "migrate_command dir = \<lparr>iv_needs = [Logger, Database], iv_does = [Migrate dir], iv_hooks = []\<rparr>"

section \<open>The orders of calls fx allows\<close>

text \<open>
  Constructors run when something needs their value, once, and after what they need themselves;
  invocations run in the order given. \<open>required\<close> is what an invocation needs, directly or not.
\<close>

datatype fx_call = Constructed comp | Invoked nat

inductive required :: "constructor list \<Rightarrow> comp list \<Rightarrow> comp \<Rightarrow> bool" for ps roots where
  Root: "c \<in> set roots \<Longrightarrow> required ps roots c"
| Needed: "required ps roots (gives k) \<Longrightarrow> k \<in> set ps \<Longrightarrow> c \<in> set (needs k) \<Longrightarrow> required ps roots c"

fun invoked :: "fx_call list \<Rightarrow> nat" where
  "invoked [] = 0"
| "invoked (Invoked i # cs) = Suc (invoked cs)"
| "invoked (Constructed c # cs) = invoked cs"

inductive built :: "application \<Rightarrow> fx_call list \<Rightarrow> bool" for a where
  New: "built a []"
| Construct: "built a cs \<Longrightarrow> invoked cs < length (invokes a) \<Longrightarrow> k \<in> set (provides a)
    \<Longrightarrow> required (provides a) (iv_needs (invokes a ! invoked cs)) (gives k)
    \<Longrightarrow> Constructed (gives k) \<notin> set cs \<Longrightarrow> Constructed ` set (needs k) \<subseteq> set cs
    \<Longrightarrow> built a (cs @ [Constructed (gives k)])"
| Invoke: "built a cs \<Longrightarrow> invoked cs < length (invokes a)
    \<Longrightarrow> Constructed ` set (iv_needs (invokes a ! invoked cs)) \<subseteq> set cs
    \<Longrightarrow> built a (cs @ [Invoked (invoked cs)])"

text \<open>The hooks a run of calls appends, and what the process does from \<open>fx.New\<close> to its stop.\<close>

definition call_hooks :: "application \<Rightarrow> fx_call \<Rightarrow> hook list" where
  "call_hooks a c = (case c of
     Constructed t \<Rightarrow> concat (map hooks (filter (\<lambda>k. gives k = t) (provides a)))
   | Invoked i \<Rightarrow> iv_hooks (invokes a ! i))"

definition call_does :: "application \<Rightarrow> fx_call \<Rightarrow> action list" where
  "call_does a c = (case c of Constructed t \<Rightarrow> [] | Invoked i \<Rightarrow> iv_does (invokes a ! i))"

definition life :: "application \<Rightarrow> fx_call list \<Rightarrow> action list \<times> action list \<times> action list" where
  "life a cs = (let hs = concat (map (call_hooks a) cs) in
     (concat (map (call_does a) cs), concat (map on_start hs), concat (map on_stop (rev hs))))"

section \<open>The commands of the binary\<close>

datatype command = AppServe | MigrateUp | MigrateDown | HealthProbe | BootstrapAuth

definition Commands :: "(string \<times> command) list" where
  "Commands = [(''app:serve'', AppServe), (''migrate:up'', MigrateUp), (''migrate:down'', MigrateDown)]"

definition NewApp :: "(string \<times> command) list" where
  "NewApp = Commands @ [(''health:probe'', HealthProbe), (''bootstrap:auth'', BootstrapAuth)]"

text \<open>The application a command starts, for those that use fx.\<close>

fun application_of :: "command \<Rightarrow> application option" where
  "application_of AppServe = Some (WrapServerCommand ServeCommand_Run CommonModules)"
| "application_of MigrateUp = Some (WrapSubCommand (migrate_command Up) CommonModules)"
| "application_of MigrateDown = Some (WrapSubCommand (migrate_command Down) CommonModules)"
| "application_of HealthProbe = None"
| "application_of BootstrapAuth = None"

definition UserverAuthCommand :: "auth_server \<Rightarrow> (string \<Rightarrow> string) \<Rightarrow> Env \<Rightarrow> boot \<Rightarrow> err option \<times> boot" where
  "UserverAuthCommand srv getenv e b = Run srv getenv (AuthHost e) b"

text \<open>The exit code of \<open>main\<close>.\<close>

definition main :: "'e option \<Rightarrow> int" where
  "main er = (if er \<noteq> None then 1 else 0)"

section \<open>The logger\<close>

text \<open>There is one logger, made of the environment at its first use.\<close>

definition GetLogger :: "Env \<Rightarrow> log_config option \<Rightarrow> log_config \<times> log_config option" where
  "GetLogger e g = (case g of None \<Rightarrow> (newLogger e, Some (newLogger e)) | Some l \<Rightarrow> (l, Some l))"

text \<open>
  The debug call of fx's \<open>Printf\<close>: the format and its operands. The arguments are passed on as one
  operand, the slice.
\<close>

datatype 'a operand = Single 'a | Slice "'a list"

definition Printf :: "string \<Rightarrow> 'a list \<Rightarrow> string \<times> 'a operand list" where
  "Printf str args = (if args \<noteq> [] then (str, [Slice args]) else (str, []))"

end
