(* ===== verification/JsonCompact.thy ===== *)
theory JsonCompact
  imports JsonText
begin

text \<open>
  How \<open>encoding/json\<close> copies a \<open>json.RawMessage\<close> into its output, and that what is copied has the value
  of the message.
\<close>

section \<open>Raw messages\<close>

text \<open>
  A raw message that is valid JSON is copied without the white space between its tokens and with
  the HTML characters and line separators of its strings escaped.
\<close>

definition html_char :: "char \<Rightarrow> bool" where
  "html_char c \<longleftrightarrow> c = CHR ''<'' \<or> c = CHR ''>'' \<or> c = CHR ''&''"

fun Compact :: "string \<Rightarrow> string" and compact_str :: "string \<Rightarrow> string" where
  "Compact [] = []"
| "Compact (c # cs) = (if is_ws c then Compact cs else if c = CHR 0x22 then c # compact_str cs else c # Compact cs)"
| "compact_str [] = []"
| "compact_str (c # cs) =
     (if c = CHR 0x22 then c # Compact cs
      else if c = CHR 0x5C then (case cs of [] \<Rightarrow> [c] | d # r \<Rightarrow> c # d # compact_str r)
      else if html_char c then escape_ascii c @ compact_str cs
      else if take 3 (c # cs) \<in> set line_separators then
        CHR 0x5C # ''u202'' @ hex_lower (of_char (cs ! 1) mod 16) # compact_str (drop 2 cs)
      else c # compact_str cs)"

text \<open>A string token: what is left of it after compaction still reads as its value.\<close>

definition str_token :: "string \<Rightarrow> string \<Rightarrow> bool" where
  "str_token u x \<longleftrightarrow> u \<noteq> [] \<and> last u = CHR 0x22
     \<and> (\<forall>q. compact_str (u @ q) = compact_str u @ Compact q) \<and> (\<forall>r. p_str (compact_str u @ r) = Some (x, r))"

lemma hex4_append: "hex4 r = Some v \<Longrightarrow> hex4 (r @ q) = Some v \<and> 4 \<le> length r"
  by (auto simp: hex4_def split: if_splits)

lemma hex_plain:
  assumes "hex_digit c = Some n"
  shows "c \<noteq> CHR 0x22 \<and> c \<noteq> CHR 0x5C \<and> \<not> html_char c \<and> (of_char c :: nat) < 128 \<and> 32 \<le> (of_char c :: nat)"
  using assms by (auto simp: hex_digit_def html_char_def Let_def split: if_splits)

lemma not_separator: "(of_char c :: nat) < 128 \<Longrightarrow> take 3 (c # cs) \<notin> set line_separators"
  by (auto simp: line_separators_def)

lemma compact_hex: "hex_digit c = Some n \<Longrightarrow> compact_str (c # cs) = c # compact_str cs"
  using hex_plain[of c n] not_separator[of c cs] by simp

lemma compact_high:
  assumes "128 \<le> (of_char c :: nat)" and "take 3 (c # cs) \<notin> set line_separators"
  shows "compact_str (c # cs) = c # compact_str cs"
proof -
  have "c \<noteq> CHR 0x22" "c \<noteq> CHR 0x5C" "\<not> html_char c" using assms(1) by (auto simp: html_char_def)
  with assms(2) show ?thesis by simp
qed

lemma hex4_digits:
  assumes "hex4 r = Some v"
  obtains a b c d t where "r = a # b # c # d # t" "hex_digit a \<noteq> None" "hex_digit b \<noteq> None"
    "hex_digit c \<noteq> None" "hex_digit d \<noteq> None"
proof -
  obtain a b c d t where "r = a # b # c # d # t"
    using assms by (auto simp: hex4_def not_less Suc_le_length_iff eval_nat_numeral split: if_splits)
  with assms that show thesis by (auto simp: hex4_def split: option.splits)
qed

lemma compact_hex4:
  assumes "hex4 r = Some v"
  shows "compact_str r = take 4 r @ compact_str (drop 4 r)"
proof -
  obtain a b c d t where "r = a # b # c # d # t" "hex_digit a \<noteq> None" "hex_digit b \<noteq> None"
    "hex_digit c \<noteq> None" "hex_digit d \<noteq> None" by (rule hex4_digits[OF assms])
  then show ?thesis by (auto simp: compact_hex simp del: compact_str.simps)
qed

text \<open>Each kind of character of a string, put before a token.\<close>

lemma str_token_quote: "str_token [CHR 0x22] []"
  by (simp add: str_token_def)

lemma str_token_step:
  assumes u: "str_token u x" and "s \<noteq> []"
    and c: "\<And>q. compact_str (s @ u @ q) = s' @ compact_str (u @ q)"
    and p: "\<And>r. p_str (s' @ compact_str u @ r) = prepend y (p_str (compact_str u @ r))"
  shows "str_token (s @ u) (y @ x)"
  using u c[of "[]"] c p assms(2) by (simp add: str_token_def)

lemma str_token_plain:
  assumes "str_token u x" and "c \<noteq> CHR 0x22" "c \<noteq> CHR 0x5C" "32 \<le> (of_char c :: nat)"
    and "\<And>q. take 3 (c # u @ q) \<notin> set line_separators"
  shows "str_token (c # u) (c # x)"
proof (cases "html_char c")
  case True
  have "p_str (escape_ascii c @ compact_str u @ r) = prepend [c] (p_str (compact_str u @ r))" for r
    using True by (intro p_str_escape_ascii) (auto simp: html_char_def)
  then show ?thesis
    using str_token_step[OF assms(1), of "[c]" "escape_ascii c" "[c]"] True assms(2,3) by simp
next
  case False
  then show ?thesis
    using str_token_step[OF assms(1), of "[c]" "[c]" "[c]"] assms(2-) p_str_plain[of c] by simp
qed

lemma separator_bytes:
  assumes "take 3 (c # cs) \<in> set line_separators"
  obtains a b t where "cs = a # b # t" "[c, a, b] \<in> set line_separators"
proof -
  have "list_all (\<lambda>x. length x = 3) line_separators" by (simp add: line_separators_def)
  with assms have "length (take 3 (c # cs)) = 3" unfolding list_all_iff by blast
  then obtain a b t where "cs = a # b # t" by (cases cs; cases "tl cs") auto
  with assms that show thesis by (simp add: eval_nat_numeral)
qed

lemma compact_separator:
  assumes "[c, a, b] \<in> set line_separators"
  shows "compact_str (c # a # b # t) = CHR 0x5C # ''u202'' @ hex_lower (of_char b mod 16) # compact_str t"
proof -
  have "c \<noteq> CHR 0x22" "c \<noteq> CHR 0x5C" "\<not> html_char c"
    using assms by (auto simp: line_separators_def html_char_def)
  moreover have "take 3 (c # a # b # t) \<in> set line_separators" using assms by (simp add: eval_nat_numeral)
  ultimately show ?thesis
    by (subst compact_str.simps(2)) (simp only: if_False if_True nth_Cons_Suc nth_Cons_0 One_nat_def drop_Suc_Cons drop_0 numeral_2_eq_2)
qed

lemma p_str_separator:
  assumes "[c, a, b] \<in> set line_separators"
  shows "p_str (CHR 0x5C # ''u202'' @ hex_lower (of_char b mod 16) # s) = prepend [c, a, b] (p_str s)"
proof -
  have u: "utf8 0x2028 = [CHR 0xE2, CHR 0x80, CHR 0xA8]" "utf8 0x2029 = [CHR 0xE2, CHR 0x80, CHR 0xA9]"
    by (simp_all add: utf8_def byte_def char_vals)
  have d: "hex_digit (CHR ''2'') = Some 2" "hex_digit (CHR ''0'') = Some 0" "hex_digit (CHR ''8'') = Some 8"
    "hex_digit (CHR ''9'') = Some 9" by (simp_all add: hex_digit_def)
  have h: "hex_lower 8 = CHR ''8''" "hex_lower 9 = CHR ''9''"
    by (simp_all add: hex_lower_def char_vals)
  have "c = CHR 0xE2" "a = CHR 0x80" "b = CHR 0xA8 \<or> b = CHR 0xA9" using assms by (auto simp: line_separators_def)
  then show ?thesis
    using p_str_u[OF d(1,2,1,3), of s] p_str_u[OF d(1,2,1,4), of s]
    by (elim disjE) (simp_all add: u h del: p_str.simps)
qed

text \<open>A line separator: three bytes of the text, six characters of the compacted one.\<close>

lemma str_token_separator:
  assumes u: "str_token (a # b # u) (a # b # x)" and "[c, a, b] \<in> set line_separators"
  shows "str_token (c # a # b # u) (c # a # b # x)"
proof -
  have ab: "128 \<le> (of_char a :: nat)" "128 \<le> (of_char b :: nat)" "take 3 (a # b # t) \<notin> set line_separators"
    "take 3 (b # t) \<notin> set line_separators" for t
    using assms(2) by (auto simp: line_separators_def)
  have plain: "compact_str (a # b # t) = a # b # compact_str t" for t
    using compact_high[OF ab(1) ab(3)] compact_high[OF ab(2) ab(4)] by simp
  have str: "p_str (a # b # t) = prepend [a, b] (p_str t)" for t
    using p_str_high[of "[a, b]" t] ab(1,2) by (simp del: p_str.simps)
  have un: "u \<noteq> []" using u ab(2) by (auto simp: str_token_def)
  have 1: "compact_str (u @ q) = compact_str u @ Compact q" for q
    using u plain[of u] plain[of "u @ q"] by (simp add: str_token_def del: compact_str.simps)
  have 2: "p_str (compact_str u @ r) = Some (x, r)" for r
  proof -
    have "p_str (compact_str (a # b # u) @ r) = Some (a # b # x, r)" using u by (simp add: str_token_def del: compact_str.simps)
    then show ?thesis unfolding plain append_Cons str
      by (auto simp: prepend_def simp del: p_str.simps)
  qed
  have t: "str_token u x" using u un 1 2 by (auto simp: str_token_def simp del: compact_str.simps)
  have "p_str (CHR 0x5C # ''u202'' @ hex_lower (of_char b mod 16) # s) = prepend [c, a, b] (p_str s)" for s
    by (rule p_str_separator[OF assms(2)])
  moreover have "compact_str ([c, a, b] @ u @ q)
      = (CHR 0x5C # ''u202'' @ [hex_lower (of_char b mod 16)]) @ compact_str (u @ q)" for q
    using compact_separator[OF assms(2), of "u @ q"] by simp
  ultimately show ?thesis
    using str_token_step[OF t, of "[c, a, b]" "CHR 0x5C # ''u202'' @ [hex_lower (of_char b mod 16)]" "[c, a, b]"] by simp
qed

text \<open>Escapes of four hexadecimal digits, of which a surrogate looks at the next one.\<close>

definition low_next :: "string \<Rightarrow> nat option" where
  "low_next z = (if take 2 z = [CHR 0x5C, CHR ''u''] then
       (case hex4 (drop 2 z) of Some l \<Rightarrow> if 0xDC00 \<le> l \<and> l < 0xE000 then Some l else None | None \<Rightarrow> None)
     else None)"

lemma u_escape_next:
  "u_escape r = (case hex4 r of None \<Rightarrow> None
     | Some v \<Rightarrow> if 0xD800 \<le> v \<and> v < 0xDC00 then
         (case low_next (drop 4 r) of Some l \<Rightarrow> Some (0x10000 + (v - 0xD800) * 1024 + (l - 0xDC00), 10)
          | None \<Rightarrow> Some (0xFFFD, 4))
       else if 0xDC00 \<le> v \<and> v < 0xE000 then Some (0xFFFD, 4) else Some (v, 4))"
  by (cases "hex4 r"; cases "hex4 (drop 6 r)") (auto simp: u_escape_def low_next_def)

lemma hex4_take:
  assumes "hex4 r = Some v"
  shows "hex4 (take 4 r @ z) = Some v"
  using assms by (auto simp: hex4_def not_less split: if_splits)

lemma hex4_token:
  assumes "hex4 (u @ q) = Some v" and "u \<noteq> []" "last u = CHR 0x22"
  shows "hex4 u = Some v"
proof -
  have "4 \<le> length u"
  proof (rule ccontr)
    assume "\<not> 4 \<le> length u"
    moreover obtain w where "u = w @ [CHR 0x22]" using assms(2,3) by (metis append_butlast_last_id)
    ultimately have "CHR 0x22 \<in> set (take 4 (u @ q))" by (simp add: not_le take_Cons')
    moreover obtain a b c d t where "u @ q = a # b # c # d # t" "hex_digit a \<noteq> None" "hex_digit b \<noteq> None"
      "hex_digit c \<noteq> None" "hex_digit d \<noteq> None" by (rule hex4_digits[OF assms(1)])
    ultimately show False by (auto simp: hex_digit_def)
  qed
  with assms(1) show ?thesis by (simp add: hex4_def split: if_splits)
qed

lemma low_next_compact:
  assumes "p_str (u @ q) = Some (x, q)" and u: "str_token u x"
  shows "low_next (compact_str u @ r) = low_next (u @ q)"
proof (cases u)
  case (Cons c cs)
  have last: "u \<noteq> []" "last u = CHR 0x22" using u by (simp_all add: str_token_def)
  consider "c = CHR 0x5C" | "html_char c" | "c \<noteq> CHR 0x5C" "take 3 (c # cs) \<in> set line_separators"
    | "c \<noteq> CHR 0x5C" "\<not> html_char c" "take 3 (c # cs) \<notin> set line_separators" by blast
  then show ?thesis
  proof cases
    case 1
    then obtain d v where cs: "cs = d # v" using last Cons by (cases cs) auto
    show ?thesis
    proof (cases "d = CHR ''u''")
      case True
      then obtain l where "hex4 (v @ q) = Some l"
        using assms(1) by (auto simp: Cons 1 cs u_escape_next split: option.splits)
      moreover have v: "v \<noteq> []" "last v = CHR 0x22" using last Cons cs True by (auto split: if_splits)
      ultimately have h: "hex4 (v @ q) = Some l" "hex4 v = Some l" using hex4_token by blast+
      have "hex4 (compact_str v @ r) = Some l"
        using hex4_take[OF h(2)] compact_hex4[OF h(2)] by simp
      with h(1) show ?thesis by (simp add: Cons 1 cs True low_next_def)
    next
      case False
      then show ?thesis by (simp add: Cons 1 cs low_next_def)
    qed
  next
    case 2
    then have "c = CHR ''<'' \<or> c = CHR ''>'' \<or> c = CHR ''&''" by (simp add: html_char_def)
    then show ?thesis
      by (elim disjE) (simp_all add: Cons html_char_def low_next_def escape_ascii_def hex4_def hex_lower_def
          hex_digit_def split: option.split)
  next
    case 3
    then obtain a b t where s: "cs = a # b # t" "[c, a, b] \<in> set line_separators"
      using separator_bytes by blast
    then have "b = CHR 0xA8 \<or> b = CHR 0xA9" "c \<noteq> CHR 0x5C" by (auto simp: line_separators_def)
    then show ?thesis unfolding Cons s(1) compact_separator[OF s(2)]
      by (elim disjE conjE) (simp_all add: low_next_def hex4_def hex_lower_def hex_digit_def)
  next
    case 4
    then show ?thesis by (simp add: Cons low_next_def)
  qed
qed (use u in \<open>simp add: str_token_def\<close>)

lemma hex4_prefix:
  assumes "hex4 (h @ z) = Some v" and "length h = 4"
  shows "hex4 (h @ z') = Some v" "compact_str (h @ z') = h @ compact_str z'"
proof -
  have "hex4 (take 4 (h @ z) @ z') = Some v" by (rule hex4_take[OF assms(1)])
  then show h: "hex4 (h @ z') = Some v" using assms(2) by simp
  from compact_hex4[OF this] show "compact_str (h @ z') = h @ compact_str z'" using assms(2) by simp
qed

lemma u_escape_compact:
  assumes "u_escape (h @ u @ q) = Some (v, length h)" and "p_str (u @ q) = Some (x, q)" and "str_token u x"
  shows "compact_str (h @ z) = h @ compact_str z" and "u_escape (h @ compact_str u @ r) = Some (v, length h)"
proof -
  obtain w where w: "hex4 (h @ u @ q) = Some w"
    using assms(1) by (auto simp: u_escape_next split: option.splits)
  consider "length h = 4" | a b l where "h = a @ [CHR 0x5C, CHR ''u''] @ b" "length a = 4" "length b = 4"
      "hex4 (b @ u @ q) = Some l" "0xDC00 \<le> l" "l < 0xE000" "0xD800 \<le> w" "w < 0xDC00"
      "v = 0x10000 + (w - 0xD800) * 1024 + (l - 0xDC00)"
  proof (cases "length h = 4")
    case False
    with assms(1) w obtain l where l: "0xD800 \<le> w" "w < 0xDC00" "low_next (drop 4 (h @ u @ q)) = Some l"
      "length h = 10" "v = 0x10000 + (w - 0xD800) * 1024 + (l - 0xDC00)"
      by (auto simp: u_escape_next split: if_splits option.splits)
    have "h = take 4 h @ take 2 (drop 4 h) @ drop 2 (drop 4 h)" by (simp only: append_take_drop_id)
    then have "h = take 4 h @ take 2 (drop 4 h) @ drop 6 h" by simp
    moreover have "take 2 (drop 4 h) = [CHR 0x5C, CHR ''u'']" "hex4 (drop 6 h @ u @ q) = Some l"
      "0xDC00 \<le> l" "l < 0xE000"
      using l(3,4) by (auto simp: low_next_def split: if_splits option.splits)
    ultimately show thesis using that(2)[of "take 4 h" "drop 6 h" l] l by simp
  qed
  then have "compact_str (h @ z) = h @ compact_str z \<and> u_escape (h @ compact_str u @ r) = Some (v, length h)"
  proof cases
    case 1
    have "low_next (drop 4 (h @ compact_str u @ r)) = low_next (drop 4 (h @ u @ q))"
      using low_next_compact[OF assms(2,3)] 1 by simp
    then have "u_escape (h @ compact_str u @ r) = u_escape (h @ u @ q)"
      by (simp only: u_escape_next[of "h @ _ @ _"] hex4_prefix(1)[OF w 1])
    with assms(1) hex4_prefix(2)[OF w 1] show ?thesis by simp
  next
    case 2
    note a = hex4_prefix[OF w[unfolded 2(1) append_assoc] 2(2)] and b = hex4_prefix[OF 2(4,3)]
    have "compact_str (CHR 0x5C # CHR ''u'' # y) = CHR 0x5C # CHR ''u'' # compact_str y" for y by simp
    with 2 a b show ?thesis by (simp add: u_escape_next low_next_def del: compact_str.simps)
  qed
  then show "compact_str (h @ z) = h @ compact_str z" "u_escape (h @ compact_str u @ r) = Some (v, length h)"
    by simp_all
qed

lemma str_token_u:
  assumes "u_escape (h @ u @ q) = Some (v, length h)" and "p_str (u @ q) = Some (x, q)" and u: "str_token u x"
  shows "str_token (CHR 0x5C # CHR ''u'' # h @ u) (utf8 v @ x)"
proof -
  note e = u_escape_compact[OF assms]
  have "compact_str ((CHR 0x5C # CHR ''u'' # h) @ u @ q') = (CHR 0x5C # CHR ''u'' # h) @ compact_str (u @ q')" for q'
    using e(1)[of "u @ q'"] by simp
  moreover have "p_str ((CHR 0x5C # CHR ''u'' # h) @ compact_str u @ r) = prepend (utf8 v) (p_str (compact_str u @ r))" for r
    using e(2)[of r] by simp
  ultimately show ?thesis
    using str_token_step[OF u, of "CHR 0x5C # CHR ''u'' # h" "CHR 0x5C # CHR ''u'' # h" "utf8 v"] by simp
qed

lemma separator_token:
  assumes "str_token u x" and "take 3 (c # u @ r) \<in> set line_separators"
  shows "take 3 (c # u) \<in> set line_separators"
proof -
  obtain a b t where s: "u @ r = a # b # t" "[c, a, b] \<in> set line_separators"
    using separator_bytes[OF assms(2)] by blast
  then have "a \<noteq> CHR 0x22" by (auto simp: line_separators_def)
  with s(1) assms(1) obtain t' where "u = a # b # t'" by (cases u; cases "tl u") (auto simp: str_token_def)
  with s(2) show ?thesis by (simp add: eval_nat_numeral)
qed

lemma compact_p_str:
  "p_str s = Some (x, q) \<Longrightarrow> \<exists>u. s = u @ q \<and> str_token u x"
proof (induction s arbitrary: x rule: p_str.induct)
  case (2 c cs)
  consider "c = CHR 0x22" | "c = CHR 0x5C" | "c \<noteq> CHR 0x22" "c \<noteq> CHR 0x5C" by blast
  then show ?case
  proof cases
    case 1
    with 2 str_token_quote show ?thesis by (intro exI[of _ "[CHR 0x22]"]) simp
  next
    case 2
    then obtain e r where cs: "cs = e # r" using "2.prems" by (cases cs) auto
    show ?thesis
    proof (cases "e = CHR ''u''")
      case True
      then obtain v k y where e: "u_escape r = Some (v, k)" "p_str (drop k r) = Some (y, q)" "x = utf8 v @ y"
        using "2.prems" 2 cs by (auto simp: prepend_def split: option.splits)
      then obtain u where u: "drop k r = u @ q" "str_token u y"
        using "2.IH"(1)[OF _ 2 cs True e(1) refl e(2)] 2 by auto
      have "k < length r" using e(2) by (cases "k < length r") simp_all
      then have r: "r = take k r @ u @ q" "length (take k r) = k" using u(1) by (metis append_take_drop_id, simp)
      from e(1) have "u_escape (take k r @ u @ q) = Some (v, length (take k r))" by (simp only: r(1)[symmetric] r(2))
      from str_token_u[OF this _ u(2)] e u(1) show ?thesis
        using 2 cs True r(1) by (intro exI[of _ "CHR 0x5C # CHR ''u'' # take k r @ u"]) simp
    next
      case False
      then obtain z y where e: "simple_escape e = Some z" "p_str r = Some (y, q)" "x = z # y"
        using "2.prems" 2 cs by (auto simp: prepend_def split: option.splits)
      then obtain u where u: "r = u @ q" "str_token u y"
        using "2.IH"(2)[OF _ 2 cs False e(1) e(2)] 2 by auto
      have p: "p_str ([CHR 0x5C, e] @ compact_str u @ r') = prepend [z] (p_str (compact_str u @ r'))" for r'
        using e(1) False by simp
      have "compact_str ([CHR 0x5C, e] @ u @ q') = [CHR 0x5C, e] @ compact_str (u @ q')" for q' by simp
      from str_token_step[OF u(2) _ this p] have "str_token ([CHR 0x5C, e] @ u) ([z] @ y)" by simp
      then show ?thesis using 2 cs u(1) e(3) by (intro exI[of _ "CHR 0x5C # e # u"]) simp
    qed
  next
    case 3
    then have c: "32 \<le> (of_char c :: nat)" and "\<exists>y. p_str cs = Some (y, q) \<and> x = c # y"
      using "2.prems" by (auto simp: prepend_def split: if_splits)
    then obtain y u where u: "p_str cs = Some (y, q)" "x = c # y" "cs = u @ q" "str_token u y"
      using 3 "2.IH"(3) by (metis not_less)
    show ?thesis
    proof (cases "take 3 (c # u) \<in> set line_separators")
      case True
      then obtain a b t where s: "u = a # b # t" "[c, a, b] \<in> set line_separators" using separator_bytes by blast
      moreover have "128 \<le> (of_char a :: nat)" "128 \<le> (of_char b :: nat)"
        using s(2) by (auto simp: line_separators_def)
      ultimately obtain y' where "y = a # b # y'"
        using u(1,3) p_str_high[of "[a, b]" "t @ q"]
        by (cases "p_str (t @ q)") (auto simp: prepend_def simp del: p_str.simps)
      with u s str_token_separator[of a b t y' c] show ?thesis by auto
    next
      case False
      then have "take 3 (c # u @ r) \<notin> set line_separators" for r using separator_token[OF u(4)] by blast
      with u 3 c str_token_plain[OF u(4), of c] show ?thesis by (intro exI[of _ "c # u"]) simp
    qed
  qed
qed simp

section \<open>Compaction keeps the value\<close>

text \<open>What cannot continue a number, and what a parser reads off a token once it is compacted.\<close>

definition num_char :: "char \<Rightarrow> bool" where
  "num_char c \<longleftrightarrow> is_digit c \<or> c \<in> {CHR ''.'', CHR ''e'', CHR ''E'', CHR ''+'', CHR ''-''}"

definition stop :: "string \<Rightarrow> bool" where
  "stop r \<longleftrightarrow> r = [] \<or> \<not> num_char (hd r)"

definition token :: "(string \<Rightarrow> ('a \<times> string) option) \<Rightarrow> string \<Rightarrow> 'a \<Rightarrow> bool" where
  "token p u v \<longleftrightarrow> (\<forall>z. Compact (u @ z) = Compact u @ Compact z) \<and> (\<forall>r. stop r \<longrightarrow> p (Compact u @ r) = Some (v, r))"

lemma p_digits_token:
  assumes "p_digits s = Some (x, q)"
  shows "s = x @ q" "x \<noteq> []" "list_all is_digit x"
    "r = [] \<or> \<not> is_digit (hd r) \<Longrightarrow> p_digits (x @ r) = Some (x, r)"
proof -
  have x: "x = takeWhile is_digit s" "q = dropWhile is_digit s" "x \<noteq> []"
    using assms by (auto simp: p_digits_def Let_def split: if_splits)
  then show d: "s = x @ q" "x \<noteq> []" "list_all is_digit x"
    by (simp_all add: list_all_iff) (meson set_takeWhileD)
  assume "r = [] \<or> \<not> is_digit (hd r)"
  with d(2,3) show "p_digits (x @ r) = Some (x, r)"
    by (cases r) (simp_all add: p_digits_def list_all_iff Let_def takeWhile_append2 dropWhile_append2
        iffD2[OF takeWhile_eq_all_conv] iffD2[OF dropWhile_eq_Nil_conv])
qed

lemma p_num_parts:
  "p_int s = Some (a, q) \<Longrightarrow> s = a @ q \<and> a \<noteq> [] \<and> list_all is_digit a
     \<and> (\<forall>r. (r = [] \<or> \<not> is_digit (hd r)) \<longrightarrow> p_int (a @ r) = Some (a, r))"
  "p_frac s = Some (b, q) \<Longrightarrow> s = b @ q \<and> (b = [] \<or> hd b = CHR ''.'') \<and> list_all num_char b
     \<and> (\<forall>r. (r = [] \<or> \<not> is_digit (hd r) \<and> hd r \<noteq> CHR ''.'') \<longrightarrow> p_frac (b @ r) = Some (b, r))"
  "p_exp s = Some (c, q) \<Longrightarrow> s = c @ q \<and> (c = [] \<or> hd c \<in> {CHR ''e'', CHR ''E''}) \<and> list_all num_char c
     \<and> (\<forall>r. stop r \<longrightarrow> p_exp (c @ r) = Some (c, r))"
proof -
  show "s = a @ q \<and> a \<noteq> [] \<and> list_all is_digit a
     \<and> (\<forall>r. (r = [] \<or> \<not> is_digit (hd r)) \<longrightarrow> p_int (a @ r) = Some (a, r))" if i: "p_int s = Some (a, q)"
  proof (cases "s \<noteq> [] \<and> hd s = CHR ''0''")
    case True
    with i show ?thesis by (cases s) (auto simp: p_int_def is_digit_def)
  next
    case False
    with i have d: "p_digits s = Some (a, q)" by (cases s) (auto simp: p_int_def)
    note t = p_digits_token[OF d]
    from t(1,2) False have "a \<noteq> [] \<and> hd a \<noteq> CHR ''0''" by (cases a) auto
    with t show ?thesis by (cases a) (auto simp: p_int_def)
  qed
  show "s = b @ q \<and> (b = [] \<or> hd b = CHR ''.'') \<and> list_all num_char b
     \<and> (\<forall>r. (r = [] \<or> \<not> is_digit (hd r) \<and> hd r \<noteq> CHR ''.'') \<longrightarrow> p_frac (b @ r) = Some (b, r))"
    if f: "p_frac s = Some (b, q)"
  proof (cases "s \<noteq> [] \<and> hd s = CHR ''.''")
    case True
    with f obtain cs d where d: "s = CHR ''.'' # cs" "p_digits cs = Some (d, q)" "b = CHR ''.'' # d"
      by (cases s) (auto simp: p_frac_def prepend_def)
    with p_digits_token[OF d(2)] p_digits_token(4)[OF d(2), of "[]"] show ?thesis by (auto simp: p_frac_def num_char_def list_all_iff)
  next
    case False
    with f show ?thesis by (cases s) (auto simp: p_frac_def split: list.split)
  qed
  show "s = c @ q \<and> (c = [] \<or> hd c \<in> {CHR ''e'', CHR ''E''}) \<and> list_all num_char c
     \<and> (\<forall>r. stop r \<longrightarrow> p_exp (c @ r) = Some (c, r))" if e: "p_exp s = Some (c, q)"
  proof (cases "s \<noteq> [] \<and> hd s \<in> {CHR ''e'', CHR ''E''}")
    case True
    then obtain x cs where s: "s = x # cs" "x = CHR ''e'' \<or> x = CHR ''E''" by (cases s) auto
    show ?thesis
    proof (cases "cs \<noteq> [] \<and> hd cs \<in> {CHR ''+'', CHR ''-''}")
      case True
      with e s obtain g t d where d: "cs = g # t" "g \<in> {CHR ''+'', CHR ''-''}" "p_digits t = Some (d, q)" "c = x # g # d"
        by (cases cs) (auto simp: p_exp_def prepend_def)
      with s p_digits_token[OF d(3)] p_digits_token(4)[OF d(3), of "[]"] show ?thesis
        by (auto simp: p_exp_def stop_def num_char_def list_all_iff)
    next
      case False
      with e s obtain d where d: "p_digits cs = Some (d, q)" "c = x # d"
        by (cases cs) (auto simp: p_exp_def prepend_def split: if_splits)
      note t = p_digits_token[OF d(1)]
      then obtain y ds where "d = y # ds" "is_digit y" by (cases d) auto
      with s d t t(4)[of "[]"] show ?thesis
        by (auto simp: p_exp_def stop_def num_char_def list_all_iff is_digit_def)
    qed
  next
    case False
    with e show ?thesis by (cases s) (auto simp: p_exp_def stop_def num_char_def split: list.split)
  qed
qed

lemma p_num_token:
  assumes "p_num s = Some (x, q)"
  shows "s = x @ q" "x \<noteq> []" "list_all num_char x" "stop r \<Longrightarrow> p_num (x @ r) = Some (x, r)"
proof -
  define neg where "neg = (s \<noteq> [] \<and> hd s = CHR ''-'')"
  let ?m = "if neg then ''-'' else []"
  obtain a b c r1 r2 where p: "p_int (if neg then tl s else s) = Some (a, r1)" "p_frac r1 = Some (b, r2)"
    "p_exp r2 = Some (c, q)" "x = ?m @ a @ b @ c"
    using assms by (auto simp: p_num_def Let_def bind_eq_Some_conv neg_def)
  note i = p_num_parts(1)[OF p(1)] and f = p_num_parts(2)[OF p(2)] and e = p_num_parts(3)[OF p(3)]
  have s: "s = ?m @ (if neg then tl s else s)" by (cases s) (auto simp: neg_def)
  also have "(if neg then tl s else s) = a @ b @ c @ q" using i f e by simp
  finally show "s = x @ q" by (simp add: p(4))
  from i p(4) show "x \<noteq> []" by simp
  from i f e p(4) show "list_all num_char x" by (auto simp: list_all_iff num_char_def)
  assume r: "stop r"
  have hd_a: "a \<noteq> []" "hd a \<noteq> CHR ''-''" using i by (cases a; auto simp: is_digit_def)+
  have neg: "(x @ r \<noteq> [] \<and> hd (x @ r) = CHR ''-'') = neg" using p(4) hd_a by (cases neg) auto
  have "\<not> is_digit (CHR ''e'')" "\<not> is_digit (CHR ''E'')" by (simp_all add: is_digit_def)
  with e r have ce: "c @ r = [] \<or> \<not> is_digit (hd (c @ r)) \<and> hd (c @ r) \<noteq> CHR ''.''"
    by (cases c) (auto simp: stop_def num_char_def)
  have "\<not> is_digit (CHR ''.'')" by (simp add: is_digit_def)
  with f ce have bc: "b @ c @ r = [] \<or> \<not> is_digit (hd (b @ c @ r))" by (cases b) auto
  note parts = conjunct2[OF conjunct2[OF conjunct2[OF i]]] conjunct2[OF conjunct2[OF conjunct2[OF f]]]
    conjunct2[OF conjunct2[OF conjunct2[OF e]]]
  have "p_int (a @ b @ c @ r) = Some (a, b @ c @ r)" "p_frac (b @ c @ r) = Some (b, c @ r)"
    "p_exp (c @ r) = Some (c, r)"
    by (rule parts(1)[rule_format, OF bc] parts(2)[rule_format, OF ce] parts(3)[rule_format, OF r])+
  then show "p_num (x @ r) = Some (x, r)"
    unfolding p_num_def Let_def neg by (cases neg) (simp_all add: p(4))
qed

lemma compact_num: "list_all num_char x \<Longrightarrow> Compact (x @ z) = x @ Compact z"
  by (induction x) (auto simp: num_char_def is_ws_def is_digit_def)

lemma num_token:
  assumes "p_num s = Some (x, q)"
  shows "\<exists>u. s = u @ q \<and> token p_num u x \<and> Compact u = u \<and> hd u = hd s"
proof -
  note t = p_num_token[OF assms]
  have "Compact x = x" using compact_num[OF t(3), of "[]"] by simp
  with t compact_num[OF t(3)] show ?thesis by (intro exI[of _ x]) (auto simp: token_def)
qed

lemma compact_ws: "list_all is_ws w \<Longrightarrow> Compact (w @ z) = Compact z"
  by (induction w) simp_all

lemma compact_skips: "ws (Compact s) = Compact s" "Compact (ws s) = Compact s"
  by (induction s) simp_all

lemma starts_split:
  assumes "starts c (ws s)"
  obtains w where "s = w @ c # tl (ws s)" "list_all is_ws w"
proof -
  have "s = takeWhile is_ws s @ ws s" by simp
  moreover have "ws s = c # tl (ws s)" using assms by (cases "ws s") (simp_all add: starts_def)
  moreover have "list_all is_ws (takeWhile is_ws s)" by (simp add: list_all_iff) (meson set_takeWhileD)
  ultimately show thesis using that[of "takeWhile is_ws s"] by metis
qed

fun squeeze :: "json \<Rightarrow> json" where
  "squeeze (JArr vs) = JArr (map squeeze vs)"
| "squeeze (JObj ms) = JObj (map (\<lambda>(k, raw, v). (k, Compact raw, squeeze v)) ms)"
| "squeeze v = v"

text \<open>The parser on the first character of a value, of an element and of a member.\<close>

lemma starts_Cons [simp]: "starts c (d # s) \<longleftrightarrow> d = c"
  by (simp add: starts_def)

lemma p_members_quote: "p_members n t = Some (ms, r) \<Longrightarrow> starts (CHR 0x22) (ws t)"
  by (cases n) (auto split: if_splits)

lemma p_num_head:
  assumes "p_num t = Some (x, r)"
  obtains c cs where "t = c # cs" "is_digit c \<or> c = CHR ''-''"
proof (cases t)
  case (Cons c cs)
  moreover have "is_digit (CHR ''0'')" by (simp add: is_digit_def)
  ultimately show thesis using assms that
    by (cases "is_digit c \<or> c = CHR ''-''") (auto simp: p_num_def p_int_def p_digits_def Let_def split: if_splits)
qed (use assms in \<open>simp add: p_num_def p_int_def\<close>)

lemma p_elems_bracket: "p_elems n t = Some (vs, r) \<Longrightarrow> \<not> starts (CHR '']'') (ws t)"
proof
  assume e: "p_elems n t = Some (vs, r)" and s: "starts (CHR '']'') (ws t)"
  obtain m k where "n = Suc m" "m = Suc k" using e by (cases n; cases "n - 1") (auto split: option.splits)
  with e s obtain x q where "p_num (ws t) = Some (x, q)" by (cases "ws t") (auto split: option.splits)
  with s show False by (auto simp: starts_def is_digit_def elim!: p_num_head)
qed

lemma p_value_intros:
  "p_members n t = Some (ms, r) \<Longrightarrow> p_value (Suc n) (CHR ''{'' # t) = Some (JObj ms, r)"
  "p_value (Suc n) (CHR ''{'' # CHR ''}'' # r) = Some (JObj [], r)"
  "p_elems n t = Some (vs, r) \<Longrightarrow> p_value (Suc n) (CHR ''['' # t) = Some (JArr vs, r)"
  "p_value (Suc n) (CHR ''['' # CHR '']'' # r) = Some (JArr [], r)"
  "p_str t = Some (x, r) \<Longrightarrow> p_value (Suc n) (CHR 0x22 # t) = Some (JStr x, r)"
  "p_num t = Some (x, r) \<Longrightarrow> p_value (Suc n) t = Some (JNum x, r)"
  "p_value (Suc n) (''true'' @ r) = Some (JBool True, r)" "p_value (Suc n) (''false'' @ r) = Some (JBool False, r)"
  "p_value (Suc n) (''null'' @ r) = Some (JNull, r)"
proof -
  show "p_value (Suc n) (CHR ''{'' # t) = Some (JObj ms, r)" if "p_members n t = Some (ms, r)"
    using that p_members_quote[OF that] by (auto simp: is_ws_def starts_def)
  show "p_value (Suc n) (CHR ''['' # t) = Some (JArr vs, r)" if "p_elems n t = Some (vs, r)"
    using that p_elems_bracket[OF that] by (auto simp: is_ws_def)
  show "p_value (Suc n) t = Some (JNum x, r)" if num: "p_num t = Some (x, r)"
  proof -
    obtain c cs where t: "t = c # cs" "is_digit c \<or> c = CHR ''-''" by (rule p_num_head[OF num])
    then have "\<not> is_ws c" "c \<noteq> CHR ''{''" "c \<noteq> CHR ''[''" "c \<noteq> CHR 0x22" "c \<noteq> CHR ''t''"
      "c \<noteq> CHR ''f''" "c \<noteq> CHR ''n''" by (auto simp: is_ws_def is_digit_def)
    with num t(1) show ?thesis by simp
  qed
qed (simp_all add: is_ws_def p_lit_def HasPrefix_def del: p_str.simps)

lemma p_elems_intro:
  assumes "p_value n (vt @ c # r) = Some (v, c # r)" and "c = CHR '']'' \<or> c = CHR '',''"
  shows "p_elems (Suc n) (vt @ c # r)
    = (if c = CHR '']'' then Some ([v], r) else map_option (\<lambda>(vs, r). (v # vs, r)) (p_elems n r))"
  using assms by (auto simp: is_ws_def)

lemma p_members_intro:
  assumes "p_str t = Some (k, CHR '':'' # vt @ c # r)" and "p_value n (vt @ c # r) = Some (v, c # r)"
    and "ws (vt @ c # r) = vt @ c # r" and "c = CHR ''}'' \<or> c = CHR '',''"
  shows "p_members (Suc n) (CHR 0x22 # t)
    = (if c = CHR ''}'' then Some ([(k, vt, v)], r) else map_option (\<lambda>(ms, r). ((k, vt, v) # ms, r)) (p_members n r))"
proof -
  have "ws (CHR '':'' # z) = CHR '':'' # z" "ws (CHR 0x22 # z) = CHR 0x22 # z" "ws (c # r) = c # r" for z
    using assms(4) by (auto simp: is_ws_def)
  then show ?thesis using assms by (auto simp: Let_def simp del: p_str.simps)
qed

lemma token_ws: "list_all is_ws w \<Longrightarrow> token p u v \<Longrightarrow> token p (w @ u) v"
  by (simp add: token_def compact_ws)

lemma token_wrap:
  assumes "token p u x" and "\<not> is_ws c" "c \<noteq> CHR 0x22" and "\<And>t r. p t = Some (x, r) \<Longrightarrow> p' (c # t) = Some (v, r)"
  shows "token p' (c # u) v"
  using assms by (simp add: token_def)

lemma token_plain:
  assumes "\<And>z. Compact (u @ z) = t @ Compact z" and "\<And>r. p (t @ r) = Some (v, r)"
  shows "token p u v"
  using assms(1)[of "[]"] assms by (simp add: token_def)

lemma p_value_inv:
  assumes "ws s = c # cs" and "p_value (Suc n) s = Some (v, q)"
  shows "c = CHR ''{'' \<and> starts (CHR ''}'') (ws cs) \<and> v = JObj [] \<and> q = tl (ws cs)
    \<or> c = CHR ''{'' \<and> (\<exists>ms. p_members n cs = Some (ms, q) \<and> v = JObj ms)
    \<or> c = CHR ''['' \<and> starts (CHR '']'') (ws cs) \<and> v = JArr [] \<and> q = tl (ws cs)
    \<or> c = CHR ''['' \<and> (\<exists>vs. p_elems n cs = Some (vs, q) \<and> v = JArr vs)
    \<or> c = CHR 0x22 \<and> (\<exists>x. p_str cs = Some (x, q) \<and> v = JStr x)
    \<or> p_lit ''true'' (JBool True) (c # cs) = Some (v, q) \<or> p_lit ''false'' (JBool False) (c # cs) = Some (v, q)
    \<or> p_lit ''null'' JNull (c # cs) = Some (v, q) \<or> (\<exists>x. p_num (c # cs) = Some (x, q) \<and> v = JNum x)"
proof -
  have "p_value (Suc n) s =
      (if c = CHR ''{'' then
         (if starts (CHR ''}'') (ws cs) then Some (JObj [], tl (ws cs))
          else map_option (\<lambda>(ms, r). (JObj ms, r)) (p_members n cs))
       else if c = CHR ''['' then
         (if starts (CHR '']'') (ws cs) then Some (JArr [], tl (ws cs))
          else map_option (\<lambda>(vs, r). (JArr vs, r)) (p_elems n cs))
       else if c = CHR 0x22 then map_option (\<lambda>(x, r). (JStr x, r)) (p_str cs)
       else if c = CHR ''t'' then p_lit ''true'' (JBool True) (c # cs)
       else if c = CHR ''f'' then p_lit ''false'' (JBool False) (c # cs)
       else if c = CHR ''n'' then p_lit ''null'' JNull (c # cs)
       else map_option (\<lambda>(x, r). (JNum x, r)) (p_num (c # cs)))"
    by (simp only: p_value.simps assms(1) list.case)
  note p = assms(2)[unfolded this]
  show ?thesis
    by (cases "c = CHR ''{''"; cases "c = CHR ''[''"; cases "c = CHR 0x22"; cases "c = CHR ''t''";
        cases "c = CHR ''f''"; cases "c = CHR ''n''") (use p in \<open>auto split: if_splits\<close>)
qed

lemma value_token:
  assumes "ws s = c # cs" and "p_value (Suc n) s = Some (v, q)"
    and elems: "\<And>vs. c = CHR ''['' \<Longrightarrow> \<not> starts (CHR '']'') (ws cs) \<Longrightarrow> p_elems n cs = Some (vs, q) \<Longrightarrow> \<exists>u. cs = u @ q \<and> token (p_elems n) u (map squeeze vs)"
    and members: "\<And>ms. c = CHR ''{'' \<Longrightarrow> \<not> starts (CHR ''}'') (ws cs) \<Longrightarrow> p_members n cs = Some (ms, q)
      \<Longrightarrow> \<exists>u. cs = u @ q \<and> token (p_members n) u (map (\<lambda>(k, raw, v). (k, Compact raw, squeeze v)) ms)"
  shows "\<exists>t. c # cs = t @ q \<and> token (p_value (Suc n)) t (squeeze v)"
proof -
  have close: "\<exists>t. c # cs = t @ q \<and> token (p_value (Suc n)) t x"
    if "c \<in> {CHR ''{'', CHR ''[''}" "starts d (ws cs)" "q = tl (ws cs)" "d \<in> {CHR ''}'', CHR '']''}"
      "\<And>r. p_value (Suc n) (c # d # r) = Some (x, r)" for d x
  proof -
    note split = starts_split[OF that(2)] that(3)
    obtain w where w: "cs = w @ d # q" "list_all is_ws w" using split by metis
    have "\<not> is_ws c \<and> c \<noteq> CHR 0x22 \<and> \<not> is_ws d \<and> d \<noteq> CHR 0x22" using that(1,4) by (auto simp: is_ws_def)
    then have "token (p_value (Suc n)) (c # w @ [d]) x"
      by (intro token_plain[of _ "[c, d]"]) (simp_all add: compact_ws[OF w(2)] that(5) del: p_value.simps)
    with w(1) show ?thesis by (intro exI[of _ "c # w @ [d]"]) simp
  qed
  have lit: "\<exists>t. c # cs = t @ q \<and> token (p_value (Suc n)) t x"
    if "p_lit l x (c # cs) = Some (v, q)" "list_all (\<lambda>c. \<not> is_ws c \<and> c \<noteq> CHR 0x22) l"
      "\<And>r. p_value (Suc n) (l @ r) = Some (x, r)" for l x
  proof -
    have "Compact (l @ z) = l @ Compact z" for z using that(2) by (induction l) simp_all
    with that(3) have "token (p_value (Suc n)) l x" by (intro token_plain) simp_all
    moreover have "c # cs = l @ q" using that(1) by (metis HasPrefix_def append_take_drop_id option.inject option.simps(3) p_lit_def prod.inject) 
    ultimately show ?thesis by blast
  qed
  consider "c = CHR ''{''" "starts (CHR ''}'') (ws cs)" "v = JObj []" "q = tl (ws cs)"
    | ms where "c = CHR ''{''" "p_members n cs = Some (ms, q)" "v = JObj ms"
    | "c = CHR ''[''" "starts (CHR '']'') (ws cs)" "v = JArr []" "q = tl (ws cs)"
    | vs where "c = CHR ''[''" "p_elems n cs = Some (vs, q)" "v = JArr vs"
    | x where "c = CHR 0x22" "p_str cs = Some (x, q)" "v = JStr x"
    | "p_lit ''true'' (JBool True) (c # cs) = Some (v, q)" | "p_lit ''false'' (JBool False) (c # cs) = Some (v, q)"
    | "p_lit ''null'' JNull (c # cs) = Some (v, q)" | x where "p_num (c # cs) = Some (x, q)" "v = JNum x"
    using p_value_inv[OF assms(1,2)] by blast
  then show ?thesis
  proof cases
    case 1
    with close[of "CHR ''}''" "JObj []"] p_value_intros(2) show ?thesis by (simp del: p_value.simps)
  next
    case 2
    obtain u where "cs = u @ q" "token (p_members n) u (map (\<lambda>(k, raw, v). (k, Compact raw, squeeze v)) ms)"
      using members[OF 2(1) _ 2(2)] p_members_quote[OF 2(2)] by (auto simp: starts_def)
    with 2 token_wrap[OF this(2), of c "p_value (Suc n)" "squeeze v"] p_value_intros(1) show ?thesis
      by (intro exI[of _ "c # u"]) (simp add: is_ws_def del: p_value.simps)
  next
    case 3
    with close[of "CHR '']''" "JArr []"] p_value_intros(4) show ?thesis by (simp del: p_value.simps)
  next
    case 4
    obtain u where "cs = u @ q" "token (p_elems n) u (map squeeze vs)" 
      using elems[OF 4(1) p_elems_bracket[OF 4(2)] 4(2)] by blast
    with 4 token_wrap[OF this(2), of c "p_value (Suc n)" "squeeze v"] p_value_intros(3) show ?thesis
      by (intro exI[of _ "c # u"]) (simp add: is_ws_def del: p_value.simps)
  next
    case 5
    obtain u where u: "cs = u @ q" "str_token u x" using compact_p_str[OF 5(2)] by blast
    then have "token (p_value (Suc n)) (CHR 0x22 # u) (JStr x)"
      by (intro token_plain[of _ "CHR 0x22 # compact_str u"])
        (simp_all add: str_token_def is_ws_def p_value_intros(5) del: p_value.simps)
    with 5 u show ?thesis by (intro exI[of _ "CHR 0x22 # u"]) simp
  next
    case 9
    obtain u where "c # cs = u @ q" "token p_num u x" using num_token[OF 9(1)] by blast
    with 9 p_value_intros(6) show ?thesis by (intro exI[of _ u]) (simp add: token_def del: p_value.simps)
  next
    case 6
    have "v = JBool True" using 6 by (simp add: p_lit_def split: if_splits)
    with lit[OF 6 _ p_value_intros(7)] show ?thesis by (simp add: is_ws_def del: p_value.simps)
  next
    case 7
    have "v = JBool False" using 7 by (simp add: p_lit_def split: if_splits)
    with lit[OF 7 _ p_value_intros(8)] show ?thesis by (simp add: is_ws_def del: p_value.simps)
  next
    case 8
    have "v = JNull" using 8 by (simp add: p_lit_def split: if_splits)
    with lit[OF 8 _ p_value_intros(9)] show ?thesis by (simp add: is_ws_def del: p_value.simps)
  qed
qed

lemma stop_sep: "c \<in> {CHR ''}'', CHR '']'', CHR '','', CHR '':''} \<Longrightarrow> stop (c # r)"
  by (auto simp: stop_def num_char_def is_digit_def)

lemma sep_plain: "c \<in> {CHR ''}'', CHR '']'', CHR '','', CHR '':''} \<Longrightarrow> Compact (c # r) = c # Compact r"
  by (auto simp: is_ws_def)

abbreviation member_squeeze :: "string \<times> string \<times> json \<Rightarrow> string \<times> string \<times> json" where
  "member_squeeze \<equiv> \<lambda>(k, raw, v). (k, Compact raw, squeeze v)"

text \<open>An element or a member and the separator behind it, in the text and in the compacted text.\<close>

lemma elem_token:
  assumes "token (p_value n) u (squeeze v)" and "list_all is_ws w" and "c = CHR '']'' \<or> c = CHR '',''"
  shows "Compact (u @ w @ c # z) = Compact u @ c # Compact z"
    and "p_elems (Suc n) (Compact u @ c # r)
      = (if c = CHR '']'' then Some ([squeeze v], r) else map_option (\<lambda>(vs, r). (squeeze v # vs, r)) (p_elems n r))"
proof -
  show "Compact (u @ w @ c # z) = Compact u @ c # Compact z"
    using assms compact_ws[OF assms(2)] sep_plain[of c z] by (auto simp: token_def)
  have "p_value n (Compact u @ c # r) = Some (squeeze v, c # r)"
    using assms(1,3) stop_sep[of c r] by (auto simp: token_def)
  then show "p_elems (Suc n) (Compact u @ c # r)
      = (if c = CHR '']'' then Some ([squeeze v], r) else map_option (\<lambda>(vs, r). (squeeze v # vs, r)) (p_elems n r))"
    using assms(3) by (rule p_elems_intro)
qed

lemma ws_compact_token:
  assumes "token (p_value n) u v"
  shows "ws (Compact u @ c # r) = Compact u @ c # r"
proof (cases "Compact u")
  case Nil
  have "p_value n [] = None" by (cases n) simp_all
  with Nil assms show ?thesis by (auto simp: token_def stop_def)
next
  case (Cons d t)
  with compact_skips(1)[of u] show ?thesis by (auto split: if_splits dest: dropWhile_eq_Cons_conv[THEN iffD1])
qed

lemma member_token:
  assumes "str_token k' k" and "token (p_value n) u (squeeze v)"
    and w: "list_all is_ws w0" "list_all is_ws w1" "list_all is_ws w2" "list_all is_ws w3" and "c = CHR ''}'' \<or> c = CHR '',''"
  shows "Compact (w0 @ CHR 0x22 # k' @ w1 @ CHR '':'' # w2 @ u @ w3 @ c # z)
      = CHR 0x22 # compact_str k' @ CHR '':'' # Compact u @ c # Compact z"
    and "p_members (Suc n) (CHR 0x22 # compact_str k' @ CHR '':'' # Compact u @ c # r)
      = (if c = CHR ''}'' then Some ([member_squeeze (k, u, v)], r)
         else map_option (\<lambda>(ms, r). (member_squeeze (k, u, v) # ms, r)) (p_members n r))"
proof -
  have "Compact (CHR 0x22 # s) = CHR 0x22 # compact_str s" for s by (simp add: is_ws_def)
  with assms w show "Compact (w0 @ CHR 0x22 # k' @ w1 @ CHR '':'' # w2 @ u @ w3 @ c # z)
      = CHR 0x22 # compact_str k' @ CHR '':'' # Compact u @ c # Compact z"
    using sep_plain[of c z] sep_plain[of "CHR '':''"]
    by (auto simp: compact_ws token_def str_token_def simp del: Compact.simps)
  have "p_value n (Compact u @ c # r) = Some (squeeze v, c # r)"
    using assms(2,7) stop_sep[of c r] by (auto simp: token_def)
  moreover have "p_str (compact_str k' @ CHR '':'' # Compact u @ c # r) = Some (k, CHR '':'' # Compact u @ c # r)"
    using assms(1) by (simp add: str_token_def)
  ultimately show "p_members (Suc n) (CHR 0x22 # compact_str k' @ CHR '':'' # Compact u @ c # r)
      = (if c = CHR ''}'' then Some ([member_squeeze (k, u, v)], r)
         else map_option (\<lambda>(ms, r). (member_squeeze (k, u, v) # ms, r)) (p_members n r))"
    using p_members_intro[of _ k "Compact u" c r n "squeeze v"] ws_compact_token[OF assms(2)] assms(7)
    by (simp del: p_members.simps)
qed

lemma compact_values:
  "p_value n s = Some (v, q) \<Longrightarrow> \<exists>u. s = u @ q \<and> token (p_value n) u (squeeze v)"
  "p_elems n s = Some (vs, q) \<Longrightarrow> \<exists>u. s = u @ q \<and> token (p_elems n) u (map squeeze vs)"
  "p_members n s = Some (ms, q) \<Longrightarrow> \<exists>u. s = u @ q \<and> token (p_members n) u (map member_squeeze ms)"
proof (induction n s and n s and n s arbitrary: v q and vs q and ms q
    rule: p_value_p_elems_p_members.induct)
  case (2 n s)
  obtain c cs where s: "ws s = c # cs" using "2.prems" by (cases "ws s") auto
  have "c \<noteq> CHR ''{''" if "c = CHR ''[''" using that by simp
  note elems = "2.IH"(2)[OF s this] and members = "2.IH"(1)[OF s]
  obtain t where t: "c # cs = t @ q" "token (p_value (Suc n)) t (squeeze v)"
    using value_token[OF s "2.prems" elems members] by blast
  have "list_all is_ws (takeWhile is_ws s)" by (simp add: list_all_iff) (meson set_takeWhileD)
  from token_ws[OF this t(2)] t(1) s show ?case
    by (metis append.assoc takeWhile_dropWhile_id)
next
  case (4 n s)
  then obtain v r where v: "p_value n s = Some (v, r)" by (auto split: option.splits)
  obtain u where u: "s = u @ r" "token (p_value n) u (squeeze v)" using "4.IH"(1)[OF v] by blast
  show ?case
  proof (cases "starts (CHR '']'') (ws r)")
    case True
    then obtain w where w: "r = w @ CHR '']'' # q" "list_all is_ws w" "vs = [v]"
      using starts_split[OF True] "4.prems" v by auto
    have "token (p_elems (Suc n)) (u @ w @ [CHR '']'']) [squeeze v]"
      using elem_token[OF u(2) w(2), of "CHR '']''"] by (intro token_plain[of _ "Compact u @ [CHR '']'']"]) simp_all
    moreover have "s = (u @ w @ [CHR '']'']) @ q" using u(1) w(1) by simp
    ultimately show ?thesis unfolding w(3) list.map by blast
  next
    case False
    with "4.prems" v obtain vs' where vs: "starts (CHR '','') (ws r)" "p_elems n (tl (ws r)) = Some (vs', q)" "vs = v # vs'"
      by (auto split: if_splits)
    obtain w where w: "r = w @ CHR '','' # tl (ws r)" "list_all is_ws w" using starts_split[OF vs(1)] by metis
    obtain u2 where u2: "tl (ws r) = u2 @ q" "token (p_elems n) u2 (map squeeze vs')"
      using "4.IH"(2)[OF v refl False vs(1,2)] by blast
    have "token (p_elems (Suc n)) (u @ w @ CHR '','' # u2) (map squeeze vs)"
      using elem_token[OF u(2) w(2), of "CHR '',''"] u2(2) vs(3) by (simp add: token_def del: p_elems.simps)
    moreover have "s = (u @ w @ CHR '','' # u2) @ q" using u(1) w(1) u2(1) by simp
    ultimately show ?thesis by blast
  qed
next
  case (6 n s)
  obtain k r1 where k: "p_str (tl (ws s)) = Some (k, r1)" "starts (CHR 0x22) (ws s)" "starts (CHR '':'') (ws r1)"
    using "6.prems" by (auto simp: Let_def split: if_splits option.splits)
  let ?r = "ws (tl (ws r1))"
  obtain v r where v: "p_value n ?r = Some (v, r)"
    using "6.prems" k by (auto simp: Let_def split: option.splits)
  obtain w0 w1 where w01: "s = w0 @ CHR 0x22 # tl (ws s)" "list_all is_ws w0"
    "r1 = w1 @ CHR '':'' # tl (ws r1)" "list_all is_ws w1" using starts_split k(2,3) by metis
  let ?w2 = "takeWhile is_ws (tl (ws r1))"
  have w2: "list_all is_ws ?w2" "tl (ws r1) = ?w2 @ ?r" by (simp_all add: list_all_iff) (meson set_takeWhileD)
  obtain k' where k': "tl (ws s) = k' @ r1" "str_token k' k" using compact_p_str[OF k(1)] by blast
  obtain u where u: "?r = u @ r" "token (p_value n) u (squeeze v)"
    using "6.IH"(1)[OF _ k(1) refl _ refl v] k by auto
  have raw: "take (length ?r - length r) ?r = u" by (simp add: u(1))
  have s: "s = w0 @ CHR 0x22 # k' @ w1 @ CHR '':'' # ?w2 @ u @ r"
    using w01(1,3) k'(1) w2(2) u(1) by (metis append.assoc append_Cons)
  note m = member_token[OF k'(2) u(2) w01(2,4) w2(1)]
  show ?case
  proof (cases "starts (CHR ''}'') (ws r)")
    case True
    then obtain w3 where w3: "r = w3 @ CHR ''}'' # q" "list_all is_ws w3" "ms = [(k, u, v)]"
      using starts_split[OF True] "6.prems" k v raw by (auto simp: Let_def)
    let ?u = "w0 @ CHR 0x22 # k' @ w1 @ CHR '':'' # ?w2 @ u @ w3 @ [CHR ''}'']"
    have "token (p_members (Suc n)) ?u [member_squeeze (k, u, v)]"
      using m[OF w3(2), of "CHR ''}''"]
      by (intro token_plain[of _ "CHR 0x22 # compact_str k' @ CHR '':'' # Compact u @ [CHR ''}'']"])
        (simp_all del: p_members.simps)
    moreover have "s = ?u @ q" using s w3(1) by simp
    ultimately show ?thesis unfolding w3(3) list.map by blast
  next
    case False
    with "6.prems" k v raw obtain ms' where ms: "starts (CHR '','') (ws r)" "p_members n (tl (ws r)) = Some (ms', q)"
      "ms = (k, u, v) # ms'" by (auto simp: Let_def split: if_splits)
    obtain w3 where w3: "r = w3 @ CHR '','' # tl (ws r)" "list_all is_ws w3" using starts_split[OF ms(1)] by metis
    obtain u2 where u2: "tl (ws r) = u2 @ q" "token (p_members n) u2 (map member_squeeze ms')"
      using "6.IH"(2)[OF _ k(1) refl _ refl v refl refl False ms(1,2)] k by auto
    let ?u = "w0 @ CHR 0x22 # k' @ w1 @ CHR '':'' # ?w2 @ u @ w3 @ CHR '','' # u2"
    have "token (p_members (Suc n)) ?u (map member_squeeze ms)"
      using m[OF w3(2), of "CHR '',''"] u2(2) ms(3) by (simp add: token_def del: p_members.simps)
    moreover have "s = ?u @ q" using s w3(1) u2(1) by simp
    ultimately show ?thesis by blast
  qed
qed simp_all

lemma parse_token:
  assumes "json_parse s = Some v"
  obtains N where "\<And>n r. N \<le> n \<Longrightarrow> stop r \<Longrightarrow> p_value n (Compact s @ r) = Some (squeeze v, r)"
proof -
  let ?N = "2 * length s + 2"
  obtain q where q: "p_value ?N s = Some (v, q)" "ws q = []"
    using assms by (auto simp: json_parse_def split: option.splits if_splits simp del: p_value.simps)
  have "p_value n (Compact s @ r) = Some (squeeze v, r)" if "?N \<le> n" "stop r" for n r
  proof -
    have "p_value n s = Some (v, q)" using parsers_fuel(1)[of s ?N n] that(1) q(1) by simp
    from compact_values(1)[OF this] obtain u where u: "s = u @ q" "token (p_value n) u (squeeze v)" by blast
    moreover have "Compact q = []" using compact_skips(2)[of q] q(2) by simp
    ultimately show ?thesis using that(2) by (simp add: token_def)
  qed
  with that show thesis by blast
qed

text \<open>Reading with enough fuel is reading.\<close>

lemma json_parseI:
  assumes "\<And>n. N \<le> n \<Longrightarrow> p_value n s = Some (v, [])"
  shows "json_parse s = Some v"
proof -
  have "p_value (max N (2 * length s + 2)) s = Some (v, [])" by (rule assms) simp
  with parsers_fuel(1)[of s "2 * length s + 2" "max N (2 * length s + 2)"] show ?thesis
    by (simp add: json_parse_def del: p_value.simps)
qed

lemma json_parse_compact:
  assumes "json_parse s = Some v"
  shows "json_parse (Compact s) = Some (squeeze v)"
proof -
  obtain N where "\<And>n r. N \<le> n \<Longrightarrow> stop r \<Longrightarrow> p_value n (Compact s @ r) = Some (squeeze v, r)"
    using parse_token[OF assms] by blast
  from this[of _ "[]"] show ?thesis by (intro json_parseI[of N]) (simp add: stop_def)
qed

end
