(* ===== verification/Wire.thy ===== *)
theory Wire
  imports JsonCompact
begin

text \<open>
  The text of a value as \<open>json.Marshal\<close> writes it: structs and maps as trees of members, raw messages
  compacted; and that the parser reads every such text back.
\<close>

section \<open>Texts\<close>

datatype wire =
    WNull
  | WBool bool
  | WInt int
  | WText string
  | WRaw string
  | WArr "wire list"
  | WObj "(string \<times> wire) list"

fun commas :: "string list \<Rightarrow> string" where
  "commas [] = []"
| "commas [s] = s"
| "commas (s # ss) = s @ CHR '','' # commas ss"

text \<open>A nil raw message is \<open>null\<close>.\<close>

fun wire_text :: "wire \<Rightarrow> string" where
  "wire_text WNull = ''null''"
| "wire_text (WBool b) = (if b then ''true'' else ''false'')"
| "wire_text (WInt i) = Itoa i"
| "wire_text (WText s) = json_quote s"
| "wire_text (WRaw s) = (if s = [] then ''null'' else Compact s)"
| "wire_text (WArr vs) = CHR ''['' # commas (map wire_text vs) @ '']''"
| "wire_text (WObj ms) = CHR ''{'' # commas (map (\<lambda>(k, v). json_quote k @ CHR '':'' # wire_text v) ms) @ ''}''"

text \<open>The value a client reads, and the values there are texts of: their raw messages are JSON.\<close>

fun wire_value :: "wire \<Rightarrow> json" where
  "wire_value WNull = JNull"
| "wire_value (WBool b) = JBool b"
| "wire_value (WInt i) = JNum (Itoa i)"
| "wire_value (WText s) = JStr (ToValidUTF8 s)"
| "wire_value (WRaw s) = (if s = [] then JNull else (case json_parse s of Some v \<Rightarrow> squeeze v | None \<Rightarrow> JNull))"
| "wire_value (WArr vs) = JArr (map wire_value vs)"
| "wire_value (WObj ms) = JObj (map (\<lambda>(k, v). (ToValidUTF8 k, wire_text v, wire_value v)) ms)"

fun raws :: "wire \<Rightarrow> string list" where
  "raws (WRaw s) = [s]"
| "raws (WArr vs) = concat (map raws vs)"
| "raws (WObj ms) = concat (map (\<lambda>(k, v). raws v) ms)"
| "raws v = []"

definition raw_ok :: "string \<Rightarrow> bool" where
  "raw_ok s \<longleftrightarrow> s = [] \<or> json_parse s \<noteq> None"

section \<open>Reading back\<close>

definition reads_as :: "string \<Rightarrow> json \<Rightarrow> bool" where
  "reads_as t v \<longleftrightarrow> (\<forall>r. ws (t @ r) = t @ r) \<and> (\<exists>N. \<forall>n\<ge>N. \<forall>r. stop r \<longrightarrow> p_value n (t @ r) = Some (v, r))"

lemma reads_asI:
  assumes "t \<noteq> []" "\<not> is_ws (hd t)" and "\<And>n r. N \<le> n \<Longrightarrow> stop r \<Longrightarrow> p_value n (t @ r) = Some (v, r)"
  shows "reads_as t v"
  using assms unfolding reads_as_def by (cases t) auto

lemma reads_as_parse: "reads_as t v \<Longrightarrow> json_parse t = Some v"
proof -
  assume "reads_as t v"
  then obtain N where "\<And>n r. N \<le> n \<Longrightarrow> stop r \<Longrightarrow> p_value n (t @ r) = Some (v, r)"
    unfolding reads_as_def by blast
  from this[of _ "[]"] show ?thesis by (intro json_parseI[of N]) (simp add: stop_def)
qed

text \<open>An integer.\<close>

lemma nat_digits_head: "hd (nat_digits n) = CHR ''0'' \<Longrightarrow> nat_digits n = ''0''"
proof (induction n rule: nat_digits.induct)
  case (1 n)
  show ?case
  proof (cases "n < 10")
    case True
    with 1(2) show ?thesis by (subst nat_digits.simps) (simp add: nat_digits.simps[of n])
  next
    case False
    then have d: "nat_digits n = nat_digits (n div 10) @ [char_of (n mod 10 + 48)]" by (subst nat_digits.simps) simp
    with 1(2) have "hd (nat_digits (n div 10)) = CHR ''0''" by simp
    with 1(1)[OF False] have "nat_digits (n div 10) = ''0''" by simp
    then have "int (n div 10) = 0" using digits_val_nat_digits[of "n div 10"] by (simp add: digits_val_def digit_val_def)
    with False show ?thesis by simp
  qed
qed

lemma p_num_Itoa:
  assumes "stop r"
  shows "p_num (Itoa i @ r) = Some (Itoa i, r)"
proof -
  have digits: "p_int (nat_digits k @ r) = Some (nat_digits k, r)" for k
  proof -
    obtain c cs where d: "nat_digits k = c # cs" using nat_digits_nonempty by (cases "nat_digits k") blast
    have digit: "list_all is_digit (c # cs)" using nat_digits_digits[of k] by (simp add: d)
    show ?thesis
    proof (cases "c = CHR ''0''")
      case True
      with d nat_digits_head[of k] show ?thesis by (simp add: p_int_def)
    next
      case False
      have "p_digits (c # cs) = Some (c # cs, [])"
        using digit by (simp add: p_digits_def Let_def list_all_iff iffD2[OF takeWhile_eq_all_conv] iffD2[OF dropWhile_eq_Nil_conv])
      from p_digits_token(4)[OF this, of r] assms False d show ?thesis
        by (auto simp: p_int_def stop_def num_char_def)
    qed
  qed
  have rest: "p_frac r = Some ([], r)" "p_exp r = Some ([], r)"
    using assms by (auto simp: p_frac_def p_exp_def stop_def num_char_def split: list.split)
  have "nat_digits k @ r \<noteq> [] \<and> hd (nat_digits k @ r) \<noteq> CHR ''-''" for k
    using nat_digits_digits[of k] nat_digits_nonempty[of k] by (cases "nat_digits k") (auto simp: is_digit_def)
  then show ?thesis by (simp add: p_num_def Let_def Itoa_def digits rest)
qed

lemma reads_Itoa: "reads_as (Itoa i) (JNum (Itoa i))"
proof (rule reads_asI[where N = 1])
  show i: "Itoa i \<noteq> []" by (simp add: Itoa_def)
  have "p_num (Itoa i @ []) = Some (Itoa i, [])" by (rule p_num_Itoa) (simp add: stop_def)
  then show "\<not> is_ws (hd (Itoa i))" by (auto simp: is_ws_def is_digit_def elim!: p_num_head)
  show "p_value n (Itoa i @ r) = Some (JNum (Itoa i), r)" if "1 \<le> n" "stop r" for n r
    using p_value_intros(6)[OF p_num_Itoa[OF that(2)]] that(1) by (cases n) simp_all
qed

lemma p_value_empty: "p_value n [] = None"
  by (cases n) simp_all

lemma reads_raw:
  assumes "json_parse s = Some v"
  shows "reads_as (Compact s) (squeeze v)"
proof -
  obtain N where N: "\<And>n r. N \<le> n \<Longrightarrow> stop r \<Longrightarrow> p_value n (Compact s @ r) = Some (squeeze v, r)"
    using parse_token[OF assms] by blast
  from N[of N "[]"] have "Compact s \<noteq> []" using p_value_empty by (auto simp: stop_def)
  moreover from this have "\<not> is_ws (hd (Compact s))"
    using compact_skips(1)[of s] by (cases "Compact s") (auto split: if_splits dest: dropWhile_eq_Cons_conv[THEN iffD1])
  ultimately show ?thesis using N by (rule reads_asI)
qed

lemma reads_simple:
  "reads_as ''null'' JNull" "reads_as (if b then ''true'' else ''false'') (JBool b)"
  "reads_as (json_quote s) (JStr (ToValidUTF8 s))"
proof -
  have f: "p_value n t = Some y" if "1 \<le> n" "\<And>m. p_value (Suc m) t = Some y" for n t y
    using that by (cases n) simp_all
  show "reads_as ''null'' JNull"
    by (rule reads_asI[where N = 1]) (simp, simp add: is_ws_def, rule f, simp, rule p_value_intros(9))
  have "reads_as ''true'' (JBool True)"
    by (rule reads_asI[where N = 1]) (simp, simp add: is_ws_def, rule f, simp, rule p_value_intros(7))
  moreover have "reads_as ''false'' (JBool False)"
    by (rule reads_asI[where N = 1]) (simp, simp add: is_ws_def, rule f, simp, rule p_value_intros(8))
  ultimately show "reads_as (if b then ''true'' else ''false'') (JBool b)" by simp
  have "p_value (Suc m) (json_quote s @ r) = Some (JStr (ToValidUTF8 s), r)" for m r by (rule p_value_quote)
  from f[OF _ this] show "reads_as (json_quote s) (JStr (ToValidUTF8 s))"
    by (intro reads_asI[where N = 1]) (simp_all add: json_quote_def is_ws_def)
qed

text \<open>Items with commas between them, for a parser that reads an item and what follows it.\<close>

lemma separated_read:
  fixes p :: "nat \<Rightarrow> string \<Rightarrow> ('b list \<times> string) option"
  assumes "xs \<noteq> []" and "e \<noteq> CHR '',''"
    and "\<And>x. x \<in> set xs \<Longrightarrow> \<exists>N. \<forall>n\<ge>N. \<forall>c r. (c = e \<or> c = CHR '','') \<longrightarrow> p (Suc n) (item x @ c # r)
      = (if c = e then Some ([val x], r) else map_option (\<lambda>(ys, r). (val x # ys, r)) (p n r))"
  shows "\<exists>N. \<forall>n\<ge>N. \<forall>r. p n (commas (map item xs) @ e # r) = Some (map val xs, r)"
  using assms(1,3)
proof (induction xs rule: list_nonempty_induct)
  case (single x)
  from single(1)[of x] obtain N where "\<forall>n\<ge>N. \<forall>c r. (c = e \<or> c = CHR '','') \<longrightarrow> p (Suc n) (item x @ c # r)
      = (if c = e then Some ([val x], r) else map_option (\<lambda>(ys, r). (val x # ys, r)) (p n r))" by auto
  then have N: "p (Suc n) (item x @ e # r) = Some ([val x], r)" if "N \<le> n" for n r using that by simp
  have "p n (item x @ e # r) = Some ([val x], r)" if "Suc N \<le> n" for n r
    using N[of "n - 1" r] that by simp
  then show ?case by auto
next
  case (cons x xs)
  obtain M where M: "\<And>n r. M \<le> n \<Longrightarrow> p n (commas (map item xs) @ e # r) = Some (map val xs, r)"
    using cons.IH cons.prems by (metis list.set_intros(2))
  from cons.prems[of x] obtain N where N: "\<forall>n\<ge>N. \<forall>c r. (c = e \<or> c = CHR '','') \<longrightarrow> p (Suc n) (item x @ c # r)
      = (if c = e then Some ([val x], r) else map_option (\<lambda>(ys, r). (val x # ys, r)) (p n r))" by auto
  have c: "commas (map item (x # xs)) = item x @ CHR '','' # commas (map item xs)" using cons.hyps by (cases xs) simp_all
  have N: "p (Suc n) (item x @ CHR '','' # s) = map_option (\<lambda>(ys, r). (val x # ys, r)) (p n s)" if "N \<le> n" for n s
    using N that assms(2) by simp
  have "p n (commas (map item (x # xs)) @ e # r) = Some (map val (x # xs), r)" if n: "Suc (max N M) \<le> n" for n r
  proof -
    obtain m where "n = Suc m" "N \<le> m" "M \<le> m" using n by (cases n) auto
    with N M c show ?thesis by simp
  qed
  then show ?case by blast
qed

lemma elem_reads:
  assumes "reads_as t v"
  shows "\<exists>N. \<forall>n\<ge>N. \<forall>c r. (c = CHR '']'' \<or> c = CHR '','') \<longrightarrow> p_elems (Suc n) (t @ c # r)
    = (if c = CHR '']'' then Some ([v], r) else map_option (\<lambda>(vs, r). (v # vs, r)) (p_elems n r))"
proof -
  obtain N where N: "\<And>n r. N \<le> n \<Longrightarrow> stop r \<Longrightarrow> p_value n (t @ r) = Some (v, r)"
    using assms by (auto simp: reads_as_def)
  show ?thesis
  proof (intro exI[of _ N] allI impI)
    fix n c r assume "N \<le> n" and c: "c = CHR '']'' \<or> c = CHR '',''"
    then have "p_value n (t @ c # r) = Some (v, c # r)" using N stop_sep[of c r] by blast
    then show "p_elems (Suc n) (t @ c # r)
      = (if c = CHR '']'' then Some ([v], r) else map_option (\<lambda>(vs, r). (v # vs, r)) (p_elems n r))"
      using c by (rule p_elems_intro)
  qed
qed

definition read_member :: "string \<Rightarrow> string \<Rightarrow> json \<Rightarrow> string \<times> string \<times> json" where
  "read_member k t v = (ToValidUTF8 k, t, v)"

lemma member_reads:
  assumes "reads_as t v"
  shows "\<exists>N. \<forall>n\<ge>N. \<forall>c r. (c = CHR ''}'' \<or> c = CHR '','') \<longrightarrow> p_members (Suc n) ((json_quote k @ CHR '':'' # t) @ c # r)
    = (if c = CHR ''}'' then Some ([read_member k t v], r)
       else map_option (\<lambda>(ms, r). (read_member k t v # ms, r)) (p_members n r))"
proof -
  obtain N where N: "\<And>n r. N \<le> n \<Longrightarrow> stop r \<Longrightarrow> p_value n (t @ r) = Some (v, r)" and w: "\<And>r. ws (t @ r) = t @ r"
    using assms by (auto simp: reads_as_def)
  show ?thesis
  proof (intro exI[of _ N] allI impI)
    fix n c r assume "N \<le> n" and c: "c = CHR ''}'' \<or> c = CHR '',''"
    then have "p_value n (t @ c # r) = Some (v, c # r)" using N stop_sep[of c r] by blast
    from p_members_intro[OF p_str_json_chars this w c, of k]
    show "p_members (Suc n) ((json_quote k @ CHR '':'' # t) @ c # r) = (if c = CHR ''}'' then Some ([read_member k t v], r)
       else map_option (\<lambda>(ms, r). (read_member k t v # ms, r)) (p_members n r))"
      by (simp add: read_member_def json_quote_def del: p_members.simps)
  qed
qed

text \<open>The whole text.\<close>

lemma reads_array:
  assumes "list_all (\<lambda>v. reads_as (wire_text v) (wire_value v)) vs"
  shows "reads_as (wire_text (WArr vs)) (wire_value (WArr vs))"
proof (cases "vs = []")
  case True
  have "p_value (Suc n) (CHR ''['' # CHR '']'' # r) = Some (JArr [], r)" for n r by (rule p_value_intros(4))
  then have "p_value n (CHR ''['' # CHR '']'' # r) = Some (JArr [], r)" if "1 \<le> n" for n r
    using that by (cases n) simp_all
  with True show ?thesis by (intro reads_asI[where N = 1]) (simp_all add: is_ws_def)
next
  case False
  have "\<exists>N. \<forall>n\<ge>N. \<forall>r. p_elems n (commas (map wire_text vs) @ CHR '']'' # r) = Some (map wire_value vs, r)"
  proof (rule separated_read[OF False])
    show "CHR '']'' \<noteq> CHR '',''" by simp
    fix v assume "v \<in> set vs"
    with assms have "reads_as (wire_text v) (wire_value v)" by (simp add: list_all_iff)
    then show "\<exists>N. \<forall>n\<ge>N. \<forall>c r. (c = CHR '']'' \<or> c = CHR '','') \<longrightarrow> p_elems (Suc n) (wire_text v @ c # r)
      = (if c = CHR '']'' then Some ([wire_value v], r) else map_option (\<lambda>(ys, r). (wire_value v # ys, r)) (p_elems n r))"
      by (rule elem_reads)
  qed
  then obtain N where N: "\<And>n r. N \<le> n \<Longrightarrow> p_elems n (commas (map wire_text vs) @ CHR '']'' # r) = Some (map wire_value vs, r)"
    by blast
  have "p_value n (wire_text (WArr vs) @ r) = Some (JArr (map wire_value vs), r)" if "Suc N \<le> n" for n r
    using that p_value_intros(3)[OF N[of "n - 1" r]] by (cases n) (simp_all del: p_value.simps)
  then show ?thesis by (intro reads_asI[where N = "Suc N"]) (simp_all add: is_ws_def)
qed

lemma reads_object:
  assumes "list_all (\<lambda>(k, v). reads_as (wire_text v) (wire_value v)) ms"
  shows "reads_as (wire_text (WObj ms)) (wire_value (WObj ms))"
proof (cases "ms = []")
  case True
  have "p_value (Suc n) (CHR ''{'' # CHR ''}'' # r) = Some (JObj [], r)" for n r by (rule p_value_intros(2))
  then have "p_value n (CHR ''{'' # CHR ''}'' # r) = Some (JObj [], r)" if "1 \<le> n" for n r
    using that by (cases n) simp_all
  with True show ?thesis by (intro reads_asI[where N = 1]) (simp_all add: is_ws_def)
next
  case False
  let ?item = "\<lambda>(k, v). json_quote k @ CHR '':'' # wire_text v"
  let ?val = "\<lambda>(k, v). read_member k (wire_text v) (wire_value v)"
  have "\<exists>N. \<forall>n\<ge>N. \<forall>r. p_members n (commas (map ?item ms) @ CHR ''}'' # r) = Some (map ?val ms, r)"
  proof (rule separated_read[OF False])
    show "CHR ''}'' \<noteq> CHR '',''" by simp
    fix m assume "m \<in> set ms"
    then obtain k v where m: "m = (k, v)" "reads_as (wire_text v) (wire_value v)"
      using assms by (cases m) (auto simp: list_all_iff)
    show "\<exists>N. \<forall>n\<ge>N. \<forall>c r. (c = CHR ''}'' \<or> c = CHR '','') \<longrightarrow> p_members (Suc n) (?item m @ c # r)
      = (if c = CHR ''}'' then Some ([?val m], r) else map_option (\<lambda>(ys, r). (?val m # ys, r)) (p_members n r))"
      unfolding m(1) prod.case by (rule member_reads[OF m(2)])
  qed
  then obtain N where N: "\<And>n r. N \<le> n \<Longrightarrow> p_members n (commas (map ?item ms) @ CHR ''}'' # r) = Some (map ?val ms, r)"
    by blast
  have "p_value n (wire_text (WObj ms) @ r) = Some (JObj (map ?val ms), r)" if "Suc N \<le> n" for n r
    using that p_value_intros(1)[OF N[of "n - 1" r]] by (cases n) (simp_all del: p_value.simps)
  moreover have "wire_value (WObj ms) = JObj (map ?val ms)" by (simp add: read_member_def)
  ultimately show ?thesis by (intro reads_asI[where N = "Suc N"]) (simp_all add: is_ws_def)
qed

lemma wire_reads:
  "list_all raw_ok (raws w) \<Longrightarrow> reads_as (wire_text w) (wire_value w)"
proof (induction w)
  case (WRaw s)
  show ?case
  proof (cases "s = []")
    case True
    with reads_simple(1) show ?thesis by simp
  next
    case False
    with WRaw obtain v where "json_parse s = Some v" by (auto simp: raw_ok_def)
    with False reads_raw[OF this] show ?thesis by simp
  qed
next
  case (WArr vs)
  then have "list_all (\<lambda>v. reads_as (wire_text v) (wire_value v)) vs" by (simp add: list_all_iff)
  then show ?case by (rule reads_array)
next
  case (WObj ms)
  then have "list_all (\<lambda>(k, v). reads_as (wire_text v) (wire_value v)) ms" by (fastforce simp: list_all_iff)
  then show ?case by (rule reads_object)
qed (use reads_simple reads_Itoa in simp_all)

lemma wire_round_trip: "list_all raw_ok (raws w) \<Longrightarrow> json_parse (wire_text w) = Some (wire_value w)"
  by (rule reads_as_parse[OF wire_reads])

end
