(* ===== verification/TimeText.thy ===== *)
theory TimeText
  imports GoTime
begin

text \<open>
  How a \<open>time.Time\<close> is written in JSON: the layout \<open>2006-01-02T15:04:05.999999999Z07:00\<close>, in the zone the
  time has; and that the text names the same instant when it is read back.
\<close>

section \<open>The date of a day\<close>

text \<open>
  The year and the day of the year, of a day counted from the first of January of year 1: whole
  cycles of 400, 100, 4 and 1 years, of which the last century of four and the last year of four are
  cut off at the third.
\<close>

definition cut3 :: "int \<Rightarrow> int" where
  "cut3 n = (if n = 4 then 3 else n)"

definition date_of :: "int \<Rightarrow> int \<times> int" where
  "date_of d =
     (let a = d div 146097; d = d mod 146097;
          b = cut3 (d div 36524); d = d - 36524 * b;
          c = d div 1461; d = d mod 1461;
          e = cut3 (d div 365); d = d - 365 * e
      in (400 * a + 100 * b + 4 * c + e + 1, d))"

fun month_of :: "nat \<Rightarrow> int \<Rightarrow> int \<Rightarrow> int \<Rightarrow> int \<times> int" where
  "month_of 0 m d y = (m, d + 1)"
| "month_of (Suc n) m d y = (if d < days_in m y then (m, d + 1) else month_of n (m + 1) (d - days_in m y) y)"

definition year_days :: "int \<Rightarrow> int" where
  "year_days y = (if leap y then 366 else 365)"

lemma date_of_day:
  assumes "date_of d = (y, yd)"
  shows "days_before_year y + yd = d" "0 \<le> yd" "yd < year_days y"
proof -
  define a where "a = d div 146097"
  define d1 where "d1 = d mod 146097"
  define b where "b = cut3 (d1 div 36524)"
  define d2 where "d2 = d1 - 36524 * b"
  define c where "c = d2 div 1461"
  define d3 where "d3 = d2 mod 1461"
  define e where "e = cut3 (d3 div 365)"
  have y: "y = 400 * a + 100 * b + 4 * c + e + 1" and yd: "yd = d3 - 365 * e"
    using assms by (simp_all add: date_of_def Let_def a_def d1_def b_def d2_def c_def d3_def e_def)
  have d: "d = 146097 * a + d1" "0 \<le> d1" "d1 < 146097" by (simp_all add: a_def d1_def)
  have b: "0 \<le> b" "b \<le> 3" "0 \<le> d2" "d2 \<le> 36524" "b \<noteq> 3 \<Longrightarrow> d2 < 36524"
    using d(2,3) unfolding d2_def b_def cut3_def by (auto split: if_splits)
  have c: "d2 = 1461 * c + d3" "0 \<le> d3" "d3 < 1461" "0 \<le> c" "c \<le> 24"
    using b(3,4) by (simp_all add: c_def d3_def)
  have e: "0 \<le> e" "e \<le> 3" "0 \<le> yd" "yd \<le> 365" "e \<noteq> 3 \<Longrightarrow> yd < 365"
    using c(2,3) unfolding yd e_def cut3_def by (auto split: if_splits)
  have q: "(400 * a + 100 * b + 4 * c + e) div 4 = 100 * a + 25 * b + c"
    "(400 * a + 100 * b + 4 * c + e) div 100 = 4 * a + b"
    "(400 * a + 100 * b + 4 * c + e) div 400 = a"
    by (rule int_div_pos_eq[of _ 4 _ e] int_div_pos_eq[of _ 100 _ "4 * c + e"]
        int_div_pos_eq[of _ 400 _ "100 * b + 4 * c + e"]; use b(1,2) c(4,5) e(1,2) in simp)+
  show "days_before_year y + yd = d"
    by (simp add: days_before_year_def Let_def y q yd) (use d(1) c(1) d2_def in linarith)
  show "0 \<le> yd" by (rule e(3))
  have "leap y" if "yd = 365"
  proof -
    have e3: "e = 3" using e that by auto
    show ?thesis
    proof (cases "c = 24")
      case True
      with that b(2,5) c(1) e3 yd have "b = 3" by fastforce
      with True e3 have "y = 4 * (100 * a + 100)" "y = 400 * (a + 1)" by (simp_all add: y)
      then show ?thesis unfolding leap_def by (metis mod_mult_self1_is_0)
    next
      case False
      have "y mod 100 = 4 * c + 4"
        by (rule int_mod_pos_eq[of _ 100 "4 * a + b"]) (use False c(4,5) e3 in \<open>simp_all add: y\<close>)
      moreover have "y = 4 * (100 * a + 25 * b + c + 1)" by (simp add: y e3)
      ultimately show ?thesis using c(4) unfolding leap_def by (metis add_nonneg_pos less_irrefl mod_mult_self1_is_0
            mult_nonneg_nonneg zero_le_numeral zero_less_numeral)
    qed
  qed
  with e(4) show "yd < year_days y" by (cases "yd = 365") (auto simp: year_days_def)
qed

lemma days_before_month_next: "1 \<le> m \<Longrightarrow> days_before_month (m + 1) y = days_before_month m y + days_in m y"
  using upto_rec2[of 1 m] by (simp add: days_before_month_def)

lemma year_days_months: "(\<Sum>i\<leftarrow>[1..12]. days_in i y) = year_days y"
  by (simp add: upto.simps days_in_def year_days_def)

lemma month_of_day:
  assumes "month_of n m d y = (mo, dd)" and "1 \<le> m" "m + int n = 12" and "0 \<le> d" "d < (\<Sum>i\<leftarrow>[m..12]. days_in i y)"
  shows "1 \<le> mo \<and> mo \<le> 12 \<and> 1 \<le> dd \<and> dd \<le> days_in mo y \<and> days_before_month mo y + dd = days_before_month m y + d + 1"
  using assms
proof (induction n arbitrary: m d)
  case 0
  then show ?case by auto
next
  case (Suc n)
  show ?case
  proof (cases "d < days_in m y")
    case True
    with Suc.prems show ?thesis by auto
  next
    case False
    have "(\<Sum>i\<leftarrow>[m..12]. days_in i y) = days_in m y + (\<Sum>i\<leftarrow>[m + 1..12]. days_in i y)"
      using Suc.prems(3) upto_rec1[of m 12] by simp
    with False Suc.prems Suc.IH[of "m + 1" "d - days_in m y"] days_before_month_next[of m y] show ?thesis by auto
  qed
qed

section \<open>The text of a time\<close>

text \<open>The fraction of a second, without trailing zeros; the zone in minutes east of UTC.\<close>

definition nine :: "int \<Rightarrow> string" where
  "nine ns = replicate (9 - length (Itoa ns)) (CHR ''0'') @ Itoa ns"

definition fraction_text :: "int \<Rightarrow> string" where
  "fraction_text ns = (if ns = 0 then [] else CHR ''.'' # TrimRight (nine ns) ''0'')"

definition zone_text :: "int \<Rightarrow> string" where
  "zone_text off = (if off = 0 then ''Z'' else offset_text (off < 0) (\<bar>off\<bar> div 60) (\<bar>off\<bar> mod 60))"

definition FormatTime :: "int \<Rightarrow> int \<Rightarrow> string" where
  "FormatTime off t =
     (let l = t + off * 60000000000; s = l div 1000000000; k = s mod 86400 in
      case date_of (s div 86400 + 719162) of (y, yd) \<Rightarrow>
      case month_of 11 1 yd y of (mo, d) \<Rightarrow>
        rfc3339 y mo d (k div 3600) (k mod 3600 div 60) (k mod 60)
          (fraction_text (l mod 1000000000) @ zone_text off))"

text \<open>Years of four digits, which is what \<open>MarshalJSON\<close> accepts.\<close>

definition writable :: "int \<Rightarrow> int \<Rightarrow> bool" where
  "writable off t \<longleftrightarrow> \<bar>off\<bar> < 24 * 60
     \<and> (let y = fst (date_of ((t + off * 60000000000) div 1000000000 div 86400 + 719162)) in 0 \<le> y \<and> y \<le> 9999)"

lemma digits_val_zeros:
  "digits_val (replicate k (CHR ''0'') @ s) = digits_val s"
  "digits_val (s @ replicate j (CHR ''0'')) = digits_val s * 10 ^ j"
proof -
  have z: "digit_val (CHR ''0'') = 0" by (simp add: digit_val_def)
  then show "digits_val (replicate k (CHR ''0'') @ s) = digits_val s"
    by (induction k) (simp_all add: digits_val_def)
  have "foldl (\<lambda>a c. 10 * a + digit_val c) x (replicate j (CHR ''0'')) = x * 10 ^ j" for x :: int
    by (induction j arbitrary: x) (simp_all add: z)
  then show "digits_val (s @ replicate j (CHR ''0'')) = digits_val s * 10 ^ j"
    by (simp add: digits_val_def)
qed

lemma TrimRight_zeros: "\<exists>j. s = TrimRight s ''0'' @ replicate j (CHR ''0'')"
proof -
  let ?p = "\<lambda>c. c \<in> set ''0''"
  have "rev s = takeWhile ?p (rev s) @ dropWhile ?p (rev s)" by simp
  then have "s = rev (dropWhile ?p (rev s)) @ rev (takeWhile ?p (rev s))" by (metis rev_append rev_rev_ident)
  moreover have "takeWhile ?p (rev s) = replicate (length (takeWhile ?p (rev s))) (CHR ''0'')"
    by (rule replicate_eqI[symmetric, THEN sym]) (auto dest: set_takeWhileD)
  ultimately show ?thesis unfolding TrimRight_def by (metis rev_replicate)
qed

lemma nine_facts:
  assumes "0 \<le> ns" "ns < 1000000000"
  shows "length (nine ns) = 9" "list_all is_digit (nine ns)" "digits_val (nine ns) = ns"
proof -
  have i: "Itoa ns = nat_digits (nat ns)" using assms by (simp add: Itoa_def)
  have "length (nat_digits n) \<le> k" if "n < 10 ^ k" "1 \<le> k" for n k
    using that
  proof (induction n arbitrary: k rule: nat_digits.induct)
    case (1 n)
    show ?case
    proof (cases "n < 10")
      case True
      with 1 show ?thesis by (subst nat_digits.simps) simp
    next
      case False
      then obtain j where k: "k = Suc j" "1 \<le> j" using 1(2) by (cases k; cases "k - 1") auto
      with 1(2) have "n div 10 < 10 ^ j" by (simp add: less_mult_imp_div_less mult.commute)
      with 1(1)[OF False _ k(2)] False k(1) show ?thesis by (subst nat_digits.simps) simp
    qed
  qed
  from this[of "nat ns" 9] assms have "length (Itoa ns) \<le> 9" by (simp add: i)
  then show "length (nine ns) = 9" by (simp add: nine_def)
  show "list_all is_digit (nine ns)"
    using nat_digits_digits[of "nat ns"] by (auto simp: nine_def i list_all_iff is_digit_def)
  show "digits_val (nine ns) = ns" using assms by (simp add: nine_def i digits_val_zeros digits_val_nat_digits)
qed

lemma get_fraction_text:
  assumes "0 \<le> ns" "ns < 1000000000" and "get_fraction z = (0, z)" "z = [] \<or> \<not> is_digit (hd z)"
  shows "get_fraction (fraction_text ns @ z) = (ns, z)"
proof (cases "ns = 0")
  case True
  with assms(3) show ?thesis by (simp add: fraction_text_def)
next
  case False
  note n = nine_facts[OF assms(1,2)]
  define u where "u = TrimRight (nine ns) ''0''"
  obtain j where j: "nine ns = u @ replicate j (CHR ''0'')" using TrimRight_zeros u_def by metis
  have u: "digits_val u * 10 ^ j = ns" "length u + j = 9" "list_all is_digit u"
    using n digits_val_zeros(2)[of u j] by (auto simp: j)
  have "u \<noteq> []" using u(1) False by (auto simp: digits_val_def)
  then obtain d r where dr: "u = d # r" by (cases u) auto
  have w: "takeWhile is_digit (u @ z) = u" "dropWhile is_digit (u @ z) = z"
    using u(3) assms(4) by (cases z; auto simp: list_all_iff takeWhile_append2 dropWhile_append2
        iffD2[OF takeWhile_eq_all_conv] iffD2[OF dropWhile_eq_Nil_conv])+
  have j9: "9 - length u = j" "take 9 u = u" using u(2) by simp_all
  have "get_fraction (CHR ''.'' # u @ z) = (digits_val (take 9 (takeWhile is_digit (u @ z)))
      * 10 ^ (9 - length (take 9 (takeWhile is_digit (u @ z)))), dropWhile is_digit (u @ z))"
    using u(3) by (simp add: dr get_fraction_def Let_def)
  then show ?thesis using u(1) False by (simp add: fraction_text_def u_def[symmetric] w j9)
qed

lemma digits_ascii: "list_all is_digit v \<Longrightarrow> list_all (\<lambda>c. (of_char c :: nat) < 128) v"
  by (induction v) (auto simp: is_digit_def)

lemma zone_facts:
  assumes "\<bar>off\<bar> < 24 * 60"
  shows "get_zone True (zone_text off) = Some (off * 60, [])" "get_fraction (zone_text off) = (0, zone_text off)"
    "zone_text off = [] \<or> \<not> is_digit (hd (zone_text off))"
    "list_all (\<lambda>c. (of_char c :: nat) < 128) (zone_text off)"
proof -
  have o: "0 \<le> \<bar>off\<bar> div 60" "\<bar>off\<bar> div 60 \<le> 23" "0 \<le> \<bar>off\<bar> mod 60" "\<bar>off\<bar> mod 60 \<le> 59" using assms by auto
  from get_zone_text(3)[OF o, of "off < 0"] div_mult_mod_eq[of "\<bar>off\<bar>" 60]
  show "get_zone True (zone_text off) = Some (off * 60, [])"
    by (auto simp: zone_text_def get_zone_text(1) abs_if split: if_splits)
  show "get_fraction (zone_text off) = (0, zone_text off)" by (simp add: zone_text_def get_zone_text)
  show "zone_text off = [] \<or> \<not> is_digit (hd (zone_text off))"
    by (simp add: zone_text_def offset_text_def is_digit_def)
  show "list_all (\<lambda>c. (of_char c :: nat) < 128) (zone_text off)"
    using digits_ascii[OF two_digits(2)[of "\<bar>off\<bar> div 60"]] digits_ascii[OF two_digits(2)[of "\<bar>off\<bar> mod 60"]] o
    by (simp add: zone_text_def offset_text_def)
qed

text \<open>The parts of the text are within their ranges and name the instant.\<close>

lemma FormatTime_parts:
  assumes "writable off t"
  obtains y mo d h mi s ns where "0 \<le> y" "y \<le> 9999" "1 \<le> mo" "mo \<le> 12" "1 \<le> d" "d \<le> days_in mo y"
    "0 \<le> h" "h \<le> 23" "0 \<le> mi" "mi \<le> 59" "0 \<le> s" "s \<le> 59" "0 \<le> ns" "ns < 1000000000"
    "instant y mo d h mi s ns = t + off * 60000000000"
    "FormatTime off t = rfc3339 y mo d h mi s (fraction_text ns @ zone_text off)"
proof -
  define l where "l = t + off * 60000000000"
  define s where "s = l div 1000000000"
  define k where "k = s mod 86400"
  define ns where "ns = l mod 1000000000"
  obtain y yd where y: "date_of (s div 86400 + 719162) = (y, yd)" by (cases "date_of (s div 86400 + 719162)")
  obtain mo d where mo: "month_of 11 1 yd y = (mo, d)" by (cases "month_of 11 1 yd y")
  have yr: "0 \<le> y" "y \<le> 9999" using assms y by (auto simp: writable_def Let_def l_def s_def)
  note dy = date_of_day[OF y]
  have m: "1 \<le> mo" "mo \<le> 12" "1 \<le> d" "d \<le> days_in mo y" "days_before_month mo y + d = yd + 1"
    using month_of_day[OF mo] dy(2,3) year_days_months[of y] by (simp_all add: days_before_month_def)
  have ns: "0 \<le> ns" "ns < 1000000000" and kr: "0 \<le> k" "k < 86400" by (simp_all add: ns_def k_def)
  have c: "0 \<le> k div 3600" "k div 3600 \<le> 23" "0 \<le> k mod 3600 div 60" "k mod 3600 div 60 \<le> 59"
    "0 \<le> k mod 60" "k mod 60 \<le> 59" "k div 3600 * 3600 + k mod 3600 div 60 * 60 + k mod 60 = k"
  proof -
    have "k mod 3600 < 3600" "0 \<le> k mod 3600" by simp_all
    then show "0 \<le> k mod 3600 div 60" "k mod 3600 div 60 \<le> 59" by auto
    have "k mod 3600 mod 60 = k mod 60" by (rule mod_mod_cancel) simp
    then show "k div 3600 * 3600 + k mod 3600 div 60 * 60 + k mod 60 = k"
      using div_mult_mod_eq[of k 3600] div_mult_mod_eq[of "k mod 3600" 60] by linarith
  qed (use kr in auto)
  have f: "FormatTime off t = rfc3339 y mo d (k div 3600) (k mod 3600 div 60) (k mod 60) (fraction_text ns @ zone_text off)"
    using y mo by (simp add: FormatTime_def Let_def l_def s_def k_def ns_def)
  have "instant y mo d (k div 3600) (k mod 3600 div 60) (k mod 60) ns = l"
  proof -
    have "(days_before_year y + days_before_month mo y + d - 1 - 719162) = s div 86400" using dy(1) m(5) by simp
    then have "instant y mo d (k div 3600) (k mod 3600 div 60) (k mod 60) ns = (s div 86400 * 86400 + k) * 1000000000 + ns"
      using c(7) by (simp add: instant_def)
    also have "s div 86400 * 86400 + k = s" by (simp add: k_def)
    finally show ?thesis by (simp add: s_def ns_def)
  qed
  with that[OF yr m(1-4) c(1-6) ns _ f] show thesis by (simp add: l_def)
qed

lemma FormatTime_reads_back:
  assumes "writable off t"
  shows "parse_rfc3339 (FormatTime off t) = Some t"
proof -
  obtain y mo d h mi s ns where r: "0 \<le> y" "y \<le> 9999" "1 \<le> mo" "mo \<le> 12" "1 \<le> d" "d \<le> days_in mo y"
    "0 \<le> h" "h \<le> 23" "0 \<le> mi" "mi \<le> 59" "0 \<le> s" "s \<le> 59" and ns: "0 \<le> ns" "ns < 1000000000"
    and i: "instant y mo d h mi s ns = t + off * 60000000000"
    and f: "FormatTime off t = rfc3339 y mo d h mi s (fraction_text ns @ zone_text off)"
    using assms by (rule FormatTime_parts)
  have "\<bar>off\<bar> < 24 * 60" using assms by (simp add: writable_def)
  note z = zone_facts[OF this]
  show ?thesis
    unfolding f parse_rfc3339_parts[OF r get_fraction_text[OF ns z(2,3)] z(1)] i by simp
qed

lemma FormatTime_ascii:
  assumes "writable off t"
  shows "list_all (\<lambda>c. (of_char c :: nat) < 128) (FormatTime off t)"
proof -
  obtain y mo d h mi s ns where r: "0 \<le> y" "y \<le> 9999" "1 \<le> mo" "mo \<le> 12" "1 \<le> d" "d \<le> days_in mo y"
    "0 \<le> h" "h \<le> 23" "0 \<le> mi" "mi \<le> 59" "0 \<le> s" "s \<le> 59" and ns: "0 \<le> ns" "ns < 1000000000"
    and i: "instant y mo d h mi s ns = t + off * 60000000000"
    and f: "FormatTime off t = rfc3339 y mo d h mi s (fraction_text ns @ zone_text off)"
    using assms by (rule FormatTime_parts)
  have two: "list_all (\<lambda>c. (of_char c :: nat) < 128) (two n)" if "0 \<le> n" "n \<le> 99" for n
    by (rule digits_ascii[OF two_digits(2)[OF that]])
  have "d \<le> 99" using r by (auto simp: days_in_def split: if_splits)
  moreover have "0 \<le> y div 100" "y div 100 \<le> 99" "0 \<le> y mod 100" "y mod 100 \<le> 99" using r(1,2) by auto
  moreover have "list_all (\<lambda>c. (of_char c :: nat) < 128) (fraction_text ns)"
  proof (cases "ns = 0")
    case False
    obtain j where "nine ns = TrimRight (nine ns) ''0'' @ replicate j (CHR ''0'')" using TrimRight_zeros by blast
    with digits_ascii[OF nine_facts(2)[OF ns]] have "list_all (\<lambda>c. (of_char c :: nat) < 128) (TrimRight (nine ns) ''0'')"
      by (metis list_all_append)
    then show ?thesis by (simp add: fraction_text_def)
  qed (simp add: fraction_text_def)
  ultimately show ?thesis
    using r two zone_facts(4)[of off] assms by (simp add: f rfc3339_def writable_def)
qed

interpretation times: codec "FormatTime off" "\<lambda>s. the (parse_rfc3339 s)" "writable off" for off
  by unfold_locales (simp add: FormatTime_reads_back)

text \<open>Different instants have different texts.\<close>

lemma FormatTime_inj: "writable off t \<Longrightarrow> writable off u \<Longrightarrow> FormatTime off t = FormatTime off u \<longleftrightarrow> t = u"
  by (rule times.enc_eq_iff)

end
