(* ===== verification/AnswerText.thy ===== *)
theory AnswerText
  imports Wire TimeText Http
begin

text \<open>
  The bodies of the answers: what \<open>c.JSON\<close> writes for the rows of \<open>internal/data\<close>, after the \<open>json\<close> tags
  of their structs, for the listings and for the details of failures. Identifiers are written by the
  UUID library; times in the zone of the database session (\<open>zone\<close>: minutes east of UTC at an instant),
  those the program makes up itself in UTC. The details of media are left out: the tables keep
  columns with their times the model does not.
\<close>

section \<open>Rows\<close>

text \<open>\<open>sql.NullString\<close> has no \<open>MarshalJSON\<close>: it is written as the struct it is.\<close>

definition null_string :: "string option \<Rightarrow> wire" where
  "null_string s = WObj [(''String'', WText (case s of None \<Rightarrow> [] | Some t \<Rightarrow> t)), (''Valid'', WBool (s \<noteq> None))]"

text \<open>\<open>omitempty\<close> leaves out nil pointers and empty raw messages.\<close>

definition omitempty :: "string \<Rightarrow> wire option \<Rightarrow> (string \<times> wire) list" where
  "omitempty k v = (case v of None \<Rightarrow> [] | Some w \<Rightarrow> [(k, w)])"

definition uuid_text :: "ext \<Rightarrow> uuid \<Rightarrow> wire" where
  "uuid_text x u = WText (x_uuid_string x u)"

definition time_text :: "(int \<Rightarrow> int) \<Rightarrow> int \<Rightarrow> wire" where
  "time_text zone t = WText (FormatTime (zone t) t)"

definition UserPublic_json :: "ext \<Rightarrow> (int \<Rightarrow> int) \<Rightarrow> UserPublic \<Rightarrow> wire" where
  "UserPublic_json x zone u = WObj [(''id'', uuid_text x (up_id u)), (''username'', WText (up_username u)),
     (''system_name'', WText (up_system u)), (''is_admin'', WBool (up_admin u)), (''is_active'', WBool (up_active u)),
     (''registered_at'', time_text zone (up_registered u)), (''last_activity_at'', time_text zone (up_last_activity u)),
     (''total_downloads'', WInt (int (up_downloads u))), (''total_uploads'', WInt (int (up_uploads u)))]"

definition MimeType_json :: "ext \<Rightarrow> MimeType \<Rightarrow> wire" where
  "MimeType_json x m = WObj [(''id'', uuid_text x (mt_id m)), (''mime_type'', WText (mt_mime m)),
     (''generic_type'', null_string (mt_generic m)), (''description'', null_string (mt_desc m)),
     (''extensions'', null_string (mt_exts m))]"

definition StorageFile_json :: "ext \<Rightarrow> (int \<Rightarrow> int) \<Rightarrow> StorageFile \<Rightarrow> wire" where
  "StorageFile_json x zone f = WObj (
     [(''id'', uuid_text x (sf_id f)), (''created_at'', time_text zone (sf_created_at f))]
     @ omitempty ''updated_at'' (map_option (time_text zone) (sf_updated_at f))
     @ [(''signature_key'', WText (sf_sig f)), (''name'', null_string (sf_name f)), (''status'', WText (sf_status f)),
        (''visibility'', WText (sf_visibility f)), (''size'', WInt (sf_size f)), (''hash'', null_string (sf_hash f)),
        (''extension'', null_string (sf_ext f)), (''exif_metadata'', WRaw (sf_exif f)),
        (''custom_metadata'', WRaw (sf_custom f)), (''origin'', WText (sf_origin f)),
        (''original_path'', null_string (sf_orig_path f)), (''real_path'', null_string (sf_real_path f)),
        (''virtual_path'', null_string (sf_virt_path f)), (''available'', WBool (sf_available f)),
        (''excluded'', WBool (sf_excluded f))]
     @ omitempty ''owner'' (map_option (UserPublic_json x zone) (sf_owner f))
     @ omitempty ''type'' (map_option (MimeType_json x) (sf_type f))
     @ omitempty ''created_by'' (map_option (uuid_text x) (sf_created_by f))
     @ omitempty ''updated_by'' (map_option (uuid_text x) (sf_updated_by f)))"

definition Storage_json :: "ext \<Rightarrow> Storage \<Rightarrow> wire" where
  "Storage_json x s = WObj ([(''id'', uuid_text x (st_id s)), (''type'', null_string (st_type s))]
     @ omitempty ''media_convert_configuration'' (if st_media_cfg s = [] then None else Some (WRaw (st_media_cfg s)))
     @ [(''total_size'', WInt (st_total_size s))])"

definition StorageUser_json :: "ext \<Rightarrow> (int \<Rightarrow> int) \<Rightarrow> StorageUser \<Rightarrow> wire" where
  "StorageUser_json x zone su = WObj ([(''id'', uuid_text x (su_id su)), (''created_at'', time_text zone (su_created_at su))]
     @ omitempty ''updated_at'' (map_option (time_text zone) (su_updated_at su))
     @ [(''may_write'', WBool (su_may_write su)), (''may_read'', WBool (su_may_read su)),
        (''storage'', uuid_text x (su_storage su)), (''user'', uuid_text x (su_user su))])"

text \<open>The times of a download link are made up by \<open>createDownload\<close>, in UTC.\<close>

definition FileDownload_json :: "ext \<Rightarrow> FileDownload \<Rightarrow> wire" where
  "FileDownload_json x d = WObj [(''id'', uuid_text x (dl_id d)), (''download_url'', null_string (dl_url d)),
     (''force_download'', WBool (dl_force d)), (''created_at'', time_text (\<lambda>_. 0) (dl_created_at d)),
     (''expires_at'', time_text (\<lambda>_. 0) (dl_expires_at d)), (''storage_file'', uuid_text x (dl_file d))]"

section \<open>Bodies\<close>

text \<open>\<open>gin.H\<close> is a map, written in the order of its keys; a nil slice is \<open>null\<close>.\<close>

definition href :: "string \<Rightarrow> wire" where
  "href s = WObj [(''href'', WText s)]"

definition pageLinks_json :: "links \<Rightarrow> wire" where
  "pageLinks_json l = WObj [(''next'', href (ln_next l)), (''previous'', href (ln_prev l)), (''self'', href (ln_self l))]"

definition page_json :: "wire \<Rightarrow> nat \<Rightarrow> links \<Rightarrow> wire" where
  "page_json items n l = WObj [(''_links'', pageLinks_json l), (''count'', WInt (int n)), (''items'', items)]"

definition nil_slice :: "wire list \<Rightarrow> wire" where
  "nil_slice vs = (if vs = [] then WNull else WArr vs)"

fun body_json :: "ext \<Rightarrow> (int \<Rightarrow> int) \<Rightarrow> payload \<Rightarrow> wire option" where
  "body_json x zone (PDetail d) = Some (WObj [(''detail'', WText d)])"
| "body_json x zone (PStorages ss n l) = Some (page_json (nil_slice (map (Storage_json x) ss)) n l)"
| "body_json x zone (PStorage s) = Some (Storage_json x s)"
| "body_json x zone (PFiles fs n l) = Some (page_json (WArr (map (StorageFile_json x zone) fs)) n l)"
| "body_json x zone (PFile f) = Some (case f of None \<Rightarrow> WNull | Some f \<Rightarrow> StorageFile_json x zone f)"
| "body_json x zone (PStorageUsers sus n) =
     Some (WObj [(''count'', WInt (int n)), (''items'', nil_slice (map (StorageUser_json x zone) sus))])"
| "body_json x zone (PStorageUser su) = Some (StorageUser_json x zone su)"
| "body_json x zone (PDownload d) = Some (FileDownload_json x d)"
| "body_json x zone _ = None"

definition body_text :: "ext \<Rightarrow> (int \<Rightarrow> int) \<Rightarrow> payload \<Rightarrow> string option" where
  "body_text x zone p = map_option wire_text (body_json x zone p)"

section \<open>What a client reads\<close>

text \<open>A member of an object with its raw text, and the members as the types they have.\<close>

definition member :: "string \<Rightarrow> json \<Rightarrow> (string \<times> json) option" where
  "member k v = (case v of JObj ms \<Rightarrow> map_of ms k | _ \<Rightarrow> None)"

definition text_at :: "string \<Rightarrow> json \<Rightarrow> string option" where
  "text_at k v = (case member k v of Some (_, JStr s) \<Rightarrow> Some s | _ \<Rightarrow> None)"

definition bool_at :: "string \<Rightarrow> json \<Rightarrow> bool option" where
  "bool_at k v = (case member k v of Some (_, JBool b) \<Rightarrow> Some b | _ \<Rightarrow> None)"

definition int_at :: "string \<Rightarrow> json \<Rightarrow> int option" where
  "int_at k v = (case member k v of Some (_, JNum s) \<Rightarrow> Some (fst (Atoi s)) | _ \<Rightarrow> None)"

definition raw_at :: "string \<Rightarrow> json \<Rightarrow> string option" where
  "raw_at k v = map_option fst (member k v)"

definition time_at :: "string \<Rightarrow> json \<Rightarrow> int option" where
  "time_at k v = Option.bind (text_at k v) parse_rfc3339"

definition null_at :: "string \<Rightarrow> json \<Rightarrow> string option option" where
  "null_at k v = (case member k v of None \<Rightarrow> None
     | Some (_, w) \<Rightarrow> (case (text_at ''String'' w, bool_at ''Valid'' w) of
         (Some s, Some b) \<Rightarrow> Some (if b then Some s else None) | _ \<Rightarrow> None))"

end
