(* ===== verification/Runs.thy ===== *)
theory Runs
  imports Router
begin

text \<open>
  What a finished run tells, whatever the faults: elimination rules for the primitive actions, and
  for the reads every handler starts with. The properties of the handlers rest on them.
\<close>

section \<open>Primitive actions\<close>

text \<open>Worlds that differ in nothing but the schedule of faults and the randomness drawn.\<close>

definition same_state :: "world \<Rightarrow> world \<Rightarrow> bool" where
  "same_state w w' \<longleftrightarrow> wdb w' = wdb w \<and> wblobs w' = wblobs w \<and> waudit w' = waudit w \<and> wclock w' = wclock w"

lemma same_state_refl [simp]: "same_state w w"
  by (simp add: same_state_def)

lemma same_state_trans: "same_state w w1 \<Longrightarrow> same_state w1 w2 \<Longrightarrow> same_state w w2"
  by (simp add: same_state_def)

lemma reads_same: "reads m \<Longrightarrow> run m w = (r, w') \<Longrightarrow> same_state w w'"
proof -
  assume "reads m" "run m w = (r, w')"
  then obtain fs where "w' = w\<lparr>wfaults := fs\<rparr>" by (metis reads_def snd_conv)
  then show ?thesis by (simp add: same_state_def)
qed

lemma query_ok:
  "run (db_query q) w = (Inr v, w') \<Longrightarrow> q (wclock w) (wdb w) = Inr v \<and> same_state w w'"
  by (auto simp: db_query_def next_fault_def same_state_def split: list.splits option.splits)

lemma exec_ok:
  assumes "run (db_exec q) w = (Inr v, w')"
  shows "(Inr v, wdb w') = q (wclock w) (wdb w) \<and> wblobs w' = wblobs w \<and> wclock w' = wclock w"
  using assms
  by (auto simp: db_exec_def next_fault_def split: list.splits option.splits prod.splits)

lemma try_bind_ok:
  assumes "run (try_bind m f) w = (Inr v, w')"
  obtains a w1 where "run m w = (Inr a, w1)" "run (f a) w1 = (Inr v, w')"
  using assms by (auto simp: run_try_bind split: prod.splits sum.splits)

lemma run_bind_obtain:
  assumes "run (do { a \<leftarrow> m; f a }) w = (r, w')"
  obtains a w1 where "run m w = (a, w1)" "run (f a) w1 = (r, w')"
  using assms by (auto split: prod.splits)

section \<open>Access rows\<close>

lemma access_ok:
  assumes "run (do { r \<leftarrow> db_query (\<lambda>t. access_row may sid u); ret (no_rows_false r) }) w = (r, w')"
  shows "same_state w w' \<and> (or_false r \<longrightarrow> (\<exists>s\<in>set (storage_users (wdb w)).
    su_storage s = sid \<and> su_user s = u \<and> may s))"
proof -
  obtain q where q: "run (db_query (\<lambda>t. access_row may sid u)) w = (q, w')" "r = no_rows_false q"
    using assms by (auto split: prod.splits)
  have same: "same_state w w'" by (rule reads_same[OF reads_query q(1)])
  show ?thesis
  proof (cases "or_false r")
    case True
    then have "q = Inr True"
      using q(2) by (auto simp: or_false_def no_rows_false_def split: sum.splits if_splits)
    with query_ok[of "\<lambda>t. access_row may sid u" w True w'] q(1)
    have "access_row may sid u (wdb w) = Inr True" by simp
    then obtain s where "find_by (\<lambda>s. su_storage s = sid \<and> su_user s = u) (storage_users (wdb w)) = Inr s"
      "may s"
      by (auto simp: access_row_def split: sum.splits)
    with find_by_Inr[OF this(1)] same show ?thesis by blast
  next
    case False
    with same show ?thesis by simp
  qed
qed

lemmas may_read_ok = access_ok[of su_may_read, folded StorageUserMayRead_def]
lemmas may_write_ok = access_ok[of su_may_write, folded StorageUserMayWrite_def]

section \<open>Files\<close>

lemma bare_fields [simp]:
  "sf_id (bare f) = sf_id f" "sf_storage (bare f) = sf_storage f" "sf_owner_id (bare f) = sf_owner_id f"
  "sf_visibility (bare f) = sf_visibility f" "sf_excluded (bare f) = sf_excluded f"
  "sf_status (bare f) = sf_status f" "sf_real_path (bare f) = sf_real_path f"
  "sf_size (bare f) = sf_size f" "sf_name (bare f) = sf_name f"
  by (simp_all add: bare_def)

lemma same_bare:
  assumes "bare f = bare g"
  shows "sf_id f = sf_id g" "sf_storage f = sf_storage g" "sf_owner_id f = sf_owner_id g"
    "sf_visibility f = sf_visibility g" "sf_excluded f = sf_excluded g" "sf_status f = sf_status g"
    "sf_real_path f = sf_real_path g" "sf_size f = sf_size g" "sf_name f = sf_name g"
  using bare_fields[of f] bare_fields[of g] assms by metis+

lemma bare_joined [simp]:
  "bare (f\<lparr>sf_owner := a\<rparr>) = bare f" "bare (f\<lparr>sf_type := b\<rparr>) = bare f"
  "bare (f\<lparr>sf_created_by := c\<rparr>) = bare f" "bare (f\<lparr>sf_updated_by := d\<rparr>) = bare f"
  by (simp_all add: bare_def)

lemma set_joined_bare:
  "run (set_owner f) w = (g, w') \<Longrightarrow> bare g = bare f"
  "run (set_type f) w = (g, w') \<Longrightarrow> bare g = bare f"
  by (auto simp: set_owner_def set_type_def split: option.splits sum.splits prod.splits)

lemma enrich_bare:
  assumes "run (enrichFile f) w = (r, w')"
  obtains g where "r = Inr g" "bare g = bare f" "same_state w w'"
proof -
  have "same_state w w'" by (rule reads_same[OF enrich_all_reads(1) assms])
  with assms that show thesis
    by (auto simp: enrichFile_def Let_def dest!: set_joined_bare split: prod.splits option.splits)
qed

lemma load_ok:
  assumes "run (loadFileRow sid fid x) w = (Inr f, w')"
  obtains r where "r \<in> set (files (wdb w))" "sf_storage r = sid" "sf_id r = fid" "sf_excluded r = x"
    "bare f = bare r" "same_state w w'"
proof -
  obtain r w1 where q: "run (db_query (\<lambda>t d. find_by (\<lambda>f. sf_storage f = sid \<and> sf_id f = fid
      \<and> sf_excluded f = x) (files d))) w = (Inr r, w1)" "run (enrichFile r) w1 = (Inr f, w')"
    using assms unfolding loadFileRow_def by (rule try_bind_ok)
  note r = query_ok[OF q(1)]
  obtain g where "Inr f = (Inr g :: StorageFile result)" "bare g = bare r" "same_state w1 w'"
    using enrich_bare[OF q(2)] .
  with r find_by_Inr[of _ _ r] that[of r] same_state_trans[of w w1 w'] show thesis by auto
qed

text \<open>What makes a file visible to a user with read access, as far as no fault can hide it.\<close>

definition may_see :: "uuid \<Rightarrow> StorageFile \<Rightarrow> bool" where
  "may_see u f \<longleftrightarrow> sf_visibility f = ''PUBLIC'' \<or> (sf_visibility f = ''USER'' \<and> sf_owner_id f = Some u)
     \<or> (sf_visibility f = ''SYSTEM'' \<and> sf_owner_id f \<noteq> None)"

lemma visible_ok:
  assumes "run (fileVisible f False u) w = (True, w')"
  shows "may_see u f \<and> (\<exists>s\<in>set (storage_users (wdb w)). su_storage s = sf_storage f \<and> su_user s = u \<and> su_may_read s)"
proof -
  obtain r w1 where r: "run (StorageUserMayRead (sf_storage f) u) w = (r, w1)" by force
  with assms have "or_false r \<and> may_see u f"
    by (auto simp: fileVisible_def may_see_def split: if_splits option.splits prod.splits)
  with may_read_ok[OF r] show ?thesis by blast
qed

lemma get_ok:
  assumes "run (GetFile sid fid x admin u) w = (Inr f, w')"
  obtains r where "r \<in> set (files (wdb w))" "sf_storage r = sid" "sf_id r = fid" "sf_excluded r = x"
    "bare f = bare r" "same_state w w'"
    "admin \<or> (may_see u r \<and> (\<exists>s\<in>set (storage_users (wdb w)). su_storage s = sid \<and> su_user s = u \<and> su_may_read s))"
proof -
  obtain g w1 where l: "run (loadFileRow sid fid x) w = (Inr g, w1)"
    and v: "run (do { v \<leftarrow> fileVisible g admin u; ret (if v then Inr g else Inl ErrNoRows) }) w1 = (Inr f, w')"
    using assms unfolding GetFile_def by (rule try_bind_ok)
  obtain r where r: "r \<in> set (files (wdb w))" "sf_storage r = sid" "sf_id r = fid" "sf_excluded r = x"
    "bare g = bare r" "same_state w w1" using load_ok[OF l] .
  have same: "same_state w w'" by (rule reads_same[OF file_reads(5) assms])
  obtain b where b: "run (fileVisible g admin u) w1 = (b, w')" "b" "f = g"
    using v by (auto split: prod.splits if_splits)
  have "admin \<or> (may_see u r \<and> (\<exists>s\<in>set (storage_users (wdb w)). su_storage s = sid \<and> su_user s = u \<and> su_may_read s))"
  proof (cases admin)
    case False
    with b visible_ok[of g u w1 w'] have "may_see u g \<and> (\<exists>s\<in>set (storage_users (wdb w1)).
        su_storage s = sf_storage g \<and> su_user s = u \<and> su_may_read s)" by simp
    moreover have "may_see u g = may_see u r" using same_bare[OF r(5)] by (simp add: may_see_def)
    ultimately show ?thesis using r same_bare(2)[OF r(5)] by (simp add: same_state_def)
  qed simp
  with r b(3) same that show thesis by metis
qed

section \<open>Storages, objects and signature keys\<close>

lemma GetStorage_ok:
  assumes "run (GetStorage sid) w = (Inr st, w')"
  shows "\<exists>s\<in>set (storages (wdb w)). st_id s = sid \<and> storage_backend x e s = storage_backend x e st"
proof -
  obtain s n where s: "find_by (\<lambda>s. st_id s = sid) (storages (wdb w)) = Inr s" and st: "st = s\<lparr>st_total_size := n\<rparr>"
    using query_ok[OF assms[unfolded GetStorage_def]] by (auto split: sum.splits)
  from find_by_Inr[OF s] show ?thesis by (intro bexI[of _ s]) (simp_all add: st storage_backend_def)
qed

lemma put_ok:
  assumes "run (Put be p body n ct) w = (Inr v, w')"
  shows "wdb w' = wdb w \<and> wclock w' = wclock w \<and> rd_err body = None \<and> open_stmt be p (wblobs w') = Inr (rd_bytes body)"
proof -
  obtain b where "put_stmt be p body n ct (wblobs w) = (Inr (), b)" "wblobs w' = b" "wdb w' = wdb w" "wclock w' = wclock w"
    using assms by (auto simp: Put_def blob_op_def next_fault_def split: list.splits option.splits prod.splits)
  with backend.put_ok show ?thesis by blast
qed

lemma randomSig_frame: "run randomSig w = (s, w') \<Longrightarrow> wdb w' = wdb w \<and> wclock w' = wclock w \<and> wblobs w' = wblobs w"
  by (auto simp: randomSig_def Let_def)

lemma open_ok:
  "run (Open be p) w = (Inr bytes, w') \<Longrightarrow> open_stmt be p (wblobs w) = Inr bytes \<and> same_state w w'"
  by (auto simp: Open_def blob_op_def next_fault_def same_state_def simp del: open_stmt_blob
      split: list.splits option.splits prod.splits)

lemma in_tx_ok:
  assumes "run (in_tx body) w = (Inr v, w')"
  obtains w1 w2 where "same_state w w1" "run body w1 = (Inr v, w2)" "same_state w2 w'"
proof -
  have fault: "run next_fault u = (g, u') \<Longrightarrow> same_state u u'" for g u u'
    by (auto simp: next_fault_def same_state_def split: list.splits)
  obtain w1 w2 where "run next_fault w = (None, w1)" "run body w1 = (Inr v, w2)" "run next_fault w2 = (None, w')"
    using assms by (auto simp: in_tx_def split: prod.splits option.splits sum.splits)
  with fault that show thesis by blast
qed

end
