(* ===== verification/Examples.thy ===== *)
theory Examples
  imports Runs EnvConfig
begin

text \<open>
  A small concrete system the witnesses of the properties run on: two users of different systems, an
  administrator, one local storage with access rows for both users, a live file and a file in the
  trash, and an environment of external functions that knows a few names.
\<close>

definition alice :: User where
  "alice = \<lparr>u_id = 1, u_username = ''alice'', u_system = ''s1'', u_admin = False, u_active = True,
     u_registered = 0, u_last_activity = 0\<rparr>"

definition bob :: User where
  "bob = \<lparr>u_id = 2, u_username = ''bob'', u_system = ''s2'', u_admin = False, u_active = True,
     u_registered = 0, u_last_activity = 0\<rparr>"

definition boss :: User where
  "boss = \<lparr>u_id = 3, u_username = ''boss'', u_system = ''s1'', u_admin = True, u_active = True,
     u_registered = 0, u_last_activity = 0\<rparr>"

definition ex_storage :: Storage where
  "ex_storage = \<lparr>st_id = 10, st_type = None, st_creds = ''{}'', st_media_cfg = [], st_total_size = 0\<rparr>"

definition live_file :: StorageFile where
  "live_file = blank_file\<lparr>sf_id := 20, sf_storage := 10, sf_owner_id := Some 1, sf_status := ''PUBLISHED'',
     sf_visibility := ''USER'', sf_size := 3, sf_name := Some ''a.txt'', sf_real_path := Some ''x/a.txt''\<rparr>"

definition trash_file :: StorageFile where
  "trash_file = live_file\<lparr>sf_id := 21, sf_excluded := True, sf_real_path := Some ''x/b.txt''\<rparr>"

definition ex_access :: "uuid \<Rightarrow> uuid \<Rightarrow> StorageUser" where
  "ex_access i u = \<lparr>su_id = i, su_created_at = 0, su_updated_at = None, su_may_write = True,
     su_may_read = True, su_storage = 10, su_user = u, su_created_by = None, su_updated_by = None\<rparr>"

definition ex_job :: MediaJob where
  "ex_job = \<lparr>mj_id = 40, mj_storage = 10, mj_file = 20, mj_status = ''pending'', mj_attempts = 0,
     mj_last_error = None, mj_created_at = 5, mj_updated_at = 5\<rparr>"

definition ex_link :: FileDownload where
  "ex_link = \<lparr>dl_id = 50, dl_url = None, dl_force = True, dl_created_at = 0, dl_expires_at = 2000,
     dl_owner = Some 1, dl_file = 20\<rparr>"

definition ex_token :: UserToken where
  "ex_token = \<lparr>tok_uuid = 60, tok_token = ''t'', tok_issued = 0, tok_expires = 2000, tok_created = 0,
     tok_user = 1\<rparr>"

definition ex_db :: db where
  "ex_db = \<lparr>users = [alice, bob, boss], tokens = [ex_token], storages = [ex_storage], mimes = [],
     files = [live_file, trash_file], storage_users = [ex_access 30 1, ex_access 31 2],
     downloads = [ex_link], medias = [], images = [], videos = [], documents = [], thumbs = [],
     sizeds = [], jobs = [ex_job]\<rparr>"

definition ex_world :: world where
  "ex_world = \<lparr>wdb = ex_db, wblobs = Map.empty, waudit = [], wclock = 1000,
     wdraws = (\<lambda>n. 1000 + word_of_nat n), wdrawn = 0, wfaults = []\<rparr>"

definition ex_ids :: "string \<Rightarrow> uuid option" where
  "ex_ids = map_of [(''st'', 10), (''live'', 20), (''trash'', 21), (''link'', 50), (''bob'', 2)]"

definition ex_ext :: ext where
  "ex_ext = \<lparr>x_uuid_parse = ex_ids, x_uuid_string = (\<lambda>_. ''id''), x_s3_config = None,
     x_presign = (\<lambda>_. Inl (Err ''none'')), x_auth_get = (\<lambda>_ _. Inl (Err ''unreachable'')),
     x_url_parse = (\<lambda>_. None),
     x_proxy = (\<lambda>_. None), x_lookup = (\<lambda>_. Inl (Err ''no such host'')),
     x_http = (\<lambda>_ _. Inl (Err ''refused'')), x_env_ratio = [], x_pow_log10 = (\<lambda>_ _. Fin 100)\<rparr>"

definition ex_env :: Env where
  "ex_env = (NewEnv (\<lambda>_. []) None)\<lparr>LocalRoot := ''/r''\<rparr>"

definition ex_request :: "string \<Rightarrow> string \<Rightarrow> request" where
  "ex_request m fileID = \<lparr>rq_method = m, rq_path = ''/p'', rq_query = [], rq_auth = ''Token t'',
     rq_client_ip = ''1.2.3.4'', rq_param = (\<lambda>n. if n = ''storageID'' then ''st''
       else if n = ''fileID'' then fileID else if n = ''downloadID'' then ''link'' else []),
     rq_body = [], rq_file = None\<rparr>"

lemmas ex_rows = alice_def bob_def boss_def ex_storage_def live_file_def trash_file_def ex_access_def
  ex_job_def ex_link_def ex_token_def blank_file_def

lemma ex_db_ok: "db_ok ex_db"
  by (simp add: ex_db_def ex_rows db_ok_def keys_ok_def rows_ok_def row_fits has_defs fits_def
      fits_opt_def char_length_def null_or_def)

lemma ex_calm [simp]: "calm ex_world"
  by (simp add: calm_def ex_world_def)

end
