(* ===== verification/PropsEnv.thy ===== *)
theory PropsEnv
  imports Bootstrap EnvConfig
begin

text \<open>
  What holds of the configuration and of the env file the auth bootstrap writes. The lemmas first
  lift the rewrite of the file to \<open>persistBootstrapEnv\<close> and to the whole run.
\<close>

section \<open>A value an operator has set\<close>







lemma legal_names:
  "is_env_key ''FILEMGR_SYSTEM_TOKEN''" "is_env_key ''FILEMGR_BOOTSTRAP_ADMIN_USERNAME''"
  "is_env_key ''FILEMGR_BOOTSTRAP_ADMIN_PASSWORD''" "is_env_key ''FILEMGR_BOOTSTRAP_ADMIN_IS_ADMIN''"
  by (simp_all add: is_env_key_def is_key_char_def is_key_start_def is_digit_def Let_def)




section \<open>Properties\<close>


definition example_file :: env_file where
  "example_file = \<lparr>ef_content = Some (''A=1'' @ [go_newline] @ ''FILEMGR_SYSTEM_TOKEN=<token>'' @ [go_newline]),
     ef_read_err = None, ef_write_err = None\<rparr>"

definition example_boot :: boot where
  "example_boot = \<lparr>bt_file = example_file, bt_calls = [], bt_log = []\<rparr>"

definition example_getenv :: "string \<Rightarrow> string" where
  "example_getenv k = (if k = ''SYSTEM_CREATION_TOKEN'' then ''c''
     else if k = ''FILEMGR_BOOTSTRAP_SYSTEM_NAME'' then ''s'' else [])"

definition example_body :: string where
  "example_body = [CHR ''{''] @ [CHR 0x22] @ ''token'' @ [CHR 0x22] @ '':'' @ [CHR 0x22] @ ''k1''
     @ [CHR 0x22] @ [CHR ''}'']"

definition example_server :: auth_server where
  "example_server rq = Inr (201, example_body)"






text \<open>
  Quoting a value and reading it back gives the value itself, or, where the writer sees no need
  for quotes, the value without white space at its ends.
\<close>

theorem parseEnvValue_formatEnvValue:
  "parseEnvValue (formatEnvValue s) = (if needsQuote s then s else TrimSpace s)"
  by (rule parse_format)

text \<open>
  C36: when the environment asks for a system (and for no administrator), the auth server creates it
  and hands out a token, and the env file can be read and written and has no token of its own, the
  run succeeds and the file reads back with the token, everything else as it was.
\<close>

theorem Run_stores_token:
  assumes env: "TrimSpace (getenv ''SKIP_AUTH_BOOTSTRAP'') \<noteq> ''1''"
      "TrimSpace (getenv ''SYSTEM_CREATION_TOKEN'') \<noteq> []"
      "TrimSpace (getenv ''FILEMGR_BOOTSTRAP_SYSTEM_NAME'') \<noteq> []"
      "TrimSpace (getenv ''FILEMGR_BOOTSTRAP_ADMIN_USERNAME'') = []"
      "getenv ''FILEMGR_BOOTSTRAP_ADMIN_PASSWORD'' = []"
      "TrimSpace (getenv ''FILEMGR_SKIP_PERSIST_BOOTSTRAP_ENV'') \<noteq> ''1''"
      "TrimSpace host \<noteq> []"
    and created: "\<And>rq. srv rq = Inr (201, body)" "decode_system (take 1048576 body) = Inr tok"
      "tok \<noteq> []" "needsQuote tok \<or> TrimSpace tok = tok"
    and disk: "ef_read_err (bt_file b) = None" "ef_write_err (bt_file b) = None"
      "readLastEnvFileValues (bt_file b) = Inr m"
      "case m ''FILEMGR_SYSTEM_TOKEN'' of None \<Rightarrow> True
        | Some v \<Rightarrow> TrimSpace v = [] \<or> isPlaceholderEnvValue (TrimSpace v)"
    and run: "Run srv getenv host b = (r, b')"
  shows "r = None \<and> readLastEnvFileValues (bt_file b') = Inr (m(''FILEMGR_SYSTEM_TOKEN'' \<mapsto> tok))"
proof -
  let ?up = "[(''FILEMGR_SYSTEM_TOKEN'', tok)]"
  let ?b = "\<lambda>c. b\<lparr>bt_calls := c\<rparr>"
  obtain c where "r = None \<and> b' = persist (boot_env_of getenv) ?up True (?b c)"
    using run env created by (auto simp: Run_def phaseCreateSystem_def call_def Let_def)
  moreover obtain e fs where u: "upsertEnvFile (bt_file b) ?up = (e, fs)" by force
  moreover have "filterUpdatesSkipProtectedInFile (bt_file b) ?up = Inr ?up"
    using disk created(3) by (auto simp: filterUpdatesSkipProtectedInFile_def Let_def split: option.splits)
  ultimately have "r = None \<and> bt_file b' = fs"
    using env created(3)
    by (auto simp: persist_def persistBootstrapEnv_def boot_env_of_def split: option.splits)
  moreover have "storable ?up" using created(4) legal_names by (simp add: storable_def)
  ultimately show ?thesis using upsert_reads[OF disk(1,2) _ disk(3) u] created(3) by simp
qed

lemma example_token: "decode_system (take 1048576 example_body) = Inr ''k1''"
proof -
  have "take 1048576 example_body = example_body" by (simp add: example_body_def)
  moreover have "decode_system example_body = Inr ''k1''" by code_simp
  ultimately show ?thesis by simp
qed

lemma example_placeholder:
  "case readLastEnvFileValues example_file of Inl _ \<Rightarrow> False
   | Inr m \<Rightarrow> (case m ''FILEMGR_SYSTEM_TOKEN'' of None \<Rightarrow> True
       | Some v \<Rightarrow> TrimSpace v = [] \<or> isPlaceholderEnvValue (TrimSpace v))"
  by code_simp

lemma example_environment:
  "TrimSpace (example_getenv ''SKIP_AUTH_BOOTSTRAP'') \<noteq> ''1''"
  "TrimSpace (example_getenv ''SYSTEM_CREATION_TOKEN'') \<noteq> []"
  "TrimSpace (example_getenv ''FILEMGR_BOOTSTRAP_SYSTEM_NAME'') \<noteq> []"
  "TrimSpace (example_getenv ''FILEMGR_BOOTSTRAP_ADMIN_USERNAME'') = []"
  "example_getenv ''FILEMGR_BOOTSTRAP_ADMIN_PASSWORD'' = []"
  "TrimSpace (example_getenv ''FILEMGR_SKIP_PERSIST_BOOTSTRAP_ENV'') \<noteq> ''1''"
  "TrimSpace ''h'' \<noteq> []" "needsQuote ''k1'' \<or> TrimSpace ''k1'' = ''k1''"
  by code_simp+

lemma Run_stores_token_witness:
  "\<exists>m. readLastEnvFileValues example_file = Inr m
    \<and> fst (Run example_server example_getenv ''h'' example_boot) = None
    \<and> readLastEnvFileValues (bt_file (snd (Run example_server example_getenv ''h'' example_boot)))
        = Inr (m(''FILEMGR_SYSTEM_TOKEN'' \<mapsto> ''k1''))"
proof -
  obtain m where m: "readLastEnvFileValues example_file = Inr m"
    by (simp add: readLastEnvFileValues_def example_file_def)
  have disk: "ef_read_err (bt_file example_boot) = None" "ef_write_err (bt_file example_boot) = None"
    "readLastEnvFileValues (bt_file example_boot) = Inr m"
    by (simp_all add: m example_boot_def) (simp_all add: example_file_def)
  have "case m ''FILEMGR_SYSTEM_TOKEN'' of None \<Rightarrow> True
      | Some v \<Rightarrow> TrimSpace v = [] \<or> isPlaceholderEnvValue (TrimSpace v)"
    using example_placeholder by (simp only: m sum.case)
  from Run_stores_token[OF example_environment(1-7) example_server_def example_token _
      example_environment(8) disk this surjective_pairing] m
  show ?thesis by simp
qed

section \<open>The connection string\<close>

text \<open>
  The user and the password \<open>net/url\<close> finds in a connection string: the authority ends at a slash, a
  question mark or a hash, the user part at the last at sign, the user at the first colon.
\<close>

definition dsn_credentials :: "string \<Rightarrow> (string \<times> string) option" where
  "dsn_credentials dsn =
     (let auth = takeWhile (\<lambda>c. c \<noteq> CHR ''/'' \<and> c \<noteq> CHR ''?'' \<and> c \<noteq> CHR ''#'')
            (drop (length ''postgres://'') dsn);
          userinfo = rev (tl (dropWhile (\<lambda>c. c \<noteq> CHR ''@'') (rev auth)))
      in case SplitN2 (CHR '':'') userinfo of
           [u, p] \<Rightarrow> (case (userinfo_unescape u, userinfo_unescape p) of
               (Some u', Some p') \<Rightarrow> Some (u', p') | _ \<Rightarrow> None)
         | _ \<Rightarrow> None)"

definition url_marks :: "char set" where
  "url_marks = {CHR ''/'', CHR ''?'', CHR ''#'', CHR ''@'', CHR '':''}"

lemma hex_unreserved: "n < 16 \<Longrightarrow> unreserved (hex_char n)"
  by (auto simp: unreserved_def hex_char_def Let_def)

lemma unreserved_no_mark: "unreserved c \<Longrightarrow> c \<notin> url_marks"
  by (auto simp: unreserved_def url_marks_def)

lemma escape_no_mark: "set (QueryEscape s) \<inter> url_marks = {}"
proof -
  have "set (escape_byte c) \<inter> url_marks = {}" for c
  proof (cases "unreserved c")
    case False
    have "(of_char c :: nat) div 16 < 16" "(of_char c :: nat) mod 16 < 16"
      using char_small[of c] by (auto simp: less_mult_imp_div_less)
    then have "hex_char (of_char c div 16) \<notin> url_marks" "hex_char (of_char c mod 16) \<notin> url_marks"
      by (simp_all add: hex_unreserved unreserved_no_mark)
    with False show ?thesis by (simp add: escape_byte_def) (simp add: url_marks_def)
  qed (simp add: escape_byte_def unreserved_no_mark)
  then show ?thesis by (auto simp: QueryEscape_def)
qed

definition space_as_plus :: "char \<Rightarrow> char" where
  "space_as_plus c = (if c = CHR '' '' then CHR ''+'' else c)"

lemma userinfo_escape_plus: "userinfo_unescape (QueryEscape s) = Some (map space_as_plus s)"
proof (induction s)
  case (Cons c s)
  then show ?case
    using unescape_escape_byte[of c "concat (map escape_byte s)"]
    by (auto simp: QueryEscape_def space_as_plus_def escape_byte_def unreserved_def)
qed (simp add: QueryEscape_def)

text \<open>
  The user and the password \<open>net/url\<close> reads back from the connection string are the configured
  ones, with every space turned into a plus sign: whatever other characters they hold, they neither
  change the host nor each other, but credentials with a space are wrong.
\<close>

lemma database_dsn_credentials:
  assumes "set (DBHost e @ DBPort e) \<inter> (url_marks - {CHR '':''}) = {}"
  shows "dsn_credentials (database_dsn e)
    = Some (map space_as_plus (DBUser e), map space_as_plus (DBPassword e))"
proof -
  let ?u = "QueryEscape (DBUser e)" and ?p = "QueryEscape (DBPassword e)"
  let ?h = "DBHost e @ '':'' @ DBPort e"
  let ?auth = "?u @ CHR '':'' # ?p @ CHR ''@'' # ?h"
  have marks: "set ?u \<inter> url_marks = {}" "set ?p \<inter> url_marks = {}" by (rule escape_no_mark)+
  have no: "CHR ''/'' \<notin> set ?auth" "CHR ''?'' \<notin> set ?auth" "CHR ''#'' \<notin> set ?auth"
    "CHR ''@'' \<notin> set ?h" "CHR '':'' \<notin> set ?u"
    using marks assms by (auto simp: url_marks_def)
  have "drop (length ''postgres://'') (database_dsn e) = ?auth @ CHR ''/'' # DBName e @ ''?sslmode='' @ ssl_mode e"
    by (simp add: database_dsn_def)
  then have auth: "takeWhile (\<lambda>c. c \<noteq> CHR ''/'' \<and> c \<noteq> CHR ''?'' \<and> c \<noteq> CHR ''#'')
      (drop (length ''postgres://'') (database_dsn e)) = ?auth"
    using no(1-3) by (simp only:) (subst takeWhile_append2, auto)
  have "dropWhile (\<lambda>c. c \<noteq> CHR ''@'') (rev ?h @ CHR ''@'' # rev (?u @ CHR '':'' # ?p))
      = CHR ''@'' # rev (?u @ CHR '':'' # ?p)"
    using no(4) by (subst dropWhile_append2) auto
  then have "rev (tl (dropWhile (\<lambda>c. c \<noteq> CHR ''@'') (rev ?auth))) = ?u @ CHR '':'' # ?p" by simp
  then show ?thesis
    using SplitN2_at[OF no(5), of ?p] userinfo_escape_plus[of "DBUser e"]
      userinfo_escape_plus[of "DBPassword e"]
    by (simp only: dsn_credentials_def Let_def auth) simp
qed

lemma database_dsn_credentials_witness:
  "dsn_credentials (database_dsn ((NewEnv (\<lambda>_. []) None)\<lparr>DBHost := ''db'', DBPort := ''5432'',
      DBUser := ''u@x'', DBPassword := ''a b:/?''\<rparr>)) = Some (''u@x'', ''a+b:/?'')"
  by (subst database_dsn_credentials) (simp_all add: url_marks_def space_as_plus_def)

section \<open>Bounds of the configuration\<close>





end
