(* ===== verification/PropsFiles.thy ===== *)
theory PropsFiles
  imports Examples
begin

text \<open>
  Who may read and change files: the properties of the file handlers and of the data functions under
  them. Those about access hold for every schedule of faults.
\<close>

section \<open>Reading\<close>

lemma system_of_user: "i \<in> u_id ` set (users d) \<Longrightarrow> \<exists>s. system_of d i = Inr s"
  by (auto simp: system_of_def dest: find_by_Inl split: sum.splits)

lemma enrich_calm:
  assumes "calm w"
  obtains g where "run (enrichFile f) w = (Inr g, w)" "bare g = bare f"
proof -
  obtain r w' where e: "run (enrichFile f) w = (r, w')" by force
  have "run (set_owner f) w = (fst (run (set_owner f) w), w)" for f
    using assms by (auto simp: set_owner_def GetUserPublic_def run_try_bind split: option.splits sum.splits)
  moreover have "run (set_type f) w = (fst (run (set_type f) w), w)" for f
    using assms by (auto simp: set_type_def split: option.splits)
  ultimately have "w' = w"
    using e by (auto simp: enrichFile_def Let_def split: prod.splits) (metis prod.inject)
  with enrich_bare[OF e] e that show thesis by metis
qed

lemma may_read_calm:
  "calm w \<Longrightarrow> run (StorageUserMayRead sid u) w = (no_rows_false (access_row su_may_read sid u (wdb w)), w)"
  by (simp add: StorageUserMayRead_def)

text \<open>\<open>fileVisible\<close> without faults, for a user and an owner who exist.\<close>

lemma visible_calm:
  assumes "calm w" and "u \<in> u_id ` set (users (wdb w))"
    and "sf_owner_id f = Some o'" and "o' \<in> u_id ` set (users (wdb w))"
  shows "run (fileVisible f False u) w
    = (or_false (no_rows_false (access_row su_may_read (sf_storage f) u (wdb w))) \<and> sql_visible (wdb w) u f, w)"
proof -
  obtain a b where "system_of (wdb w) u = Inr a" "system_of (wdb w) o' = Inr b"
    using system_of_user assms by metis
  with assms show ?thesis
    by (simp add: fileVisible_def may_read_calm sql_visible_def sql_system_def or_empty_def) auto
qed

lemma get_calm:
  assumes "calm w" and "db_ok (wdb w)" and "f \<in> set (files (wdb w))"
  obtains g where "bare g = bare f" "run (GetFile (sf_storage f) (sf_id f) (sf_excluded f) adm u) w
    = (case run (fileVisible g adm u) w of (v, w') \<Rightarrow> (if v then Inr g else Inl ErrNoRows, w'))"
proof -
  obtain g where g: "run (enrichFile f) w = (Inr g, w)" "bare g = bare f"
    using enrich_calm[OF assms(1)] .
  have "distinct (map sf_id (files (wdb w)))" using assms(2) by (simp add: db_ok_def keys_ok_def)
  from find_by_unique[OF this assms(3), of "\<lambda>r. sf_storage r = sf_storage f \<and> sf_id r = sf_id f
      \<and> sf_excluded r = sf_excluded f"]
  have "find_by (\<lambda>r. sf_storage r = sf_storage f \<and> sf_id r = sf_id f
      \<and> sf_excluded r = sf_excluded f) (files (wdb w)) = Inr f" by simp
  with g assms(1) that show thesis
    by (simp add: GetFile_def loadFileRow_def run_try_bind split: prod.splits)
qed

lemma get_admin:
  assumes "calm w" and "db_ok (wdb w)" and "f \<in> set (files (wdb w))" and "sf_excluded f = x"
  shows "is_ok (fst (run (GetFile (sf_storage f) (sf_id f) x True u) w))"
proof -
  obtain g where "run (GetFile (sf_storage f) (sf_id f) (sf_excluded f) True u) w
    = (case run (fileVisible g True u) w of (v, w') \<Rightarrow> (if v then Inr g else Inl ErrNoRows, w'))"
    using get_calm[OF assms(1-3), of True u] by blast
  with assms(4) show ?thesis by (simp add: fileVisible_def)
qed

lemma ex_get_live: "is_ok (fst (run (GetFile 10 20 False False 1) ex_world))"
proof -
  have h: "db_ok (wdb ex_world)" "live_file \<in> set (files (wdb ex_world))"
    by (simp_all add: ex_world_def ex_db_ok) (simp add: ex_db_def)
  have f: "sf_storage live_file = 10" "sf_id live_file = 20" "sf_excluded live_file = False"
    "sf_owner_id live_file = Some 1" by (simp_all add: ex_rows)
  obtain g where g: "bare g = bare live_file" "run (GetFile 10 20 False False 1) ex_world
    = (case run (fileVisible g False 1) ex_world of (v, w') \<Rightarrow> (if v then Inr g else Inl ErrNoRows, w'))"
    using get_calm[OF ex_calm h, of False 1] unfolding f .
  have "run (fileVisible g False 1) ex_world = (True, ex_world)"
    using visible_calm[OF ex_calm, of 1 g 1] same_bare[OF g(1)]
    by (simp add: f) (simp add: ex_world_def ex_db_def ex_rows access_row_def find_by_Cons
        no_rows_false_def or_false_def sql_visible_def)
  with g show ?thesis by simp
qed

text \<open>
  C2: whatever faults happen, a file that \<open>GetFile\<close> hands to a user who is no administrator is a row
  of the storage asked for, the user has an access row with read permission on that storage, and the
  file is public, or the user's own, or a system file of some owner.
\<close>

theorem GetFile_access:
  assumes "run (GetFile sid fid x False u) w = (Inr f, w')"
  shows "\<exists>r\<in>set (files (wdb w)). bare f = bare r \<and> sf_storage r = sid \<and> sf_id r = fid \<and> sf_excluded r = x
    \<and> may_see u r
    \<and> (\<exists>s\<in>set (storage_users (wdb w)). su_storage s = sid \<and> su_user s = u \<and> su_may_read s)"
  using get_ok[OF assms] by metis

lemma GetFile_access_witness:
  "\<exists>f w'. run (GetFile 10 20 False False 1) ex_world = (Inr f, w')
    \<and> (\<exists>r\<in>set (files ex_db). bare f = bare r \<and> may_see 1 r)"
proof -
  obtain f w' where r: "run (GetFile 10 20 False False 1) ex_world = (Inr f, w')"
    using ex_get_live by (metis is_ok_iff prod.collapse)
  from GetFile_access[OF r] r show ?thesis by (auto simp: ex_world_def)
qed

text \<open>
  C26: for a file with an owner, listing and reading agree: without faults a user finds the file in the
  listing (the live files or the trash) exactly if \<open>GetFile\<close> returns it.
\<close>

theorem listed_iff_readable:
  assumes "calm w" and "db_ok (wdb w)" and "u \<in> u_id ` set (users (wdb w))"
    and "f \<in> set (files (wdb w))" and "sf_owner_id f = Some o'"
  shows "f \<in> set (file_rows (wdb w) (sf_storage f) (sf_excluded f) False
           (or_false (fst (run (StorageUserMayRead (sf_storage f) u) w))) u)
    \<longleftrightarrow> is_ok (fst (run (GetFile (sf_storage f) (sf_id f) (sf_excluded f) False u) w))"
proof -
  obtain g where g: "bare g = bare f" "run (GetFile (sf_storage f) (sf_id f) (sf_excluded f) False u) w
    = (case run (fileVisible g False u) w of (v, w') \<Rightarrow> (if v then Inr g else Inl ErrNoRows, w'))"
    using get_calm[OF assms(1,2,4)] .
  have "file_fits (wdb w) f" using assms(2,4) by (simp add: db_ok_def rows_ok_def list_all_iff)
  then have "o' \<in> u_id ` set (users (wdb w))"
    using assms(5) by (simp add: file_fits_def null_or_def has_user_def)
  from visible_calm[OF assms(1,3) _ this, of g] assms(5) same_bare[OF g(1)]
  have "run (fileVisible g False u) w
    = (or_false (no_rows_false (access_row su_may_read (sf_storage f) u (wdb w))) \<and> sql_visible (wdb w) u f, w)"
    by (simp add: sql_visible_def)
  with g(2) assms(1,4) show ?thesis
    by (simp add: file_rows_def may_read_calm)
qed

lemma listed_iff_readable_witness:
  "live_file \<in> set (file_rows ex_db 10 False False (or_false (fst (run (StorageUserMayRead 10 1) ex_world))) 1)
   \<and> is_ok (fst (run (GetFile 10 20 False False 1) ex_world))"
proof -
  have h: "db_ok (wdb ex_world)" "1 \<in> u_id ` set (users (wdb ex_world))"
    "live_file \<in> set (files (wdb ex_world))" "sf_owner_id live_file = Some 1"
    by (simp_all add: ex_world_def ex_db_ok) (simp_all add: ex_db_def ex_rows)
  have f: "sf_storage live_file = 10" "sf_id live_file = 20" "sf_excluded live_file = False"
    by (simp_all add: ex_rows)
  have "live_file \<in> set (file_rows ex_db 10 False False (or_false (fst (run (StorageUserMayRead 10 1) ex_world))) 1)"
    by (simp add: may_read_calm) (simp add: ex_world_def ex_db_def ex_rows file_rows_def access_row_def
        find_by_Cons no_rows_false_def or_false_def sql_visible_def)
  with listed_iff_readable[OF ex_calm h] f show ?thesis by (simp add: ex_world_def)
qed

text \<open>
  The two rules differ for a system file that has no owner: without faults every user with read
  access and a system of his own finds it in the listing, and \<open>GetFile\<close> says it is not there.
\<close>

theorem ownerless_listed_not_readable:
  assumes "calm w" and "db_ok (wdb w)" and "u \<in> u_id ` set (users (wdb w))"
    and "f \<in> set (files (wdb w))" and "sf_owner_id f = None" and "sf_visibility f = ''SYSTEM''"
    and "or_false (fst (run (StorageUserMayRead (sf_storage f) u) w))"
  shows "f \<in> set (file_rows (wdb w) (sf_storage f) (sf_excluded f) False True u)
    \<and> fst (run (GetFile (sf_storage f) (sf_id f) (sf_excluded f) False u) w) = Inl ErrNoRows"
proof -
  obtain g where g: "bare g = bare f" "run (GetFile (sf_storage f) (sf_id f) (sf_excluded f) False u) w
    = (case run (fileVisible g False u) w of (v, w') \<Rightarrow> (if v then Inr g else Inl ErrNoRows, w'))"
    using get_calm[OF assms(1,2,4)] .
  obtain a where "system_of (wdb w) u = Inr a" using system_of_user[OF assms(3)] ..
  moreover have "run (fileVisible g False u) w = (False, w)"
    using assms(1,5,6) same_bare[OF g(1)] by (simp add: fileVisible_def may_read_calm)
  ultimately show ?thesis
    using g(2) assms(4,5,6) by (simp add: file_rows_def sql_visible_def sql_system_def)
qed

definition ownerless_world :: world where
  "ownerless_world = ex_world\<lparr>wdb := ex_db\<lparr>files :=
     [live_file\<lparr>sf_owner_id := None, sf_visibility := ''SYSTEM''\<rparr>, trash_file]\<rparr>\<rparr>"

lemma ownerless_listed_not_readable_witness:
  "fst (run (GetFile 10 20 False False 1) ownerless_world) = Inl ErrNoRows"
proof -
  let ?f = "live_file\<lparr>sf_owner_id := None, sf_visibility := ''SYSTEM''\<rparr>"
  have ok: "db_ok (wdb ownerless_world)"
    by (simp add: ownerless_world_def ex_db_def ex_rows db_ok_def keys_ok_def rows_ok_def row_fits
        has_defs fits_def fits_opt_def char_length_def null_or_def)
  have calm: "calm ownerless_world" by (simp add: ownerless_world_def)
  have h: "1 \<in> u_id ` set (users (wdb ownerless_world))" "?f \<in> set (files (wdb ownerless_world))"
    "sf_owner_id ?f = None" "sf_visibility ?f = ''SYSTEM''"
    by (simp_all add: ownerless_world_def ex_db_def ex_rows)
  have "or_false (fst (run (StorageUserMayRead (sf_storage ?f) 1) ownerless_world))"
    by (simp add: may_read_calm calm) (simp add: ownerless_world_def ex_db_def ex_rows access_row_def
        find_by_Cons no_rows_false_def or_false_def)
  from ownerless_listed_not_readable[OF calm ok h this] show ?thesis by (simp add: ex_rows)
qed

section \<open>Files hidden from their owners\<close>

lemma hidden_get:
  assumes "calm w" and "db_ok (wdb w)" and "u \<in> u_id ` set (users (wdb w))" and "f \<in> set (files (wdb w))"
    and "sf_owner_id f = Some o'" and "\<not> sql_visible (wdb w) u f"
  shows "run (GetFile (sf_storage f) (sf_id f) (sf_excluded f) False u) w = (Inl ErrNoRows, w)"
proof -
  obtain g where g: "bare g = bare f" "run (GetFile (sf_storage f) (sf_id f) (sf_excluded f) False u) w
    = (case run (fileVisible g False u) w of (v, w') \<Rightarrow> (if v then Inr g else Inl ErrNoRows, w'))"
    using get_calm[OF assms(1,2,4)] .
  have "file_fits (wdb w) f" using assms(2,4) by (simp add: db_ok_def rows_ok_def list_all_iff)
  then have o': "o' \<in> u_id ` set (users (wdb w))"
    using assms(5) by (simp add: file_fits_def null_or_def has_user_def)
  have "sql_visible (wdb w) u g = sql_visible (wdb w) u f" "sf_owner_id g = Some o'"
    using same_bare[OF g(1)] assms(5) by (simp_all add: sql_visible_def)
  with g(2) visible_calm[OF assms(1,3) _ o', of g] assms(6) show ?thesis by simp
qed

text \<open>
  C23: a system file is hidden from everybody of its owner's system, the owner included. Uploads are
  system files, so a user who is no administrator cannot open, change, delete or link the file he has
  just uploaded: each of these requests answers 404 and changes nothing.
\<close>

theorem system_files_hidden_from_owner:
  assumes "calm w" and "db_ok (wdb w)" and "us \<in> set (users (wdb w))" and "\<not> u_admin us"
    and "f \<in> set (files (wdb w))" and "sf_visibility f = ''SYSTEM''" and "\<not> sf_excluded f"
    and "ow \<in> set (users (wdb w))" and "sf_owner_id f = Some (u_id ow)" and "u_system ow = u_system us"
    and "x_uuid_parse x (rq_param rq ''storageID'') = Some (sf_storage f)"
    and "x_uuid_parse x (rq_param rq ''fileID'') = Some (sf_id f)"
    and "rt \<in> {GetFileR, PatchFileR, DeleteFileR, CreateDownloadR}"
  shows "run (handler x e rt rq us) w = (\<lparr>rs_status = 404, rs_body = PDetail ''not found''\<rparr>, w)"
proof -
  have "system_of (wdb w) (u_id v) = Inr (u_system v)" if "v \<in> set (users (wdb w))" for v
  proof -
    have "distinct (map u_id (users (wdb w)))" using assms(2) by (simp add: db_ok_def keys_ok_def)
    from find_by_unique[OF this that, of "\<lambda>r. u_id r = u_id v"] show ?thesis by (simp add: system_of_def)
  qed
  then have "\<not> sql_visible (wdb w) (u_id us) f"
    using assms(3,6,8,9,10) by (simp add: sql_visible_def sql_system_def)
  from hidden_get[OF assms(1,2) _ assms(5,9) this] assms(3,7)
  have "run (GetFile (sf_storage f) (sf_id f) False False (u_id us)) w = (Inl ErrNoRows, w)" by simp
  then show ?thesis
    using assms(4,11-13)
    by (auto simp: getFile_def get_one_def patchFile_def deleteFile_def createDownload_def with_sf_def with_id_def
        on_error_def not_found_or_500_def)
qed

definition own_file :: StorageFile where
  "own_file = live_file\<lparr>sf_visibility := ''SYSTEM''\<rparr>"

definition own_world :: world where
  "own_world = ex_world\<lparr>wdb := ex_db\<lparr>files := [own_file, trash_file]\<rparr>\<rparr>"

lemma system_files_hidden_from_owner_witness:
  "rs_status (fst (run (handler ex_ext ex_env DeleteFileR (ex_request ''DELETE'' ''live'') alice) own_world)) = 404"
proof -
  have ok: "db_ok (wdb own_world)"
    by (simp add: own_world_def own_file_def ex_db_def ex_rows db_ok_def keys_ok_def rows_ok_def row_fits
        has_defs fits_def fits_opt_def char_length_def null_or_def)
  have calm: "calm own_world" by (simp add: own_world_def)
  have h: "alice \<in> set (users (wdb own_world))" "\<not> u_admin alice" "own_file \<in> set (files (wdb own_world))"
    "sf_visibility own_file = ''SYSTEM''" "\<not> sf_excluded own_file" "sf_owner_id own_file = Some (u_id alice)"
    "x_uuid_parse ex_ext (rq_param (ex_request ''DELETE'' ''live'') ''storageID'') = Some (sf_storage own_file)"
    "x_uuid_parse ex_ext (rq_param (ex_request ''DELETE'' ''live'') ''fileID'') = Some (sf_id own_file)"
    by (simp_all add: own_world_def own_file_def ex_db_def ex_rows ex_ext_def ex_ids_def ex_request_def)
  from system_files_hidden_from_owner[OF calm ok h(1-5) h(1) h(6) refl h(7,8), of DeleteFileR ex_env]
  show ?thesis by simp
qed

section \<open>Changing\<close>

text \<open>What a handler that only answers leaves alone.\<close>

definition no_change :: "world \<Rightarrow> response m \<Rightarrow> bool" where
  "no_change w h \<longleftrightarrow> same_state w (snd (run h w))"

lemma with_sf_change:
  assumes "\<And>sid fid. x_uuid_parse x (rq_param rq ''fileID'') = Some fid \<Longrightarrow> no_change w (h sid fid)"
  shows "no_change w (with_sf x rq h)"
  using assms by (auto simp: with_sf_def with_id_def no_change_def split: option.split)

lemma answer_change [simp]:
  "no_change w (reply s p)" "no_change w (not_found_or_500 e)" "no_change w forbidden"
  by (simp_all add: no_change_def not_found_or_500_def server_error_def forbidden_def)

text \<open>A handler that first gets the file and refuses who may not modify it.\<close>

lemma guarded_change:
  assumes "\<not> u_admin us" and "\<forall>f\<in>set (files (wdb w)). sf_id f = fid \<longrightarrow> sf_owner_id f \<noteq> Some (u_id us)"
  shows "no_change w (do { r \<leftarrow> GetFile sid fid x (u_admin us) (u_id us);
    on_error r not_found_or_500 (\<lambda>f. if \<not> may_modify us f then forbidden else h f) })"
proof -
  obtain r w1 where g: "run (GetFile sid fid x (u_admin us) (u_id us)) w = (r, w1)" by force
  have same: "same_state w w1" by (rule reads_same[OF file_reads(5) g])
  show ?thesis
  proof (cases r)
    case (Inl e)
    then show ?thesis
      using g same answer_change(2)[of w1 e] same_state_trans
      by (auto simp: no_change_def on_error_def)
  next
    case (Inr f)
    obtain q where q: "q \<in> set (files (wdb w))" "sf_id q = fid" "bare f = bare q"
      using get_ok[OF g[unfolded Inr]] by metis
    then have "\<not> may_modify us f"
      using assms same_bare(3)[OF q(3)] by (auto simp: may_modify_def)
    then show ?thesis
      using g Inr same by (simp add: no_change_def on_error_def forbidden_def)
  qed
qed

text \<open>
  C3: a user who neither is an administrator nor owns the file the request names changes nothing with
  a patch, a deletion or a permanent deletion, whatever the request and the faults: database, objects
  and audit log stay as they are.
\<close>

theorem strangers_change_nothing:
  assumes "rt \<in> {PatchFileR, DeleteFileR, PermaDeleteR}" and "\<not> u_admin us"
    and "\<forall>f\<in>set (files (wdb w)). x_uuid_parse x (rq_param rq ''fileID'') = Some (sf_id f)
      \<longrightarrow> sf_owner_id f \<noteq> Some (u_id us)"
    and "run (handler x e rt rq us) w = (resp, w')"
  shows "wdb w' = wdb w \<and> wblobs w' = wblobs w \<and> waudit w' = waudit w"
proof -
  have stranger: "\<forall>f\<in>set (files (wdb w)). sf_id f = fid \<longrightarrow> sf_owner_id f \<noteq> Some (u_id us)"
    if "x_uuid_parse x (rq_param rq ''fileID'') = Some fid" for fid
    using assms(3) that by auto
  have "no_change w (patchFile x e rq us)" "no_change w (deleteFile x e rq us)"
    "no_change w (permaDelete x e rq us)"
    unfolding patchFile_def deleteFile_def permaDelete_def
    by (rule with_sf_change, rule guarded_change[OF assms(2) stranger], assumption)+
  with assms(1) have "no_change w (handler x e rt rq us)" by auto
  with assms(4) show ?thesis by (simp add: no_change_def same_state_def)
qed

lemma strangers_change_nothing_witness:
  "wdb (snd (run (handler ex_ext ex_env DeleteFileR
      (ex_request ''DELETE'' ''live'') bob) ex_world)) = ex_db"
proof -
  have "\<forall>f\<in>set (files (wdb ex_world)). x_uuid_parse ex_ext (rq_param (ex_request ''DELETE'' ''live'') ''fileID'')
      = Some (sf_id f) \<longrightarrow> sf_owner_id f \<noteq> Some (u_id bob)"
    by (simp add: ex_world_def ex_db_def ex_rows)
  from strangers_change_nothing[OF _ _ this surjective_pairing, of DeleteFileR] show ?thesis
    by (simp add: ex_world_def bob_def)
qed

end
