(* ===== verification/PropsLifecycle.thy ===== *)
theory PropsLifecycle
  imports PropsFiles
begin

text \<open>
  What successful requests do to the database and the objects: a file goes to the trash and from the
  trash for good, a storage goes with all that belongs to it, an access row takes effect, a link is
  served. These run without faults; \<open>calm\<close> says so.
\<close>

section \<open>The trash\<close>

lemma one_row:
  assumes "db_ok d" and "f \<in> set (files d)" and "r \<in> set (files d)"
  shows "sf_id r = sf_id f \<longleftrightarrow> r = f"
proof -
  have "distinct (map sf_id (files d))" using assms(1) by (simp add: db_ok_def keys_ok_def)
  with assms show ?thesis by (metis distinct_map inj_onD)
qed

lemma upd_where_cong: "(\<And>r. r \<in> set rs \<Longrightarrow> P r = Q r) \<Longrightarrow> upd_where P f rs = upd_where Q f rs"
  by (simp add: upd_where_def)

lemma run_audit_calm:
  "wdb (snd (run (audit x e rq u a kvs) w)) = wdb w"
  "wblobs (snd (run (audit x e rq u a kvs) w)) = wblobs w"
  by (simp_all add: audit_def)

definition excluded_now :: "int \<Rightarrow> uuid \<Rightarrow> StorageFile \<Rightarrow> StorageFile" where
  "excluded_now t u r = r\<lparr>sf_excluded := True, sf_updated_at := Some t, sf_updated_by_id := Some u\<rparr>"

lemma SetFileExcluded_calm:
  assumes "calm w" and ok: "db_ok (wdb w)" and f: "f \<in> set (files (wdb w))" "\<not> sf_excluded f"
    and "u \<in> u_id ` set (users (wdb w))"
  shows "run (SetFileExcluded (sf_storage f) (sf_id f) True u) w
    = (Inr (), w\<lparr>wdb := (wdb w)\<lparr>files := upd_where (\<lambda>r. r = f) (excluded_now (wclock w) u) (files (wdb w))\<rparr>\<rparr>)"
proof -
  let ?P = "\<lambda>r. sf_storage r = sf_storage f \<and> sf_id r = sf_id f \<and> \<not> sf_excluded r"
  have P: "?P r \<longleftrightarrow> r = f" if "r \<in> set (files (wdb w))" for r
    using one_row[OF ok f(1) that] f(2) by auto
  have "list_all (file_fits (wdb w)) (files (wdb w))" using ok by (simp add: db_ok_def rows_ok_def)
  with assms(5) have "list_all (\<lambda>r. ?P r \<longrightarrow> file_fits (wdb w) (excluded_now (wclock w) u r)) (files (wdb w))"
    by (auto simp: list_all_iff file_fits_def excluded_now_def null_or_def has_user_def)
  moreover have "touched ?P (files (wdb w)) \<noteq> 0" using f by (auto simp: touched_0)
  ultimately show ?thesis
    using assms(1) upd_where_cong[of "files (wdb w)" ?P "\<lambda>r. r = f" "excluded_now (wclock w) u"] P
    by (simp add: SetFileExcluded_def run_try_bind upd_files_def excluded_now_def[abs_def])
qed

lemma visible_world: "calm w \<Longrightarrow> snd (run (fileVisible f adm u) w) = w"
  by (simp add: fileVisible_def may_read_calm split: option.split)

text \<open>A file one can get, and what the handlers learn from getting it.\<close>

lemma got_file:
  assumes "calm w" and "db_ok (wdb w)" and "f \<in> set (files (wdb w))" and "sf_excluded f = x"
    and "is_ok (fst (run (GetFile (sf_storage f) (sf_id f) x adm u) w))"
  obtains g where "run (GetFile (sf_storage f) (sf_id f) x adm u) w = (Inr g, w)" "bare g = bare f"
proof -
  obtain g where g: "bare g = bare f" "run (GetFile (sf_storage f) (sf_id f) x adm u) w
    = (case run (fileVisible g adm u) w of (v, w') \<Rightarrow> (if v then Inr g else Inl ErrNoRows, w'))"
    using get_calm[OF assms(1,2,3), of adm u] unfolding assms(4) by blast
  obtain v where v: "run (fileVisible g adm u) w = (v, w)"
    using visible_world[OF assms(1), of g adm u] by (cases "run (fileVisible g adm u) w") simp
  with g(2) assms(5) have v by (cases v) simp_all
  with g v that show thesis by simp
qed

lemma may_modify_bare: "bare g = bare f \<Longrightarrow> may_modify us g = may_modify us f"
  using same_bare(3)[of g f] by (simp add: may_modify_def)

text \<open>
  C14: deleting a live file one may see and modify answers 204 and moves the file to the trash: its row
  is marked excluded (with time and user) and nothing else of the database and the objects changes.
\<close>

theorem deleteFile_moves_to_trash:
  assumes "calm w" and "db_ok (wdb w)" and "f \<in> set (files (wdb w))" and "\<not> sf_excluded f"
    and "x_uuid_parse x (rq_param rq ''storageID'') = Some (sf_storage f)"
    and "x_uuid_parse x (rq_param rq ''fileID'') = Some (sf_id f)"
    and "is_ok (fst (run (GetFile (sf_storage f) (sf_id f) False (u_admin us) (u_id us)) w))"
    and "may_modify us f" and "u_id us \<in> u_id ` set (users (wdb w))"
    and "run (deleteFile x e rq us) w = (resp, w')"
  shows "rs_status resp = 204 \<and> wblobs w' = wblobs w
    \<and> wdb w' = (wdb w)\<lparr>files := upd_where (\<lambda>r. r = f) (excluded_now (wclock w) (u_id us)) (files (wdb w))\<rparr>"
proof -
  obtain g where g: "run (GetFile (sf_storage f) (sf_id f) False (u_admin us) (u_id us)) w = (Inr g, w)"
    "bare g = bare f"
    using got_file[OF assms(1,2,3) _ assms(7)] assms(4) by metis
  with SetFileExcluded_calm[OF assms(1,2,3,4,9)] assms(5,6,8,10) may_modify_bare[OF g(2)] show ?thesis
    by (auto simp: deleteFile_def with_sf_def with_id_def on_error_def run_audit_calm case_prod_beta)
qed

lemma deleteFile_moves_to_trash_witness:
  "rs_status (fst (run (deleteFile ex_ext ex_env (ex_request ''DELETE'' ''live'') alice)
     ex_world)) = 204"
proof -
  have h: "db_ok (wdb ex_world)" "live_file \<in> set (files (wdb ex_world))" "\<not> sf_excluded live_file"
    "may_modify alice live_file" "u_id alice \<in> u_id ` set (users (wdb ex_world))"
    by (simp_all add: ex_world_def ex_db_ok) (simp_all add: ex_db_def ex_rows may_modify_def)
  have p: "x_uuid_parse ex_ext (rq_param (ex_request ''DELETE'' ''live'') ''storageID'') = Some (sf_storage live_file)"
    "x_uuid_parse ex_ext (rq_param (ex_request ''DELETE'' ''live'') ''fileID'') = Some (sf_id live_file)"
    by (simp_all add: ex_ext_def ex_ids_def ex_request_def ex_rows)
  have g: "is_ok (fst (run (GetFile (sf_storage live_file) (sf_id live_file) False (u_admin alice) (u_id alice)) ex_world))"
    using ex_get_live by (simp add: ex_rows)
  from deleteFile_moves_to_trash[OF ex_calm h(1-3) p g h(4,5) surjective_pairing] show ?thesis by simp
qed

lemma delete_stmt_blobs: "snd (delete_stmt be p b) = b(blob_at be p := None)"
  by (cases be) (auto simp: fun_upd_idem)

lemma PermaDeleteFile_calm:
  assumes "calm w" and "db_ok (wdb w)" and f: "f \<in> set (files (wdb w))" "sf_excluded f"
  shows "run (PermaDeleteFile (sf_storage f) (sf_id f)) w = (Inr (), w\<lparr>wdb := delete_files (\<lambda>r. r = f) (wdb w)\<rparr>)"
proof -
  let ?P = "\<lambda>r. sf_storage r = sf_storage f \<and> sf_id r = sf_id f \<and> sf_excluded r"
  have P: "?P r \<longleftrightarrow> r = f" if "r \<in> set (files (wdb w))" for r
    using one_row[OF assms(2) f(1) that] f(2) by auto
  then have "filter (\<lambda>r. \<not> ?P r) (files (wdb w)) = filter (\<lambda>r. r \<noteq> f) (files (wdb w))"
    by (intro filter_cong) auto
  then have "delete_files ?P (wdb w) = delete_files (\<lambda>r. r = f) (wdb w)"
    by (simp only: delete_files_def)
  moreover have "touched ?P (files (wdb w)) \<noteq> 0" using f by (auto simp: touched_0)
  ultimately show ?thesis using assms(1) by (simp add: PermaDeleteFile_def run_try_bind del_files_def)
qed

text \<open>Nothing refers to a deleted file any more.\<close>

lemma delete_file_refs:
  assumes "db_ok d" and "f \<in> set (files d)"
  shows "\<not> has_file (delete_files (\<lambda>r. r = f) d) (sf_id f)"
    and "\<forall>l\<in>set (downloads (delete_files (\<lambda>r. r = f) d)). dl_file l \<noteq> sf_id f"
    and "\<forall>m\<in>set (medias (delete_files (\<lambda>r. r = f) d)). md_file m \<noteq> sf_id f"
    and "\<forall>j\<in>set (jobs (delete_files (\<lambda>r. r = f) d)). mj_file j \<noteq> sf_id f"
proof -
  show gone: "\<not> has_file (delete_files (\<lambda>r. r = f) d) (sf_id f)"
  proof
    assume "has_file (delete_files (\<lambda>r. r = f) d) (sf_id f)"
    then obtain r where "r \<in> set (files d)" "sf_id r = sf_id f" "r \<noteq> f"
      by (auto simp: has_file_def delete_files_def files_cascade)
    with one_row[OF assms] show False by blast
  qed
  show "\<forall>l\<in>set (downloads (delete_files (\<lambda>r. r = f) d)). dl_file l \<noteq> sf_id f"
    "\<forall>m\<in>set (medias (delete_files (\<lambda>r. r = f) d)). md_file m \<noteq> sf_id f"
    "\<forall>j\<in>set (jobs (delete_files (\<lambda>r. r = f) d)). mj_file j \<noteq> sf_id f"
    using gone unfolding delete_files_def by (auto dest: in_cascade)
qed

text \<open>
  C13: deleting a file of the trash one may see and modify answers 204, removes its object and its row,
  and with the row every download link, media row and media job of the file; no other object changes.
\<close>

theorem permaDelete_removes:
  assumes "calm w" and "db_ok (wdb w)" and "f \<in> set (files (wdb w))" and "sf_excluded f"
    and "x_uuid_parse x (rq_param rq ''storageID'') = Some (sf_storage f)"
    and "x_uuid_parse x (rq_param rq ''fileID'') = Some (sf_id f)"
    and "is_ok (fst (run (GetFile (sf_storage f) (sf_id f) True (u_admin us) (u_id us)) w))"
    and "may_modify us f" and "fst (run (GetStorage (sf_storage f)) w) = Inr st"
    and "storage_backend x e st = Inr be" and "sf_real_path f = Some p"
    and "run (permaDelete x e rq us) w = (resp, w')"
  shows "rs_status resp = 204 \<and> wblobs w' = (wblobs w)(blob_at be p := None)
    \<and> wdb w' = delete_files (\<lambda>r. r = f) (wdb w) \<and> \<not> has_file (wdb w') (sf_id f)
    \<and> sf_id f \<notin> dl_file ` set (downloads (wdb w')) \<union> md_file ` set (medias (wdb w'))
        \<union> mj_file ` set (jobs (wdb w'))"
proof -
  obtain g where g: "run (GetFile (sf_storage f) (sf_id f) True (u_admin us) (u_id us)) w = (Inr g, w)"
    "bare g = bare f"
    using got_file[OF assms(1,2,3) _ assms(7)] assms(4) by metis
  have real: "sf_real_path g = Some p" using same_bare(7)[OF g(2)] assms(11) by simp
  have st: "run (GetStorage (sf_storage f)) w = (Inr st, w)"
    using assms(1,9) by (simp add: GetStorage_def)
  let ?w1 = "w\<lparr>wblobs := (wblobs w)(blob_at be p := None)\<rparr>"
  obtain q where del: "run (Delete be p) w = (q, ?w1)"
    using assms(1) by (simp add: Delete_def delete_stmt_blobs)
  have "run (PermaDeleteFile (sf_storage f) (sf_id f)) ?w1
      = (Inr (), ?w1\<lparr>wdb := delete_files (\<lambda>r. r = f) (wdb w)\<rparr>)"
    using PermaDeleteFile_calm[of ?w1 f] assms(1-4) by simp
  with g st del real assms(5,6,8,10,12) may_modify_bare[OF g(2)]
  have "rs_status resp = 204 \<and> wblobs w' = (wblobs w)(blob_at be p := None)
      \<and> wdb w' = delete_files (\<lambda>r. r = f) (wdb w)"
    by (auto simp: permaDelete_def with_sf_def with_id_def on_error_def run_audit_calm case_prod_beta)
  with delete_file_refs[OF assms(2,3)] show ?thesis by auto
qed

lemma permaDelete_removes_witness:
  "\<not> has_file (wdb (snd (run (permaDelete ex_ext ex_env
     (ex_request ''DELETE'' ''trash'') boss) ex_world))) 21"
proof -
  have h: "db_ok (wdb ex_world)" "trash_file \<in> set (files (wdb ex_world))" "sf_excluded trash_file"
    "may_modify boss trash_file" "fst (run (GetStorage (sf_storage trash_file)) ex_world) = Inr (ex_storage\<lparr>st_total_size := 3\<rparr>)"
    by (simp_all add: ex_world_def ex_db_ok GetStorage_def calm_def)
      (simp_all add: ex_db_def ex_rows may_modify_def find_by_Cons storage_total_def bigint_def
        in_int64_def min_int64_def max_int64_def)
  have p: "x_uuid_parse ex_ext (rq_param (ex_request ''DELETE'' ''trash'') ''storageID'') = Some (sf_storage trash_file)"
    "x_uuid_parse ex_ext (rq_param (ex_request ''DELETE'' ''trash'') ''fileID'') = Some (sf_id trash_file)"
    by (simp_all add: ex_ext_def ex_ids_def ex_request_def ex_rows)
  have g: "is_ok (fst (run (GetFile (sf_storage trash_file) (sf_id trash_file) True (u_admin boss) (u_id boss)) ex_world))"
    using get_admin[OF ex_calm h(1,2)] h(3) by (simp add: boss_def)
  have be: "storage_backend ex_ext ex_env
      (ex_storage\<lparr>st_total_size := 3\<rparr>) = Inr (LocalBackend (if local_root_cred ''{}'' \<noteq> [] then local_root_cred ''{}'' else ''/r''))"
    "sf_real_path trash_file = Some ''x/b.txt''"
    by (simp_all add: storage_backend_def ForStorage_def ex_rows ex_env_def ex_ext_def Let_def)
  have "sf_id trash_file = 21" by (simp add: ex_rows)
  with permaDelete_removes[OF ex_calm h(1-3) p g h(4,5) be surjective_pairing]
  show ?thesis by metis
qed

section \<open>Storages\<close>

lemma filter_storage_files:
  assumes "db_ok d"
  shows "files (delete_storages (\<lambda>s. st_id s = i) d) = filter (\<lambda>f. sf_storage f \<noteq> i) (files d)"
proof -
  have "list_all (file_fits d) (files d)" using assms by (simp add: db_ok_def rows_ok_def)
  then have "has_storage (d\<lparr>storages := filter (\<lambda>s. st_id s \<noteq> i) (storages d)\<rparr>) (sf_storage f)
      \<longleftrightarrow> sf_storage f \<noteq> i" if "f \<in> set (files d)" for f
    using that by (auto simp: list_all_iff file_fits_def has_storage_def)
  then show ?thesis unfolding delete_storages_def files_cascade
    by (simp cong: filter_cong)
qed

text \<open>
  C16: an administrator's deletion of an existing storage answers 204; afterwards no storage, file,
  access row or media job of that storage is left, and the files of every other storage are untouched,
  in their order.
\<close>

theorem deleteStorage_cascades:
  assumes "calm w" and "db_ok (wdb w)" and "u_admin us" and "has_storage (wdb w) sid"
    and "x_uuid_parse x (rq_param rq ''storageID'') = Some sid"
    and "run (deleteStorage x e rq us) w = (resp, w')"
  shows "rs_status resp = 204 \<and> \<not> has_storage (wdb w') sid
    \<and> files (wdb w') = filter (\<lambda>f. sf_storage f \<noteq> sid) (files (wdb w))
    \<and> sid \<notin> su_storage ` set (storage_users (wdb w')) \<union> mj_storage ` set (jobs (wdb w'))"
proof -
  let ?d = "delete_storages (\<lambda>s. st_id s = sid) (wdb w)"
  have "touched (\<lambda>s. st_id s = sid) (storages (wdb w)) \<noteq> 0"
    using assms(4) by (auto simp: touched_0 has_storage_def)
  then have "run (DeleteStorage sid) w = (Inr (), w\<lparr>wdb := ?d\<rparr>)"
    using assms(1) by (simp add: DeleteStorage_def run_try_bind del_storages_def)
  with assms(3,5,6) have "rs_status resp = 204 \<and> wdb w' = ?d"
    by (auto simp: deleteStorage_def admin_only_def with_id_def on_error_def run_audit_calm case_prod_beta)
  moreover have gone: "\<not> has_storage ?d sid" by (auto simp: delete_storages_def has_storage_def)
  moreover have "\<forall>s\<in>set (storage_users ?d). su_storage s \<noteq> sid" "\<forall>j\<in>set (jobs ?d). mj_storage j \<noteq> sid"
    using gone unfolding delete_storages_def by (auto dest: in_cascade)
  ultimately show ?thesis using filter_storage_files[OF assms(2)] by auto
qed

lemma deleteStorage_cascades_witness:
  "files (wdb (snd (run (deleteStorage ex_ext ex_env (ex_request ''DELETE'' []) boss) ex_world))) = []"
proof -
  have h: "db_ok (wdb ex_world)" "u_admin boss" "has_storage (wdb ex_world) 10"
    "x_uuid_parse ex_ext (rq_param (ex_request ''DELETE'' []) ''storageID'') = Some 10"
    by (simp_all add: ex_world_def ex_db_ok) (simp_all add: ex_db_def ex_rows has_storage_def
        ex_ext_def ex_ids_def ex_request_def)
  have "filter (\<lambda>f. sf_storage f \<noteq> 10) (files (wdb ex_world)) = []"
    by (simp add: ex_world_def ex_db_def ex_rows)
  with deleteStorage_cascades[OF ex_calm h surjective_pairing] show ?thesis by simp
qed

lemma may_calm:
  "calm w \<Longrightarrow> run (StorageUserMayRead sid u) w = (no_rows_false (access_row su_may_read sid u (wdb w)), w)"
  "calm w \<Longrightarrow> run (StorageUserMayWrite sid u) w = (no_rows_false (access_row su_may_write sid u (wdb w)), w)"
  by (simp_all add: StorageUserMayRead_def StorageUserMayWrite_def)

text \<open>The access row an insert leaves: the last of the table, alone with its pair.\<close>

lemma InsertStorageUser_calm:
  assumes "calm w" and "run (InsertStorageUser sid u rd wr act) w = (Inr row, w1)"
  obtains rs where "calm w1" "storage_users (wdb w1) = rs @ [row]"
    "\<forall>s\<in>set rs. \<not> (su_storage s = sid \<and> su_user s = u)"
    "su_storage row = sid" "su_user row = u" "su_may_read row = rd" "su_may_write row = wr"
proof -
  let ?new = "\<lparr>su_id = wdraws w (wdrawn w), su_created_at = wclock w, su_updated_at = Some (wclock w),
    su_may_write = wr, su_may_read = rd, su_storage = sid, su_user = u, su_created_by = Some act,
    su_updated_by = Some act\<rparr>"
  obtain res d where i: "ins_storage_user ?new (wdb w) = (res, d)" by force
  obtain a where a: "res = Inr a"
    using assms i by (cases res) (auto simp: InsertStorageUser_def run_try_bind)
  then have d: "d = (wdb w)\<lparr>storage_users := storage_users (wdb w) @ [?new]\<rparr>"
    "\<forall>s\<in>set (storage_users (wdb w)). \<not> (su_storage s = sid \<and> su_user s = u)"
    using i by (auto simp: ins_storage_user_def stmt_def fresh_def split: if_splits)
  let ?w1 = "w\<lparr>wdrawn := Suc (wdrawn w), wdb := d\<rparr>"
  have "find_by (\<lambda>s. su_storage s = sid \<and> su_user s = u) (storage_users d) = Inr ?new"
    using d(2) by (simp add: d(1) find_by_append_fresh find_by_Cons)
  then have "row = ?new" "w1 = ?w1"
    using assms i a by (auto simp: InsertStorageUser_def run_try_bind findStorageUserByPair_def)
  with d assms(1) that[of "storage_users (wdb w)"] show thesis by simp
qed

text \<open>
  C31: access rows take effect at once. When a user is granted access to a storage, the permissions
  checked for that user afterwards are the granted ones; when the row is deleted again, the user may
  neither read nor write.
\<close>

theorem access_rows_take_effect:
  assumes "calm w" and "run (InsertStorageUser sid u rd wr act) w = (Inr row, w1)"
    and "run (DeleteStorageUser sid (su_id row)) w1 = (Inr (), w2)"
  shows "fst (run (StorageUserMayRead sid u) w1) = Inr rd \<and> fst (run (StorageUserMayWrite sid u) w1) = Inr wr
    \<and> fst (run (StorageUserMayRead sid u) w2) = Inr False \<and> fst (run (StorageUserMayWrite sid u) w2) = Inr False"
proof -
  obtain rs where r: "calm w1" "storage_users (wdb w1) = rs @ [row]"
    "\<forall>s\<in>set rs. \<not> (su_storage s = sid \<and> su_user s = u)"
    "su_storage row = sid" "su_user row = u" "su_may_read row = rd" "su_may_write row = wr"
    using InsertStorageUser_calm[OF assms(1,2)] .
  have "calm w2 \<and> storage_users (wdb w2)
      = filter (\<lambda>s. \<not> (su_storage s = sid \<and> su_id s = su_id row)) (storage_users (wdb w1))"
    using assms(3) r(1) by (auto simp: DeleteStorageUser_def run_try_bind del_storage_users_def)
  then have w2: "calm w2" "\<forall>s\<in>set (storage_users (wdb w2)). \<not> (su_storage s = sid \<and> su_user s = u)"
    using r by auto
  then have "find_by (\<lambda>s. su_storage s = sid \<and> su_user s = u) (storage_users (wdb w2)) = Inl ErrNoRows"
    by (simp add: find_by_none)
  moreover have "find_by (\<lambda>s. su_storage s = sid \<and> su_user s = u) (storage_users (wdb w1)) = Inr row"
    using r(3-5) by (simp add: r(2) find_by_append_fresh find_by_Cons)
  ultimately show ?thesis
    using r w2 by (simp add: may_calm access_row_def no_rows_false_def)
qed

lemma access_rows_take_effect_witness:
  "fst (run (StorageUserMayRead 10 3) (snd (run (InsertStorageUser 10 3 True False 3) ex_world))) = Inr True"
proof -
  let ?row = "\<lparr>su_id = 1000, su_created_at = 1000, su_updated_at = Some 1000, su_may_write = False,
    su_may_read = True, su_storage = 10, su_user = 3, su_created_by = Some 3, su_updated_by = Some 3\<rparr>"
  let ?w1 = "ex_world\<lparr>wdrawn := 1, wdb := ex_db\<lparr>storage_users := storage_users ex_db @ [?row]\<rparr>\<rparr>"
  have 1: "run (InsertStorageUser 10 3 True False 3) ex_world = (Inr ?row, ?w1)"
    by (simp add: InsertStorageUser_def run_try_bind findStorageUserByPair_def)
      (simp add: ex_world_def ex_db_def ex_rows ins_storage_user_def stmt_def fresh_def
        storage_user_fits_def has_defs null_or_def find_by_Cons calm_def)
  have 2: "run (DeleteStorageUser 10 (su_id ?row)) ?w1
      = (Inr (), ?w1\<lparr>wdb := ex_db\<lparr>storage_users := storage_users ex_db\<rparr>\<rparr>)"
    by (simp add: DeleteStorageUser_def run_try_bind del_storage_users_def)
      (simp add: ex_world_def ex_db_def ex_rows touched_def calm_def)
  from access_rows_take_effect[OF ex_calm 1 2] 1 show ?thesis by simp
qed

section \<open>Download links\<close>

lemma on_error_cases:
  assumes "run (on_error r f h) w = (resp, w')"
  obtains e where "r = Inl e" "run (f e) w = (resp, w')" | v where "r = Inr v" "run (h v) w = (resp, w')"
  using assms by (cases r) (auto simp: on_error_def)

lemma same_db: "same_state w w' \<Longrightarrow> wdb w' = wdb w \<and> wclock w' = wclock w"
  by (simp add: same_state_def)

lemma load_context:
  assumes "run (streamDownloadLoadContext us did sid fid h) w = (resp, w')"
    and "rs_status resp \<notin> {404, 500}"
  shows "\<exists>dl\<in>set (downloads (wdb w)). \<exists>r\<in>set (files (wdb w)). dl_id dl = did \<and> dl_owner dl = Some (u_id us)
    \<and> dl_expires_at dl > wclock w \<and> dl_file dl = sf_id r \<and> sf_id r = fid \<and> sf_storage r = sid
    \<and> \<not> sf_excluded r \<and> (u_admin us \<or> (may_see (u_id us) r
        \<and> (\<exists>s\<in>set (storage_users (wdb w)). su_storage s = sid \<and> su_user s = u_id us \<and> su_may_read s)))"
proof -
  obtain a w1 where a: "run (GetValidDownload did (u_id us)) w = (a, w1)"
    and rest: "run (on_error a (\<lambda>_. reply 404 (PDetail ''not found'')) (\<lambda>dl. do {
       r \<leftarrow> GetFile sid fid False (u_admin us) (u_id us);
       on_error r (\<lambda>_. reply 404 (PDetail ''not found'')) (\<lambda>f.
         if sf_id f \<noteq> dl_file dl then reply 404 (PDetail ''not found'')
         else do {
           r \<leftarrow> GetStorage sid;
           on_error r server_error (\<lambda>st. h dl f st)})})) w1 = (resp, w')"
    using assms(1) unfolding streamDownloadLoadContext_def by (rule run_bind_obtain)
  from rest assms(2) obtain dl where dl: "a = Inr dl" and rest: "run (do {
       r \<leftarrow> GetFile sid fid False (u_admin us) (u_id us);
       on_error r (\<lambda>_. reply 404 (PDetail ''not found'')) (\<lambda>f.
         if sf_id f \<noteq> dl_file dl then reply 404 (PDetail ''not found'')
         else do {
           r \<leftarrow> GetStorage sid;
           on_error r server_error (\<lambda>st. h dl f st)})}) w1 = (resp, w')"
    by (auto elim!: on_error_cases)
  from query_ok[of _ w dl w1] a dl have q: "find_by (\<lambda>r. dl_id r = did \<and> dl_owner r = Some (u_id us)
      \<and> dl_expires_at r > wclock w) (downloads (wdb w)) = Inr dl" "same_state w w1"
    unfolding GetValidDownload_def by blast+
  from rest obtain b w2 where b: "run (GetFile sid fid False (u_admin us) (u_id us)) w1 = (b, w2)"
    and rest: "run (on_error b (\<lambda>_. reply 404 (PDetail ''not found'')) (\<lambda>f.
         if sf_id f \<noteq> dl_file dl then reply 404 (PDetail ''not found'')
         else do {
           r \<leftarrow> GetStorage sid;
           on_error r server_error (\<lambda>st. h dl f st)})) w2 = (resp, w')"
    by (rule run_bind_obtain)
  from rest assms(2) obtain f where f: "b = Inr f" "sf_id f = dl_file dl"
    by (auto elim!: on_error_cases split: if_splits)
  from get_ok[OF b[unfolded f(1)]] obtain r where r: "r \<in> set (files (wdb w1))" "sf_storage r = sid"
    "sf_id r = fid" "\<not> sf_excluded r" "bare f = bare r"
    "u_admin us \<or> (may_see (u_id us) r \<and> (\<exists>s\<in>set (storage_users (wdb w1)). su_storage s = sid
        \<and> su_user s = u_id us \<and> su_may_read s))" by metis
  with find_by_Inr[OF q(1)] f(2) same_bare(1)[OF r(5)] same_db[OF q(2)] show ?thesis
    by (intro bexI[of _ dl] bexI[of _ r]) auto
qed

text \<open>
  C15: whatever faults happen, bytes or a redirect are only served for a download link that exists, is
  the requesting user's own, has not expired and names a live file of the storage in the URL that the
  user may see at that moment.
\<close>

theorem streamDownload_needs_own_link:
  assumes "run (streamDownload x e rq us) w = (resp, w')" and "rs_status resp \<in> {200, 302}"
  shows "\<exists>dl\<in>set (downloads (wdb w)). \<exists>r\<in>set (files (wdb w)).
    x_uuid_parse x (rq_param rq ''downloadID'') = Some (dl_id dl)
    \<and> dl_owner dl = Some (u_id us) \<and> dl_expires_at dl > wclock w \<and> dl_file dl = sf_id r
    \<and> x_uuid_parse x (rq_param rq ''storageID'') = Some (sf_storage r) \<and> \<not> sf_excluded r
    \<and> (u_admin us \<or> (may_see (u_id us) r \<and> (\<exists>s\<in>set (storage_users (wdb w)).
        su_storage s = sf_storage r \<and> su_user s = u_id us \<and> su_may_read s)))"
proof -
  obtain did sid fid h where p: "x_uuid_parse x (rq_param rq ''downloadID'') = Some did"
      "x_uuid_parse x (rq_param rq ''storageID'') = Some sid"
    and l: "run (streamDownloadLoadContext us did sid fid h) w = (resp, w')"
    using assms unfolding streamDownload_def streamDownloadParseIDs_def with_sf_def with_id_def
    by (auto split: option.splits)
  have "rs_status resp \<notin> {404, 500}" using assms(2) by auto
  from load_context[OF l this] p show ?thesis by metis
qed

definition stream_world :: world where
  "stream_world = ex_world\<lparr>wblobs := (\<lambda>_. Some (Blob ''abc'' []))\<rparr>"

lemma ex_storage_get: "run (GetStorage 10) stream_world = (Inr (ex_storage\<lparr>st_total_size := 3\<rparr>), stream_world)"
  by (simp add: GetStorage_def stream_world_def)
    (simp add: ex_world_def ex_db_def ex_rows find_by_Cons storage_total_def bigint_def
      in_int64_def min_int64_def max_int64_def)

lemma ex_stream:
  "rs_status (fst (run (streamDownload ex_ext ex_env (ex_request ''GET'' ''live'') alice) stream_world)) = 200"
proof -
  have w: "calm stream_world" "db_ok (wdb stream_world)" "live_file \<in> set (files (wdb stream_world))"
    by (simp_all add: stream_world_def ex_world_def ex_db_ok calm_def) (simp add: ex_db_def)
  have f: "sf_storage live_file = 10" "sf_id live_file = 20" "\<not> sf_excluded live_file"
    "sf_owner_id live_file = Some 1" "sf_real_path live_file = Some ''x/a.txt''" by (simp_all add: ex_rows)
  obtain g where g: "bare g = bare live_file" "run (GetFile 10 20 False False 1) stream_world
    = (case run (fileVisible g False 1) stream_world of (v, w') \<Rightarrow> (if v then Inr g else Inl ErrNoRows, w'))"
    using get_calm[OF w, of False 1] f by auto
  have "run (fileVisible g False 1) stream_world = (True, stream_world)"
    using visible_calm[OF w(1), of 1 g 1] same_bare[OF g(1)]
    by (simp add: f) (simp add: stream_world_def ex_world_def ex_db_def ex_rows access_row_def find_by_Cons
        no_rows_false_def or_false_def sql_visible_def)
  with g have get: "run (GetFile 10 20 False False 1) stream_world = (Inr g, stream_world)" by simp
  have link: "run (GetValidDownload 50 1) stream_world = (Inr ex_link, stream_world)"
    using w(1) by (simp add: GetValidDownload_def)
      (simp add: stream_world_def ex_world_def ex_db_def ex_rows find_by_Cons)
  have blob: "run (file_attachment p n) stream_world = (\<lparr>rs_status = 200, rs_body = PAttachment n ''abc''\<rparr>, stream_world)" for p n
    using w(1) by (simp add: file_attachment_def on_error_def stream_world_def)
  have ids: "x_uuid_parse ex_ext (rq_param (ex_request ''GET'' ''live'') ''storageID'') = Some 10"
    "x_uuid_parse ex_ext (rq_param (ex_request ''GET'' ''live'') ''fileID'') = Some 20"
    "x_uuid_parse ex_ext (rq_param (ex_request ''GET'' ''live'') ''downloadID'') = Some 50"
    by (simp_all add: ex_ext_def ex_ids_def ex_request_def)
  obtain boss where "storage_backend ex_ext ex_env (ex_storage\<lparr>st_total_size := 3\<rparr>) = Inr (LocalBackend boss)"
    by (simp add: storage_backend_def ForStorage_def ex_rows Let_def)
  then show ?thesis
    using link get ex_storage_get blob ids same_bare[OF g(1)] f
    by (simp add: streamDownload_def streamDownloadParseIDs_def with_sf_def with_id_def streamDownloadLoadContext_def on_error_def
        redirectIfExternalDownloadURL_def alice_def ex_link_def)
qed

lemma streamDownload_needs_own_link_witness:
  "\<exists>dl\<in>set (downloads ex_db). dl_owner dl = Some (u_id alice) \<and> dl_expires_at dl > 1000"
proof -
  let ?r = "run (streamDownload ex_ext ex_env (ex_request ''GET'' ''live'') alice) stream_world"
  have "rs_status (fst ?r) \<in> {200, 302}" using ex_stream by simp
  from streamDownload_needs_own_link[OF surjective_pairing this] show ?thesis
    by (auto simp: stream_world_def ex_world_def)
qed

end
