(* ===== verification/PropsAccess.thy ===== *)
theory PropsAccess
  imports Examples Requests WorkerPool
begin

text \<open>
  Authentication, authorization, and the invariants of the whole service. The steps of the service
  are requests of any kind, rounds of the media worker, the passing of time, and any schedule of
  faults for what comes next.
\<close>

section \<open>The service as a transition system\<close>

inductive service_step :: "mext \<Rightarrow> ext \<Rightarrow> Env \<Rightarrow> 'l buckets \<Rightarrow> 'l limiters \<times> world \<Rightarrow> 'l limiters \<times> world \<Rightarrow> bool"
  for mx x e b where
  Request: "serve x e b rt rq (ls, w) = (resp, ls', w') \<Longrightarrow> service_step mx x e b (ls, w) (ls', w')"
| Worker: "run (media_worker_round mx x e) w = (r, w') \<Longrightarrow> service_step mx x e b (ls, w) (ls, w')"
| Tick: "t \<ge> wclock w \<Longrightarrow> service_step mx x e b (ls, w) (ls, w\<lparr>wclock := t\<rparr>)"
| Faults: "service_step mx x e b (ls, w) (ls, w\<lparr>wfaults := fs\<rparr>)"

inductive service_reach :: "mext \<Rightarrow> ext \<Rightarrow> Env \<Rightarrow> 'l buckets \<Rightarrow> 'l limiters \<times> world \<Rightarrow> 'l limiters \<times> world \<Rightarrow> bool"
  for mx x e b s where
  Refl: "service_reach mx x e b s s"
| Then: "service_reach mx x e b s s' \<Longrightarrow> service_step mx x e b s' s'' \<Longrightarrow> service_reach mx x e b s s''"

section \<open>Invariants of the service\<close>

text \<open>
  What the service promises about a predicate on worlds that requests, workers and the clock keep: it
  holds in every state the service reaches, under any faults.
\<close>

locale service_world = request_ops W for W :: "world \<Rightarrow> bool" +
  fixes mx :: mext and x :: ext and e :: Env
  assumes worker: "keeps_all W (media_worker_round mx x e)"
    and ticked: "W w \<Longrightarrow> t \<ge> wclock w \<Longrightarrow> W (w\<lparr>wclock := t\<rparr>)"
begin

lemma step: "service_step mx x e b s s' \<Longrightarrow> W (snd s) \<Longrightarrow> W (snd s')"
proof (induction rule: service_step.induct)
  case (Request rt rq ls w resp ls' w')
  then show ?case using served by simp
next
  case (Worker w r w' ls)
  then show ?case using keeps_allD[OF worker _ Worker(1)] by simp
qed (simp_all add: faults ticked)

lemma reach: "service_reach mx x e b s s' \<Longrightarrow> W (snd s) \<Longrightarrow> W (snd s')"
  by (induction rule: service_reach.induct) (auto intro: step)

end

lemma keeps_worker: "keeps_all (on_db db_ok) (media_worker_round mx x e)"
  unfolding media_worker_round_def worker_round_def by (intro keeps)

interpretation service: service_world "on_db db_ok" mx x e for mx x e
  by unfold_locales (rule keeps_worker, simp add: on_db_def)

section \<open>Integrity and the tables of limiters\<close>

definition service_ok :: "'l limiters \<times> world \<Rightarrow> bool" where
  "service_ok s \<longleftrightarrow> (case s of (ls, w) \<Rightarrow> db_ok (wdb w) \<and> limiter_ok (global_rl ls) \<and> limiter_ok (url_rl ls))"

definition pick_ok :: "'l buckets \<Rightarrow> bool" where
  "pick_ok b \<longleftrightarrow> (\<forall>ks. ks \<noteq> [] \<longrightarrow> bk_pick b ks \<in> set ks)"

lemma serve_ok:
  assumes "service_ok (ls, w)" and "pick_ok b" and "serve x e b rt rq (ls, w) = (resp, ls', w')"
  shows "service_ok (ls', w')"
proof -
  have lim: "limiter_ok l \<Longrightarrow> allow f (bk_allow b) (bk_pick b) t ip l = (a, l') \<Longrightarrow> limiter_ok l'" for f l t ip a l'
    using allow_keeps[of l "bk_pick b" f "bk_allow b" t ip] assms(2) by (auto simp: pick_ok_def)
  have "limiter_ok (global_rl ls') \<and> limiter_ok (url_rl ls')"
    using assms(1,3) by (auto simp: serve_def service_ok_def Let_def simp del: handler.simps dest: lim
        split: option.splits sum.splits if_splits prod.splits)
  with integrity.served[OF _ assms(3)] assms(1) show ?thesis by (simp add: service_ok_def on_db_def)
qed

lemma step_ok: "service_step mx x e b s s' \<Longrightarrow> pick_ok b \<Longrightarrow> service_ok s \<Longrightarrow> service_ok s'"
proof (induction rule: service_step.induct)
  case (Worker w r w' ls)
  with keeps_worker[of mx x e] show ?case by (auto simp: service_ok_def keeps_all_def on_db_def)
next
  case (Request rt rq ls w resp ls' w')
  then show ?case using serve_ok by metis
qed (simp_all add: service_ok_def)

text \<open>
  C1: the integrity of the database (keys, unique columns, foreign keys, column widths) and the bound
  on the limiter tables are invariants of the service: they hold after any sequence of requests and
  worker rounds, under any faults.
\<close>

theorem service_invariant:
  assumes "pick_ok b" and "service_ok s" and "service_reach mx x e b s s'"
  shows "service_ok s'"
  using assms(3,2) by (induction rule: service_reach.induct) (auto intro: step_ok[OF _ assms(1)])

definition ex_buckets :: "unit buckets" where
  "ex_buckets = \<lparr>bk_global = (), bk_url = (), bk_allow = (\<lambda>_ _. (True, ())), bk_pick = hd\<rparr>"

definition ex_limiters :: "unit limiters" where
  "ex_limiters = \<lparr>global_rl = \<lparr>rl_enabled = True, rl_entries = []\<rparr>, url_rl = \<lparr>rl_enabled = True, rl_entries = []\<rparr>\<rparr>"

lemma ex_pick: "pick_ok ex_buckets"
  by (simp add: pick_ok_def ex_buckets_def)

lemma ex_service_ok: "service_ok (ex_limiters, ex_world)"
  by (simp add: service_ok_def ex_limiters_def limiter_ok_def) (simp add: ex_world_def ex_db_ok)

lemma service_invariant_witness:
  "service_ok (snd (serve ex_ext ex_env ex_buckets DeleteFileR (ex_request ''DELETE'' ''live'')
     (ex_limiters, ex_world\<lparr>wfaults := [None, Some (Err ''connection reset'')]\<rparr>)))"
proof -
  let ?w = "ex_world\<lparr>wfaults := [None, Some (Err ''connection reset'')]\<rparr>"
  let ?r = "serve ex_ext ex_env ex_buckets DeleteFileR (ex_request ''DELETE'' ''live'') (ex_limiters, ?w)"
  obtain resp ls w where r: "?r = (resp, ls, w)" by (cases ?r) auto
  have "service_reach mx ex_ext ex_env ex_buckets (ex_limiters, ex_world) (ls, w)" for mx
    by (rule service_reach.Then[OF service_reach.Then[OF service_reach.Refl service_step.Faults] service_step.Request[OF r]])
  from service_invariant[OF ex_pick ex_service_ok this] r show ?thesis by simp
qed

section \<open>Authentication\<close>

text \<open>The token the middleware takes from an Authorization header.\<close>

definition header_token :: "string \<Rightarrow> string option" where
  "header_token h = (if h = [] then None else (case SplitN2 (CHR '' '') h of
     [sch, tok] \<Rightarrow> if EqualFold (TrimSpace sch) ''Token'' \<or> EqualFold (TrimSpace sch) ''Bearer''
       then Some (TrimSpace tok) else None
   | _ \<Rightarrow> None))"

lemma middleware_token:
  "authenticateMiddleware x base h = (case header_token h of
     None \<Rightarrow> ret (Inl (unauthorized (if h = [] then ''Authentication credentials were not provided.''
       else ''Invalid token header.'')))
   | Some t \<Rightarrow> do {
       r \<leftarrow> Authenticate x base t;
       ret (case r of Inl _ \<Rightarrow> Inl (unauthorized ''Invalid token.'') | Inr u \<Rightarrow> Inr u)})"
  by (auto simp: authenticateMiddleware_def header_token_def Let_def split: list.splits)

text \<open>A user the database knows by a token that has not expired.\<close>

definition cached_user :: "world \<Rightarrow> string \<Rightarrow> User \<Rightarrow> bool" where
  "cached_user w t u \<longleftrightarrow> u \<in> set (users (wdb w))
     \<and> (\<exists>k\<in>set (tokens (wdb w)). tok_token k = t \<and> tok_expires k > wclock w \<and> tok_user k = u_id u)"

lemma userByToken_reads: "reads (userByToken t)"
  unfolding userByToken_def by (intro read_intros)

lemma userByToken_Some:
  assumes "run (userByToken t) w = (Inr (Some u), w')"
  shows "cached_user w t u"
proof -
  have "token_user t (wclock w) (wdb w) = Inr u"
    using assms query_ok[of "token_user t" w u]
    by (auto simp: userByToken_def split: prod.splits sum.splits if_splits)
  then show ?thesis
    by (auto simp: token_user_def cached_user_def dest!: find_by_Inr split: sum.splits)
qed

lemma in_tx_fail:
  assumes "run (in_tx body) w = (Inl e, w')"
  shows "wdb w' = wdb w"
  using assms by (auto simp: in_tx_def dest: next_fault_db split: prod.splits option.splits sum.splits)

lemma create_ok:
  assumes "run (loadOrCreateUserFromMe me) w = (Inr u, w')"
  shows "u_username u = me_username me \<and> u_system u = me_system me \<and> u_admin u = me_admin me \<and> u_active u"
  using assms
  by (auto simp: loadOrCreateUserFromMe_def run_try_bind dest!: query_ok find_by_Inr
      split: prod.splits sum.splits if_splits)

text \<open>
  C4: whatever faults happen, a token authenticates only a user who is active and is either the user of
  a cached token that has not expired, or the one uServer-Auth names for the token, with the name,
  system and admin flag it gives.
\<close>

theorem Authenticate_sound:
  assumes "run (Authenticate x base t) w = (Inr u, w')"
  shows "t \<noteq> [] \<and> u_active u \<and> (cached_user w t u \<or> (\<exists>me tt. ValidateBearer x base t = Inr (me, tt)
    \<and> u_username u = me_username me \<and> u_system u = me_system me \<and> u_admin u = me_admin me))"
proof -
  have t: "t \<noteq> []" using assms by (auto simp: Authenticate_def split: if_splits)
  with assms obtain c w1 where c: "run (userByToken t) w = (Inr c, w1)"
    and rest: "run (case c of Some u \<Rightarrow> ret (if \<not> u_active u then Inl ErrUnauthorized else Inr u)
      | None \<Rightarrow> (case ValidateBearer x base t of Inl _ \<Rightarrow> ret (Inl ErrUnauthorized)
        | Inr (me, tt) \<Rightarrow> in_tx (store_me t me tt))) w1 = (Inr u, w')"
    by (auto simp: Authenticate_def elim: try_bind_ok)
  show ?thesis
  proof (cases c)
    case (Some v)
    with rest have "v = u" "u_active u" by (auto split: if_splits)
    with userByToken_Some[of t w v w1] c Some t show ?thesis by simp
  next
    case None
    then obtain me tt where v: "ValidateBearer x base t = Inr (me, tt)"
      "run (in_tx (store_me t me tt)) w1 = (Inr u, w')"
      using rest by (auto split: sum.splits)
    obtain w2 w3 where "run (store_me t me tt) w2 = (Inr u, w3)" using v(2) by (rule in_tx_ok)
    then obtain w4 where "run (loadOrCreateUserFromMe me) w2 = (Inr u, w4)"
      by (auto simp: store_me_def elim!: try_bind_ok)
    from create_ok[OF this] v(1) t show ?thesis by auto
  qed
qed

lemma ex_login: "run (Authenticate x base ''t'') ex_world = (Inr alice, ex_world)"
proof -
  have "run (db_query (token_user ''t'')) ex_world = (Inr alice, ex_world)"
    by simp (simp add: ex_world_def ex_db_def ex_token_def token_user_def find_by_Cons alice_def)
  then show ?thesis by (simp add: Authenticate_def userByToken_def run_try_bind alice_def)
qed

lemma Authenticate_sound_witness: "u_active alice \<and> (cached_user ex_world ''t'' alice
    \<or> (\<exists>me tt. ValidateBearer ex_ext [] ''t'' = Inr (me, tt)))"
  using Authenticate_sound[OF ex_login[of ex_ext "[]"]] by auto

text \<open>
  C24: an authentication that fails, for whatever reason and at whatever point, leaves the database as
  it was: no user and no token is stored halfway.
\<close>

theorem Authenticate_failure_atomic:
  assumes "run (Authenticate x base t) w = (Inl er, w')"
  shows "wdb w' = wdb w"
proof (cases "t = []")
  case False
  obtain r w1 where c: "run (userByToken t) w = (r, w1)" by force
  have same: "wdb w1 = wdb w" using reads_same[OF userByToken_reads c] by (simp add: same_state_def)
  show ?thesis
    using assms False c same
    by (auto simp: Authenticate_def run_try_bind dest!: in_tx_fail
        split: sum.splits option.splits if_splits prod.splits)
qed (use assms in \<open>simp add: Authenticate_def\<close>)

lemma Authenticate_failure_atomic_witness:
  "wdb (snd (run (Authenticate ex_ext [] ''other'') ex_world)) = ex_db"
proof -
  have "run (db_query (token_user ''other'')) ex_world = (Inl ErrNoRows, ex_world)"
    by simp (simp add: ex_world_def ex_db_def ex_token_def token_user_def find_by_Cons)
  then have "run (Authenticate ex_ext [] ''other'') ex_world = (Inl ErrUnauthorized, ex_world)"
    by (simp add: Authenticate_def userByToken_def run_try_bind ValidateBearer_def)
  from Authenticate_failure_atomic[OF this] this show ?thesis by (simp add: ex_world_def)
qed

section \<open>Requests without credentials\<close>

text \<open>No active user stands behind the header: neither in the database nor at uServer-Auth.\<close>

definition no_credentials :: "ext \<Rightarrow> Env \<Rightarrow> world \<Rightarrow> string \<Rightarrow> bool" where
  "no_credentials x e w h \<longleftrightarrow> (case header_token h of None \<Rightarrow> True
     | Some t \<Rightarrow> (\<forall>u. cached_user w t u \<longrightarrow> \<not> u_active u)
         \<and> \<not> is_ok (ValidateBearer x (NewClient_base (AuthHost e)) t))"

lemma Authenticate_none:
  assumes "\<forall>u. cached_user w t u \<longrightarrow> \<not> u_active u" and "\<not> is_ok (ValidateBearer x base t)"
    and "run (Authenticate x base t) w = (r, w')"
  shows "\<not> is_ok r \<and> same_state w w'"
proof -
  obtain c w1 where c: "run (userByToken t) w = (c, w1)" by force
  have "\<not> is_ok r"
    using Authenticate_sound[of x base t w _ w'] assms by (metis is_ok_iff is_ok_simps(1))
  moreover have "run (Authenticate x base t) w = (r, w') \<Longrightarrow> same_state w w'"
    using assms(2) c reads_same[OF userByToken_reads c]
    by (auto simp: Authenticate_def run_try_bind split: sum.splits option.splits if_splits)
  ultimately show ?thesis using assms(3) by simp
qed

text \<open>
  C34: a request without credentials is answered 401 (or 429 by the rate limiter) on every route and
  changes nothing: not the database, not the objects, not the audit log.
\<close>

theorem no_credentials_no_effect:
  assumes "no_credentials x e w (rq_auth rq)" and "serve x e b rt rq (ls, w) = (resp, ls', w')"
  shows "rs_status resp \<in> {401, 429} \<and> wdb w' = wdb w \<and> wblobs w' = wblobs w \<and> waudit w' = waudit w"
proof -
  obtain a w1 where a: "run (authenticateMiddleware x (NewClient_base (AuthHost e)) (rq_auth rq)) w = (a, w1)"
    by force
  have "\<exists>msg. a = Inl (unauthorized msg) \<and> same_state w w1"
  proof (cases "header_token (rq_auth rq)")
    case None
    with a show ?thesis by (auto simp: middleware_token)
  next
    case (Some t)
    obtain r w2 where r: "run (Authenticate x (NewClient_base (AuthHost e)) t) w = (r, w2)" by force
    with assms(1) Some Authenticate_none[OF _ _ r] have "\<not> is_ok r" "same_state w w2"
      by (auto simp: no_credentials_def)
    with a Some r show ?thesis by (cases r) (auto simp: middleware_token)
  qed
  with a assms(2) show ?thesis
    by (auto simp: serve_def Let_def same_state_def unauthorized_def too_many_def
        split: option.splits prod.splits)
qed

lemma no_credentials_no_effect_witness:
  "rs_status (fst (serve ex_ext ex_env ex_buckets PermaDeleteR
     ((ex_request ''DELETE'' ''trash'')\<lparr>rq_auth := ''Basic x''\<rparr>) (ex_limiters, ex_world))) \<in> {401, 429}"
proof -
  have "header_token ''Basic x'' = None" by code_simp
  then have "no_credentials ex_ext ex_env ex_world (rq_auth ((ex_request ''DELETE'' ''trash'')\<lparr>rq_auth := ''Basic x''\<rparr>))"
    by (simp add: no_credentials_def)
  from no_credentials_no_effect[OF this] show ?thesis by (metis prod.collapse)
qed

section \<open>Administrators\<close>

definition admin_routes :: "route set" where
  "admin_routes = {ListStoragesR, CreateStorageR, GetStorageR, UpdateStorageR, PatchStorageR, DeleteStorageR,
     ListStorageUsersR, CreateStorageUserR, GetStorageUserR, PatchStorageUserR, DeleteStorageUserR}"

text \<open>
  C35: the routes of storages and of access rows answer every user who is no administrator with 403
  and do nothing at all, before they look at the request.
\<close>

theorem admin_routes_forbidden:
  assumes "rt \<in> admin_routes" and "\<not> u_admin us"
  shows "run (handler x e rt rq us) w = (\<lparr>rs_status = 403, rs_body = PDetail ''forbidden''\<rparr>, w)"
  using assms
  by (auto simp: admin_routes_def listStorages_def createStorage_def getStorage_def updateStorage_def
      patchStorage_def writeStorage_def deleteStorage_def listStorageUsers_def createStorageUser_def
      getStorageUser_def patchStorageUser_def deleteStorageUser_def admin_only_def forbidden_def)

lemma admin_routes_forbidden_witness:
  "rs_status (fst (run (handler ex_ext ex_env DeleteStorageR (ex_request ''DELETE'' []) alice) ex_world)) = 403"
  using admin_routes_forbidden[of DeleteStorageR alice] by (simp add: admin_routes_def alice_def)

section \<open>The token cache\<close>

text \<open>The expiry stored for a token that arrives at time \<open>t0\<close>.\<close>

definition cache_expiry :: "int \<Rightarrow> tokenTimes \<Rightarrow> int" where
  "cache_expiry t0 tt =
     (let issued = parseAuthTime (tt_issued tt); expires = parseAuthTime (tt_expires tt);
          issued = (if issued = zero_time then t0 else issued)
      in if expires = zero_time then issued + one_day else expires)"

lemma keeps_calm:
  "keeps_all calm now" "keeps_all calm new_uuid" "keeps_all calm (db_query q)" "keeps_all calm (db_exec q')"
  by (simp_all add: keeps_all_def)

lemma store_me_calm: "calm w \<Longrightarrow> run (store_me t me tt) w = (r, w') \<Longrightarrow> calm w'"
proof -
  have "keeps_all calm (store_me t me tt)"
    unfolding store_me_def loadOrCreateUserFromMe_def cacheBearerToken_def Let_def
    by (intro keeps keeps_calm)
  then show "calm w \<Longrightarrow> run (store_me t me tt) w = (r, w') \<Longrightarrow> calm w'" by (rule keeps_allD)
qed

text \<open>The user row that is there once the user has been loaded or created.\<close>

lemma loaded_user:
  assumes "calm w" and "db_ok (wdb w)" and "run (loadOrCreateUserFromMe me) w = (Inr u, w')"
  shows "calm w' \<and> wclock w' = wclock w \<and> db_ok (wdb w')
    \<and> find_by (\<lambda>v. u_id v = u_id u) (users (wdb w')) = Inr (u\<lparr>u_last_activity := wclock w\<rparr>)"
proof -
  have ok: "db_ok (wdb w')"
    using keeps_allD[OF auth_ok(2) _ assms(3)] assms(2) by (simp add: on_db_def)
  have dist: "distinct (map u_id (users (wdb w')))" using ok by (simp add: db_ok_def keys_ok_def)
  have "calm w' \<and> wclock w' = wclock w \<and> u\<lparr>u_last_activity := wclock w\<rparr> \<in> set (users (wdb w'))"
  proof (cases "find_by (\<lambda>v. u_username v = me_username me) (users (wdb w))")
    case (Inl er)
    then have "er = ErrNoRows" using find_by_Inl by blast
    with Inl assms(1,3) show ?thesis
      by (auto simp: loadOrCreateUserFromMe_def run_try_bind ins_user_def stmt_def
          split: if_splits)
  next
    case (Inr v)
    note v = find_by_Inr[OF Inr]
    with Inr assms(1,3) show ?thesis
      by (auto simp: loadOrCreateUserFromMe_def run_try_bind upd_users_def stmt_def set_upd_where
          split: if_splits)
  qed
  then show ?thesis using ok find_by_unique[OF dist, of _ "\<lambda>v. u_id v = u_id u"] by simp
qed

lemma upsert_finds:
  assumes "upsert_token k d = (Inr (), d')" and "tok_expires k > t"
  shows "users d' = users d \<and> (\<exists>k'. find_by (\<lambda>q. tok_token q = tok_token k \<and> tok_expires q > t) (tokens d') = Inr k'
    \<and> tok_user k' = tok_user k)"
proof -
  let ?f = "\<lambda>q. q\<lparr>tok_expires := tok_expires k, tok_user := tok_user k\<rparr>"
  have "users d' = users d \<and> (tokens d' = upd_where (\<lambda>q. tok_token q = tok_token k) ?f (tokens d)
      \<and> (\<exists>q\<in>set (tokens d). tok_token q = tok_token k)
      \<or> tokens d' = tokens d @ [k] \<and> (\<forall>q\<in>set (tokens d). tok_token q \<noteq> tok_token k))"
    using assms(1)
    by (auto simp: upsert_token_def upd_tokens_def ins_token_def stmt_def split: if_splits)
  then show ?thesis
  proof (elim conjE disjE)
    assume u: "users d' = users d" and k: "tokens d' = upd_where (\<lambda>q. tok_token q = tok_token k) ?f (tokens d)"
      and ex: "\<exists>q\<in>set (tokens d). tok_token q = tok_token k"
    then obtain q where "q \<in> set (tokens d)" "tok_token q = tok_token k" by blast
    then have "?f q \<in> set (tokens d')" unfolding k by (auto simp: set_upd_where)
    then have "\<exists>q\<in>set (tokens d'). tok_token q = tok_token k \<and> tok_expires q > t"
      using assms(2) \<open>tok_token q = tok_token k\<close> by (intro bexI[of _ "?f q"]) simp_all
    then obtain k' where f: "find_by (\<lambda>q. tok_token q = tok_token k \<and> tok_expires q > t) (tokens d') = Inr k'"
      by (cases "find_by (\<lambda>q. tok_token q = tok_token k \<and> tok_expires q > t) (tokens d')")
        (auto dest: find_by_Inl)
    from find_by_Inr[OF f] k have "tok_user k' = tok_user k" by (auto simp: set_upd_where)
    with u f show ?thesis by blast
  next
    assume "users d' = users d" "tokens d' = tokens d @ [k]" "\<forall>q\<in>set (tokens d). tok_token q \<noteq> tok_token k"
    with assms(2) show ?thesis by (simp add: find_by_append_fresh find_by_Cons)
  qed
qed

text \<open>
  C25: a login is remembered: after a token has authenticated against uServer-Auth, with an expiry in
  the future, it authenticates the same user from the database alone, whatever the remote service
  answers or however it fails, and without any change.
\<close>

theorem login_is_cached:
  assumes "calm w" and "db_ok (wdb w)" and "run (userByToken t) w = (Inr None, w)"
    and "ValidateBearer x base t = Inr (me, tt)" and "cache_expiry (wclock w) tt > wclock w"
    and "run (Authenticate x base t) w = (Inr u, w1)"
  shows "run (Authenticate x' base' t) w1 = (Inr (u\<lparr>u_last_activity := wclock w\<rparr>), w1)"
proof -
  have t: "t \<noteq> []" using assms(6) by (auto simp: Authenticate_def split: if_splits)
  obtain w2 where s: "run (store_me t me tt) w = (Inr u, w2)" and w1: "w1 = w2" "calm w2"
    using assms(1,3,4,6) t store_me_calm[OF assms(1), of t me tt]
    by (auto simp: Authenticate_def run_try_bind in_tx_def split: prod.splits sum.splits option.splits)
  obtain v w3 where l: "run (loadOrCreateUserFromMe me) w = (Inr v, w3)"
    and c: "run (try_bind (cacheBearerToken (u_id v) t tt) (\<lambda>_. ret (Inr v))) w3 = (Inr u, w2)"
    using s unfolding store_me_def by (rule try_bind_ok)
  note l0 = l and l = loaded_user[OF assms(1,2) l]
  have vu: "v = u" using c by (auto elim: try_bind_ok)
  let ?k = "\<lparr>tok_uuid = wdraws w3 (wdrawn w3), tok_token = t,
    tok_issued = (let i = parseAuthTime (tt_issued tt) in if i = zero_time then wclock w else i),
    tok_expires = cache_expiry (wclock w) tt, tok_created = wclock w, tok_user = u_id u\<rparr>"
  obtain d where d: "upsert_token ?k (wdb w3) = (Inr (), d)" "w2 = w3\<lparr>wdrawn := Suc (wdrawn w3), wdb := d\<rparr>"
    using c vu l by (cases "upsert_token ?k (wdb w3)")
      (auto simp: cacheBearerToken_def cache_expiry_def Let_def run_try_bind split: sum.splits)
  from upsert_finds[OF d(1), of "wclock w"] assms(5) obtain k' where k':
    "users d = users (wdb w3)" "find_by (\<lambda>q. tok_token q = t \<and> tok_expires q > wclock w) (tokens d) = Inr k'"
    "tok_user k' = u_id u" by auto
  then have "token_user t (wclock w) d = Inr (u\<lparr>u_last_activity := wclock w\<rparr>)"
    using l vu by (simp add: token_user_def)
  moreover have "u_active u" using create_ok l0 vu by blast
  ultimately show ?thesis
    using t w1 d(2) l by (simp add: Authenticate_def userByToken_def run_try_bind)
qed

definition quoted :: "string \<Rightarrow> string" where
  "quoted s = [dquote] @ s @ [dquote]"

definition carol_me :: string where
  "carol_me = ''{'' @ quoted ''uuid'' @ '':'' @ quoted ''u'' @ '','' @ quoted ''username'' @ '':'' @ quoted ''carol'' @ ''}''"

definition auth_ext :: ext where
  "auth_ext = ex_ext\<lparr>x_auth_get := (\<lambda>url tok. Inr (200, carol_me))\<rparr>"

definition carol_reply :: MeResponse where
  "carol_reply = \<lparr>me_uuid = ''u'', me_username = ''carol'', me_system = [], me_admin = False, me_message = [],
     me_token = []\<rparr>"

lemma carol_validated: "ValidateBearer auth_ext ''h'' t = Inr (carol_reply, \<lparr>tt_issued = [], tt_expires = []\<rparr>)"
proof -
  have b: "take 1048576 carol_me = carol_me" by (simp add: carol_me_def quoted_def)
  have "decode_me carol_me = Inr carol_reply" by code_simp
  moreover have "decode_times [] = \<lparr>tt_issued = [], tt_expires = []\<rparr>"
    by (simp add: decode_times_def field_of_def string_field_def)
  ultimately show ?thesis by (simp add: ValidateBearer_def auth_ext_def b carol_reply_def)
qed

lemma carol_expiry: "cache_expiry 1000 \<lparr>tt_issued = [], tt_expires = []\<rparr> > 1000"
  by (simp add: cache_expiry_def parseAuthTime_def one_day_def)

lemma carol_unknown: "run (userByToken ''n'') ex_world = (Inr None, ex_world)"
proof -
  have "run (db_query (token_user ''n'')) ex_world = (Inl ErrNoRows, ex_world)"
    by simp (simp add: ex_world_def ex_db_def ex_token_def token_user_def find_by_Cons)
  then show ?thesis by (simp add: userByToken_def)
qed

lemma carol_login: "is_ok (fst (run (Authenticate auth_ext ''h'' ''n'') ex_world))"
proof -
  have "is_ok (fst (run (store_me ''n'' carol_reply \<lparr>tt_issued = [], tt_expires = []\<rparr>) ex_world))"
    by (simp add: store_me_def loadOrCreateUserFromMe_def cacheBearerToken_def run_try_bind)
      (simp add: ex_world_def ex_db_def ex_rows carol_reply_def find_by_Cons ins_user_def stmt_def user_fits_def
        fits_def char_length_def fresh_def calm_def upsert_token_def ins_token_def token_fits_def has_user_def
        run_try_bind Let_def parseAuthTime_def one_day_def)
  moreover obtain r w where s: "run (store_me ''n'' carol_reply \<lparr>tt_issued = [], tt_expires = []\<rparr>) ex_world = (r, w)"
    by force
  moreover have "calm w" using store_me_calm[OF ex_calm s] .
  ultimately show ?thesis
    using carol_unknown carol_validated by (auto simp: Authenticate_def run_try_bind in_tx_def is_ok_iff)
qed

lemma login_is_cached_witness:
  "is_ok (fst (run (Authenticate ex_ext [] ''n'') (snd (run (Authenticate auth_ext ''h'' ''n'') ex_world))))"
proof -
  have ok: "db_ok (wdb ex_world)" and clock: "wclock ex_world = 1000" by (simp_all add: ex_world_def ex_db_ok)
  have exp: "cache_expiry (wclock ex_world) \<lparr>tt_issued = [], tt_expires = []\<rparr> > wclock ex_world"
    using carol_expiry by (simp add: clock)
  obtain u w where l: "run (Authenticate auth_ext ''h'' ''n'') ex_world = (Inr u, w)"
    using carol_login by (metis is_ok_iff prod.collapse)
  from login_is_cached[OF ex_calm ok carol_unknown carol_validated exp l] l show ?thesis by simp
qed

text \<open>
  A token longer than the 255 characters of its column never authenticates anybody, although
  uServer-Auth may accept it: the cached row cannot be stored, so the transaction fails.
\<close>

lemma long_tokens_never_authenticate:
  assumes "db_ok (wdb w)" and "\<not> fits 255 t"
  shows "\<not> is_ok (fst (run (Authenticate x base t) w))"
proof
  assume "is_ok (fst (run (Authenticate x base t) w))"
  then obtain u w' where r: "run (Authenticate x base t) w = (Inr u, w')" by (metis is_ok_iff prod.collapse)
  have no_row: "tok_token k \<noteq> t" if "k \<in> set (tokens d)" "db_ok d" for k d
    using that assms(2) by (auto simp: db_ok_def rows_ok_def list_all_iff token_fits_def)
  have "t \<noteq> []" using r by (auto simp: Authenticate_def split: if_splits)
  with r obtain c w1 where c: "run (userByToken t) w = (Inr c, w1)"
    and rest: "run (case c of Some u \<Rightarrow> ret (if \<not> u_active u then Inl ErrUnauthorized else Inr u)
      | None \<Rightarrow> (case ValidateBearer x base t of Inl _ \<Rightarrow> ret (Inl ErrUnauthorized)
        | Inr (me, tt) \<Rightarrow> in_tx (store_me t me tt))) w1 = (Inr u, w')"
    by (auto simp: Authenticate_def elim: try_bind_ok)
  have "c = None"
    using userByToken_Some[of t w _ w1] c no_row[OF _ assms(1)] by (cases c) (auto simp: cached_user_def)
  then obtain me tt where "run (in_tx (store_me t me tt)) w1 = (Inr u, w')"
    using rest by (auto split: sum.splits)
  then obtain w2 w3 where "same_state w1 w2" and s: "run (store_me t me tt) w2 = (Inr u, w3)"
    by (rule in_tx_ok)
  then have same: "wdb w2 = wdb w1" by (simp add: same_state_def)
  obtain v w4 where l: "run (loadOrCreateUserFromMe me) w2 = (Inr v, w4)"
    and k: "run (try_bind (cacheBearerToken (u_id v) t tt) (\<lambda>_. ret (Inr v))) w4 = (Inr u, w3)"
    using s unfolding store_me_def by (rule try_bind_ok)
  have "db_ok (wdb w2)"
    using same reads_same[OF userByToken_reads c] assms(1) by (simp add: same_state_def)
  then have ok: "db_ok (wdb w4)" using keeps_allD[OF auth_ok(2) _ l] by (simp add: on_db_def)
  from k obtain w5 where "run (cacheBearerToken (u_id v) t tt) w4 = (Inr (), w5)" by (auto elim: try_bind_ok)
  then obtain q where "(Inr (), wdb w5) = upsert_token q (wdb w4)" "tok_token q = t"
    by (auto simp: cacheBearerToken_def Let_def dest!: exec_ok)
  with no_row[OF _ ok] assms(2) show False
    by (auto simp: upsert_token_def ins_token_def stmt_def token_fits_def split: if_splits)
qed

lemma long_tokens_never_authenticate_witness:
  "\<not> is_ok (fst (run (Authenticate auth_ext ''h'' (replicate 300 CHR ''a'')) ex_world))"
proof -
  have "\<not> fits 255 (replicate 300 CHR ''a'')" by (simp add: fits_def char_length_def)
  moreover have "db_ok (wdb ex_world)" by (simp add: ex_world_def ex_db_ok)
  ultimately show ?thesis by (intro long_tokens_never_authenticate)
qed

section \<open>Times of tokens\<close>



end
