(* ===== verification/PropsFetch.thy ===== *)
theory PropsFetch
  imports Examples
begin

text \<open>
  Outbound requests, objects and pages: what an upload from a URL may connect to and how much it may
  store, where objects are kept, and what a client gets that follows the links of a listing.
\<close>

section \<open>Addresses\<close>

text \<open>
  C11: whatever URL a client gives and wherever redirects lead, every address a fetch connects to passes
  the address filter of the deployment, and there are at most as many connections as the redirect
  limit allows.
\<close>

theorem Get_dials_allowed_only:
  assumes "Get x e url = (addrs, r)"
  shows "length addrs \<le> maxRedir e \<and> (\<forall>a\<in>set addrs. \<not> blockedIP a (\<not> IsProduction e))"
proof (cases "check_url x e url")
  case (Inl er)
  with assms show ?thesis by (simp add: Get_def)
next
  case (Inr u)
  with assms have f: "follow x e (maxRedir e - 1) url = (addrs, r)" by (simp add: Get_def)
  have "Suc (maxRedir e - 1) = maxRedir e" by (simp add: maxRedir_def)
  with follow_length[OF f] follow_allowed[OF f] show ?thesis by auto
qed

definition fetch_ext :: ext where
  "fetch_ext = ex_ext\<lparr>x_url_parse := (\<lambda>u. Some (''https'', u, u)),
     x_lookup := (\<lambda>h. Inr [[8, 8, 8, 8]]), x_http := (\<lambda>u a. Inr (Redirect ''10.0.0.1''))\<rparr>"

definition fetch_env :: Env where
  "fetch_env = ex_env\<lparr>URLFetchAllowHTTP := False, URLFetchMaxRedirects := 8, EnvMode := ''development''\<rparr>"

lemma fetch_example: "Get fetch_ext fetch_env ''a'' = ([[8, 8, 8, 8]], Inl ErrURLNotAllowed)"
proof -
  have "\<not> EqualFold (TrimSpace ''development'') ''prod''" by code_simp
  then have e: "URLFetchAllowHTTP fetch_env = False" "maxRedir fetch_env = 8" "IsProduction fetch_env = False"
    by (simp_all add: fetch_env_def maxRedir_def IsProduction_def)
  have "validateFetchURL fetch_ext ''https'' ''a'' False True = Inr ()"
    "validateFetchURL fetch_ext ''https'' ''10.0.0.1'' False True = Inl ErrURLNotAllowed" by code_simp+
  then have c: "check_url fetch_ext fetch_env ''a'' = Inr ()" "check_url fetch_ext fetch_env ''10.0.0.1'' = Inl ErrURLNotAllowed"
    using e by (simp_all add: check_url_def) (simp_all add: fetch_ext_def)
  have d: "dial fetch_ext True (dial_host fetch_ext ''a'') = Inr [8, 8, 8, 8]" by code_simp
  show ?thesis
    using c d e by (simp add: Get_def follow.simps[of _ _ 7] follow.simps[of _ _ "Suc n" for n] numeral_eq_Suc)
      (simp add: fetch_ext_def)
qed

lemma Get_dials_allowed_only_witness: "\<not> blockedIP [8, 8, 8, 8] (\<not> IsProduction fetch_env)"
  using Get_dials_allowed_only[OF fetch_example] by simp

text \<open>
  What the filter lets through in production. An IPv4 address is refused exactly in the networks
  0/8, 10/8, 127/8, 169.254/16, 172.16/12, 192.168/16 and 224.0.0/24, and the IPv4-mapped form of an
  address is treated like the address itself, in production and elsewhere.
\<close>

lemma blockedIP_v4:
  assumes "length a = 4"
  shows "(blockedIP a False \<longleftrightarrow> a ! 0 \<in> {0, 10, 127} \<or> (a ! 0 = 169 \<and> a ! 1 = 254)
      \<or> (a ! 0 = 172 \<and> 16 \<le> a ! 1 \<and> a ! 1 \<le> 31) \<or> (a ! 0 = 192 \<and> a ! 1 = 168)
      \<or> (a ! 0 = 224 \<and> a ! 1 = 0 \<and> a ! 2 = 0))
    \<and> blockedIP (replicate 10 0 @ [255, 255] @ a) loop = blockedIP a loop"
proof -
  let ?m = "replicate 10 0 @ [255, 255] @ a"
  have t: "To4 a = Some a" "To4 ?m = Some a" using assms by (simp_all add: To4_def)
  obtain p q r s where a: "a = [p, q, r, s]"
    using assms by (auto simp: numeral_eq_Suc length_Suc_conv)
  have "q div 16 = 1 \<longleftrightarrow> 16 \<le> q \<and> q \<le> 31" by auto
  moreover have "[p, q, r, s] \<noteq> replicate 16 0" by (simp add: numeral_eq_Suc)
  ultimately have "blockedIP a False \<longleftrightarrow> a ! 0 \<in> {0, 10, 127} \<or> (a ! 0 = 169 \<and> a ! 1 = 254)
      \<or> (a ! 0 = 172 \<and> 16 \<le> a ! 1 \<and> a ! 1 \<le> 31) \<or> (a ! 0 = 192 \<and> a ! 1 = 168)
      \<or> (a ! 0 = 224 \<and> a ! 1 = 0 \<and> a ! 2 = 0)"
    unfolding a by (simp add: blockedIP_def IsLoopback_def IsPrivate_def IsLinkLocalUnicast_def
        IsLinkLocalMulticast_def IsUnspecified_def To4_def)
  moreover have "blockedIP ?m loop = blockedIP a loop"
  proof -
    have l: "length ?m = 16" "?m ! 0 = 0" "?m \<noteq> replicate 16 0" using assms by (simp_all add: numeral_eq_Suc)
    have "IsLoopback ?m = IsLoopback a" "IsPrivate ?m = IsPrivate a"
      "IsLinkLocalUnicast ?m = IsLinkLocalUnicast a" "IsLinkLocalMulticast ?m = IsLinkLocalMulticast a"
      unfolding IsLoopback_def IsPrivate_def IsLinkLocalUnicast_def IsLinkLocalMulticast_def t by simp_all
    moreover have "IsUnspecified ?m = IsUnspecified a"
      using l(3) assms unfolding IsUnspecified_def t by (auto dest: arg_cong[of _ _ length])
    ultimately show ?thesis using l(1,2) assms unfolding blockedIP_def t by simp
  qed
  ultimately show ?thesis by simp
qed

text \<open>The text of an IPv4 address, read back.\<close>

lemma nat_digits_hd: "0 < n \<Longrightarrow> hd (nat_digits n) \<noteq> CHR ''0''"
proof (induction n rule: nat_digits.induct)
  case (1 n)
  show ?case
  proof (cases "n < 10")
    case True
    then have "(of_char (hd (nat_digits n)) :: nat) = n + 48" by (subst nat_digits.simps) simp
    moreover have "(of_char (CHR ''0'') :: nat) = 48" by simp
    ultimately show ?thesis using 1(2) by (metis add_eq_self_zero add.commute less_numeral_extra(3))
  next
    case False
    then have "hd (nat_digits (n div 10)) \<noteq> CHR ''0''" using 1 by simp
    with False show ?thesis by (subst nat_digits.simps) simp
  qed
qed

lemma octet_digits: "n \<le> 255 \<Longrightarrow> octet (nat_digits n) = Some n"
proof (cases "n = 0")
  case True
  then show ?thesis by (simp add: octet_def nat_digits.simps digits_val_def digit_val_def is_digit_def)
next
  case False
  then show "n \<le> 255 \<Longrightarrow> octet (nat_digits n) = Some n"
    using nat_digits_digits[of n] nat_digits_hd[of n] by (simp add: octet_def digits_val_nat_digits)
qed

lemma nat_digits_chars: "c \<in> set (nat_digits n) \<Longrightarrow> is_digit c"
  using nat_digits_digits by (simp add: list_all_iff)

lemma nat_digits_no_dot: "CHR ''.'' \<notin> set (nat_digits n)"
  using nat_digits_chars[of "CHR ''.''" n] by (auto simp: is_digit_def)

lemma parseIPv4_dotted:
  "a \<le> 255 \<Longrightarrow> b \<le> 255 \<Longrightarrow> c \<le> 255 \<Longrightarrow> d \<le> 255 \<Longrightarrow> parseIPv4 (dotted a b c d) = Some [a, b, c, d]"
  by (simp add: parseIPv4_def dotted_def split_on_append_sep split_on_free nat_digits_no_dot octet_digits)

lemma dotted_chars: "k \<in> set (dotted a b c d) \<Longrightarrow> is_digit k \<or> k = CHR ''.''"
  by (auto simp: dotted_def dest: nat_digits_chars)

lemma ParseIP_dotted:
  assumes "a \<le> 255" "b \<le> 255" "c \<le> 255" "d \<le> 255"
  shows "ParseIP (dotted a b c d) = Some (mapped [a, b, c, d])"
proof -
  let ?P = "\<lambda>k. k \<in> {CHR ''.'', CHR '':'', CHR ''%''}"
  have no: "CHR ''%'' \<notin> set (dotted a b c d)" "CHR '':'' \<notin> set (dotted a b c d)"
    using dotted_chars[of "CHR ''%''" a b c d] dotted_chars[of "CHR '':''" a b c d] by (auto simp: is_digit_def)
  have "CHR ''.'' \<in> set (dotted a b c d)" by (simp add: dotted_def)
  then have "find ?P (dotted a b c d) \<noteq> None" by (auto simp: find_None_iff)
  then obtain k where k: "find ?P (dotted a b c d) = Some k" by blast
  then have "k \<in> set (dotted a b c d)" "?P k" by (auto simp: find_Some_iff) (metis nth_mem)+
  with no have "k = CHR ''.''" by auto
  with k no(1) show ?thesis by (simp add: ParseIP_def parseIPv4_dotted assms)
qed

lemma dotted_no_name:
  assumes "k \<in> set p" "\<not> is_digit k" "k \<noteq> CHR ''.''"
  shows "\<not> HasSuffix (dotted a b c d) p" "dotted a b c d \<noteq> p"
  using assms dotted_chars[of k a b c d] by (auto simp: HasSuffix_iff)

lemma dotted_lower: "ToLower (dotted a b c d) = dotted a b c d"
proof -
  have "lower_char k = k" if "is_digit k \<or> k = CHR ''.''" for k
    using that by (auto simp: lower_char_def is_digit_def Let_def)
  with dotted_chars show ?thesis by (auto simp: ToLower_def intro!: map_idI)
qed

text \<open>
  C12: an address written out is filtered without asking the resolver. In production the client refuses
  to dial it exactly in the networks 0/8, 10/8, 127/8, 169.254/16, 172.16/12, 192.168/16 and
  224.0.0/24, and otherwise connects to that very address.
\<close>

theorem dial_dotted:
  assumes "a \<le> 255" "b \<le> 255" "c \<le> 255" "d \<le> 255"
  shows "dial x False (dotted a b c d) =
    (if a \<in> {0, 10, 127} \<or> (a = 169 \<and> b = 254) \<or> (a = 172 \<and> 16 \<le> b \<and> b \<le> 31) \<or> (a = 192 \<and> b = 168)
        \<or> (a = 224 \<and> b = 0 \<and> c = 0)
     then Inl ErrURLNotAllowed else Inr (mapped [a, b, c, d]))"
proof -
  let ?h = "dotted a b c d"
  have P: "ParseIP ?h = Some (mapped [a, b, c, d])" using assms by (rule ParseIP_dotted)
  have B: "blockedIP (mapped [a, b, c, d]) False \<longleftrightarrow> a \<in> {0, 10, 127} \<or> (a = 169 \<and> b = 254)
      \<or> (a = 172 \<and> 16 \<le> b \<and> b \<le> 31) \<or> (a = 192 \<and> b = 168) \<or> (a = 224 \<and> b = 0 \<and> c = 0)"
    using blockedIP_v4[of "[a, b, c, d]" False] by (simp add: mapped_def)
  have names: "?h \<noteq> ''localhost''" "?h \<noteq> ''::1''" "?h \<noteq> ''metadata.google.internal''"
    "\<not> HasSuffix ?h ''.metadata.google.internal''" "\<not> HasSuffix ?h ''.local''"
    "\<not> HasSuffix ?h ''.localhost''" "\<not> HasSuffix ?h ''.internal''"
    by (rule dotted_no_name[of "CHR ''l''"] dotted_no_name[of "CHR '':''"]; simp add: is_digit_def)+
  have "''127.0.0.1'' = dotted 127 0 0 1" "''0.0.0.0'' = dotted 0 0 0 0" by code_simp+
  then have "ParseIP ''127.0.0.1'' = Some (mapped [127, 0, 0, 1])" "ParseIP ''0.0.0.0'' = Some (mapped [0, 0, 0, 0])"
    by (simp_all add: ParseIP_dotted)
  with P have local: "?h = ''127.0.0.1'' \<Longrightarrow> a = 127" "?h = ''0.0.0.0'' \<Longrightarrow> a = 0" by (auto simp: mapped_def)
  show ?thesis
  proof (cases "?h = ''127.0.0.1'' \<or> ?h = ''0.0.0.0''")
    case True
    then have "validateHostname ?h False = Inl ErrURLNotAllowed"
      using names by (simp add: validateHostname_def dotted_lower Let_def)
    moreover have "a \<in> {0, 127}" using True local by blast
    ultimately show ?thesis by (auto simp: dial_def)
  next
    case False
    then have "validateHostname ?h False = Inr ()" using names by (simp add: validateHostname_def dotted_lower)
    with P B show ?thesis by (simp add: dial_def)
  qed
qed

lemma dial_dotted_witness:
  "dial ex_ext False (dotted 169 254 169 254) = Inl ErrURLNotAllowed
   \<and> dial ex_ext False (dotted 8 8 8 8) = Inr (mapped [8, 8, 8, 8])"
  using dial_dotted[of 169 254 169 254 ex_ext] dial_dotted[of 8 8 8 8 ex_ext] by simp

section \<open>The size cap\<close>



section \<open>Objects\<close>

text \<open>
  C28: an object that was put is read back byte for byte, no other object changes, and after a deletion
  it cannot be read any more, on the local disk and on S3.
\<close>

theorem objects_round_trip:
  assumes "calm w" and "run (Put be p (Reader d None) size' ct) w = (Inr (), w1)"
    and "run (Delete be p) w1 = (r, w2)"
  shows "fst (run (Open be p) w1) = Inr d \<and> \<not> is_ok (fst (run (Open be p) w2))
    \<and> (blob_at be q = blob_at be p \<or> (fst (run (Open be q) w1) = fst (run (Open be q) w)
        \<and> fst (run (Open be q) w2) = fst (run (Open be q) w)))"
proof -
  obtain b1 where p: "put_stmt be p (Reader d None) size' ct (wblobs w) = (Inr (), b1)" "w1 = w\<lparr>wblobs := b1\<rparr>"
    using assms(1,2) by (auto simp: Put_def prod_eq_iff)
  obtain x b2 where d: "delete_stmt be p b1 = (x, b2)" by force
  then have w2: "w2 = w\<lparr>wblobs := b2\<rparr>" using assms(1,3) p(2) by (auto simp: Delete_def)
  have "open_stmt be p b1 = Inr d" using backend.put_ok[OF p(1)] by simp
  moreover have "\<not> is_ok (open_stmt be p b2)" by (rule backend.put_del_gone[OF p(1) d])
  moreover have "blob_at be q \<noteq> blob_at be p \<Longrightarrow> open_stmt be q b1 = open_stmt be q (wblobs w)
      \<and> open_stmt be q b2 = open_stmt be q (wblobs w)"
    using backend.put_frame[OF _ p(1), of q] backend.put_del_frame[OF p(1) d, of q] by metis
  ultimately show ?thesis using assms(1) p(2) w2 by (auto simp: Open_def simp del: open_stmt.simps)
qed

lemma objects_round_trip_witness:
  "fst (run (Open (S3Backend ''b'' ''r'') ''k'') (snd (run (Put (S3Backend ''b'' ''r'') ''k'' (Reader ''abc'' None) (-1) []) ex_world)))
     = Inr ''abc''"
proof -
  have 1: "run (Put (S3Backend ''b'' ''r'') ''k'' (Reader ''abc'' None) (-1) []) ex_world
      = (Inr (), snd (run (Put (S3Backend ''b'' ''r'') ''k'' (Reader ''abc'' None) (-1) []) ex_world))"
    by (simp add: Put_def)
  from objects_round_trip[OF ex_calm 1 surjective_pairing] show ?thesis by simp
qed

text \<open>
  No path escapes the root folder of an S3 storage: every key is the root folder followed by
  components none of which is empty, a dot or two dots.
\<close>

theorem s3_key_below_root:
  "\<exists>cs. blob_at (S3Backend bucket folder) p
      = S3Key bucket (if folder \<noteq> [] then folder @ ''/'' @ join_slash cs else join_slash cs)
    \<and> list_all (\<lambda>c. c \<noteq> [] \<and> c \<noteq> ''.'' \<and> c \<noteq> ''..'' \<and> CHR ''/'' \<notin> set c) cs"
  using s3_key_below[of folder p] by (auto simp: list_all_iff tidy_def)

lemma clean_comps_updir:
  "plain i \<Longrightarrow> clean_comps rooted acc (cs @ [i, ''..'']) = clean_comps rooted acc cs"
  by (induction cs arbitrary: acc) (auto simp: plain_def)

lemma local_abs_updir:
  assumes "plain i" and "folder = CHR ''/'' # rest"
  shows "local_abs folder (i @ ''/..'') = path_Clean folder"
proof -
  obtain c cs where i: "i = c # cs" "c \<noteq> CHR ''/''" using assms(1) by (cases i) (auto simp: plain_def)
  have "split_on (CHR ''/'') (folder @ CHR ''/'' # (i @ CHR ''/'' # ''..'')) = split_on (CHR ''/'') folder @ [i, ''..'']"
    using split_on_append_sep[of "CHR ''/''" folder "i @ CHR ''/'' # ''..''"]
      split_on_append_sep[of "CHR ''/''" i "''..''"] split_on_free[of "CHR ''/''" i] assms(1)
    by (simp add: plain_def split_on_free)
  with i clean_comps_updir[OF assms(1)] assms(2) show ?thesis
    by (simp add: local_abs_def filepath_Join_def path_Clean_def TrimLeft_def Let_def
        del: split_on.simps)
qed

text \<open>
  The object of an upload to a local storage lies in a folder of its own below the storage's root,
  unless its file name is two dots: then its path is the root folder itself.
\<close>

lemma local_upload_path:
  assumes "plain ident" and "folder = CHR ''/'' # rest" and "path_Clean folder \<noteq> ''/''"
  shows "(plain name \<longrightarrow> blob_at (LocalBackend folder) (TrimPrefix (''/'' @ ident @ ''/'' @ name) ''/'')
      = LocalPath (path_Clean folder @ ''/'' @ ident @ ''/'' @ name))
    \<and> blob_at (LocalBackend folder) (TrimPrefix (''/'' @ ident @ ''/..'') ''/'') = LocalPath (path_Clean folder)"
proof
  have "TrimPrefix (''/'' @ s) ''/'' = s" for s by (simp add: TrimPrefix_def)
  note trim = this
  show "plain name \<longrightarrow> blob_at (LocalBackend folder) (TrimPrefix (''/'' @ ident @ ''/'' @ name) ''/'')
      = LocalPath (path_Clean folder @ ''/'' @ ident @ ''/'' @ name)"
    using local_abs_below[of "[ident, name]" folder rest] assms trim by simp
  show "blob_at (LocalBackend folder) (TrimPrefix (''/'' @ ident @ ''/..'') ''/'') = LocalPath (path_Clean folder)"
    using local_abs_updir[OF assms(1,2)] trim[of "ident @ ''/..''"] by simp
qed

lemma local_upload_path_witness:
  "blob_at (LocalBackend ''/srv/'') (TrimPrefix (''/'' @ ''id'' @ ''/'' @ ''a.txt'') ''/'')
     = LocalPath (path_Clean ''/srv/'' @ ''/id/a.txt'')"
proof -
  have "plain ''id''" "plain ''a.txt''" "path_Clean ''/srv/'' \<noteq> ''/''" by code_simp+
  with local_upload_path[of "''id''" "''/srv/''" "''srv/''" "''a.txt''"] show ?thesis by simp
qed

section \<open>Pages\<close>

lemma next_page:
  assumes "CHR ''?'' \<notin> set (rq_path rq)" and "0 \<le> k" and "int (length rows) + 500 \<le> max_int64" and "k \<le> int (length rows)"
    and "paginate rq = (l, k)" and "L = (if l \<le> 0 then 100 else l)" and "L \<le> max_int64 - int (length rows)"
  shows "ln_next (pageLinks rq (int (length rows)) l k)
      = (if k + L < int (length rows) then page_href (rq_path rq) L (k + L) else [])"
    and "k + L < int (length rows) \<Longrightarrow> paginate (rq\<lparr>rq_query := link_query (page_href (rq_path rq) L (k + L))\<rparr>) = (L, k + L)"
proof -
  have L: "1 \<le> L" using assms(6) by (auto split: if_splits)
  then have "in_int64 (k + L)" "in_int64 L"
    using assms(2,4,7) by (auto simp: in_int64_def min_int64_def max_int64_def)
  then show "ln_next (pageLinks rq (int (length rows)) l k)
      = (if k + L < int (length rows) then page_href (rq_path rq) L (k + L) else [])"
    "k + L < int (length rows) \<Longrightarrow> paginate (rq\<lparr>rq_query := link_query (page_href (rq_path rq) L (k + L))\<rparr>) = (L, k + L)"
    using assms(6) paginate_href[OF _ _ assms(1)] by (simp_all add: pageLinks_def Let_def wrap64_id)
qed

lemma page_href_nonempty: "page_href p l k \<noteq> []"
  by (simp add: page_href_def)

lemma crawl_from:
  assumes "int (length rows) + 500 \<le> max_int64"
  shows "CHR ''?'' \<notin> set (rq_path rq) \<Longrightarrow> 0 \<le> k \<Longrightarrow> k \<le> int (length rows) \<Longrightarrow> paginate rq = (l, k) \<Longrightarrow> l \<le> 500
    \<Longrightarrow> length rows < fuel + nat k \<Longrightarrow> crawl fuel rq rows = drop (nat k) rows"
proof (induction fuel arbitrary: rq k l)
  case 0
  then show ?case by simp
next
  case (Suc fuel)
  let ?n = "int (length rows)"
  define L where "L = (if l \<le> 0 then 100 else l)"
  have L: "clamp_limit l = L" "1 \<le> L" "L \<le> 500" "clamp_offset k = k"
    using Suc.prems(2,5) by (simp_all add: clamp_limit_def clamp_offset_def L_def)
  have glue: "take n (drop m rows) @ drop (n + m) rows = drop m rows" for n m
    by (metis append_take_drop_id drop_drop)
  note nx = next_page[OF Suc.prems(1,2) assms Suc.prems(3,4) L_def order_trans[OF L(3)]]
  have page: "limit_offset L k rows = take (nat L) (drop (nat k) rows)" by (simp add: limit_offset_def)
  show ?case
  proof (cases "k + L < ?n")
    case True
    let ?rq = "rq\<lparr>rq_query := link_query (page_href (rq_path rq) L (k + L))\<rparr>"
    have "crawl fuel ?rq rows = drop (nat (k + L)) rows"
      using True Suc.prems L nx(2) assms by (intro Suc.IH[of ?rq "k + L" L]) auto
    moreover have "drop (nat (k + L)) rows = drop (nat L) (drop (nat k) rows)"
      using Suc.prems(2) L(2) by (simp add: nat_add_distrib add.commute)
    ultimately show ?thesis
      using True Suc.prems(4) L(1,4) nx(1) assms page by (simp add: page_href_nonempty glue)
  next
    case False
    then have "length (drop (nat k) rows) \<le> nat L" using Suc.prems(2) L(2) by (simp; linarith)
    then show ?thesis using False Suc.prems(4) L(1,4) nx(1) assms page by simp
  qed
qed

text \<open>
  C30: a client that asks for pages of at most 500 rows, or for none in particular, and follows the
  next links until there is none gets every row of the listing once, in order, after at most one
  request per row and one more.
\<close>

theorem pages_complete:
  assumes "paginate rq = (l, 0)" and "l \<le> 500" and "CHR ''?'' \<notin> set (rq_path rq)"
    and "int (length rows) + 500 \<le> max_int64"
  shows "crawl (Suc (length rows)) rq rows = rows"
  using crawl_from[OF assms(4,3) _ _ assms(1,2), of "Suc (length rows)"] by simp

lemma pages_complete_witness:
  "crawl (Suc (length [1, 2, 3, 4 :: int])) (ex_request ''GET'' []) [1, 2, 3, 4 :: int] = [1, 2, 3, 4]"
proof -
  have "paginate (ex_request ''GET'' []) = (0, 0)" by code_simp
  then show ?thesis by (rule pages_complete) (simp_all add: ex_request_def max_int64_def)
qed

text \<open>
  A client that asks for more than 500 rows a page gets the first 100 and no next link, although
  there are more: the listing falls back to pages of 100, the links do not.
\<close>

lemma large_pages_lose_rows:
  assumes "paginate rq = (l, 0)" and "500 < l" and "CHR ''?'' \<notin> set (rq_path rq)"
    and "int (length rows) \<le> l" and "l \<le> max_int64"
  shows "crawl (Suc fuel) rq rows = take 100 rows"
  using assms by (simp add: clamp_limit_def clamp_offset_def limit_offset_def pageLinks_def Let_def
      wrap64_id in_int64_def min_int64_def)

lemma large_pages_lose_rows_witness:
  "crawl 200 ((ex_request ''GET'' [])\<lparr>rq_query := ''limit=1000''\<rparr>) [1..150 :: int] = take 100 [1..150]"
proof -
  have "paginate ((ex_request ''GET'' [])\<lparr>rq_query := ''limit=1000''\<rparr>) = (1000, 0)" by code_simp
  from large_pages_lose_rows[OF this, of "[1..150 :: int]" 199] show ?thesis
    by (simp add: ex_request_def max_int64_def del: crawl.simps upto.simps)
qed

end
