(* ===== verification/PropsUpload.thy ===== *)
theory PropsUpload
  imports PropsLifecycle
begin

text \<open>
  Uploads: what a client told 201 may rely on, whatever faults happened on the way, and what a failed
  upload leaves behind when the database and the object store work.
\<close>

section \<open>Frames\<close>

lemma on_error_simps: "on_error (Inr v) f h = h v" "on_error (Inl e) f h = f e"
  by (simp_all add: on_error_def)

lemma keeps_files_blobs:
  "keeps_all (\<lambda>w. wblobs w = B) new_uuid" "keeps_all (\<lambda>w. wblobs w = B) (db_query q)"
  "keeps_all (\<lambda>w. wblobs w = B) (db_exec q')"
  by (simp_all add: keeps_all_def db_query_def db_exec_def next_fault_def
      split: list.splits option.splits prod.splits)

lemma enqueue_files: "files (snd (enqueue_stmt i s f t d)) = files d"
  by (simp add: enqueue_stmt_def ins_job_def stmt_def)

lemma enqueue_frame:
  assumes "run (maybeEnqueueMedia e sid fo) w = (r, w')"
  shows "files (wdb w') = files (wdb w) \<and> wblobs w' = wblobs w"
proof -
  have "keeps_all (on_db (\<lambda>d. files d = F)) (maybeEnqueueMedia e sid fo)" for F
    unfolding maybeEnqueueMedia_def EnqueueMediaProcessing_def
    by (intro keeps keeps_db_exec reads_keeps media_reads) (simp add: enqueue_files)
  moreover have "keeps_all (\<lambda>w. wblobs w = B) (maybeEnqueueMedia e sid fo)" for B
    unfolding maybeEnqueueMedia_def EnqueueMediaProcessing_def StorageMediaExistsForFile_def
    by (intro keeps keeps_files_blobs)
  ultimately show ?thesis
    using assms by (auto simp: keeps_all_def on_db_def) (metis snd_conv)+
qed

section \<open>The end of an upload\<close>

definition published :: "StorageFile \<Rightarrow> int \<Rightarrow> int \<Rightarrow> StorageFile \<Rightarrow> StorageFile" where
  "published frow n t r = r\<lparr>sf_status := ''PUBLISHED'', sf_size := n,
     sf_real_path := nullString (ns_str (sf_real_path frow)),
     sf_virt_path := nullString (ns_str (sf_virt_path frow)), sf_hash := None,
     sf_type_id := sf_type_id frow, sf_updated_at := Some t\<rparr>"

lemma publish_ok:
  assumes "run (UpdateFilePathsAndStatus i ''PUBLISHED'' n rp vp [] mt) w = (Inr v, w')"
  shows "wblobs w' = wblobs w \<and> files (wdb w') = upd_where (\<lambda>r. sf_id r = i)
    (\<lambda>r. r\<lparr>sf_status := ''PUBLISHED'', sf_size := n, sf_real_path := nullString rp,
           sf_virt_path := nullString vp, sf_hash := None, sf_type_id := mt,
           sf_updated_at := Some (wclock w)\<rparr>) (files (wdb w))"
  using assms unfolding UpdateFilePathsAndStatus_def
  by (auto elim!: try_bind_ok dest!: exec_ok simp: upd_files_def stmt_def nullString_def split: if_splits)

lemma finish_201:
  assumes "run (finish_upload x e st frow sid u body putSize n ct) w = (resp, w')" and "rs_status resp = 201"
  shows "\<exists>be. storage_backend x e st = Inr be \<and> rd_err body = None
    \<and> open_stmt be (ns_str (sf_real_path frow)) (wblobs w') = Inr (rd_bytes body)
    \<and> files (wdb w') = upd_where (\<lambda>r. sf_id r = sf_id frow) (published frow n (wclock w)) (files (wdb w))"
proof -
  let ?fail = "\<lambda>er. do { rollbackUploadingFile x e st frow; server_error er }"
  have fail: "(case run (rollbackUploadingFile x e st frow) w1 of (a, s) \<Rightarrow> run (server_error er) s) = (resp, w2)
      \<Longrightarrow> False" for er w1 w2
    using assms(2) by (auto simp: server_error_def split: prod.splits)
  note step = on_error_cases run_bind_obtain
  from assms(1) obtain be where be: "storage_backend x e st = Inr be"
    and r1: "run (do {
        r \<leftarrow> Put be (ns_str (sf_real_path frow)) body putSize ct;
        on_error r ?fail (\<lambda>_. do {
          r \<leftarrow> UpdateFilePathsAndStatus (sf_id frow) ''PUBLISHED'' n (ns_str (sf_real_path frow))
            (ns_str (sf_virt_path frow)) [] (sf_type_id frow);
          on_error r ?fail (\<lambda>_. do {
            out \<leftarrow> GetFile sid (sf_id frow) False True (u_id u);
            maybeEnqueueMedia e sid (ok_opt out);
            reply 201 (PFile (ok_opt out))})})}) w = (resp, w')"
    unfolding finish_upload_def Let_def by (elim on_error_cases) (auto dest: fail)
  from r1 obtain p w1 where p: "run (Put be (ns_str (sf_real_path frow)) body putSize ct) w = (p, w1)"
    and r2: "run (on_error p ?fail (\<lambda>_. do {
          r \<leftarrow> UpdateFilePathsAndStatus (sf_id frow) ''PUBLISHED'' n (ns_str (sf_real_path frow))
            (ns_str (sf_virt_path frow)) [] (sf_type_id frow);
          on_error r ?fail (\<lambda>_. do {
            out \<leftarrow> GetFile sid (sf_id frow) False True (u_id u);
            maybeEnqueueMedia e sid (ok_opt out);
            reply 201 (PFile (ok_opt out))})})) w1 = (resp, w')" by (rule run_bind_obtain)
  from r2 obtain v where v: "p = Inr v" and r3: "run (do {
          r \<leftarrow> UpdateFilePathsAndStatus (sf_id frow) ''PUBLISHED'' n (ns_str (sf_real_path frow))
            (ns_str (sf_virt_path frow)) [] (sf_type_id frow);
          on_error r ?fail (\<lambda>_. do {
            out \<leftarrow> GetFile sid (sf_id frow) False True (u_id u);
            maybeEnqueueMedia e sid (ok_opt out);
            reply 201 (PFile (ok_opt out))})}) w1 = (resp, w')" by (elim on_error_cases) (auto dest: fail)
  note put = put_ok[OF p[unfolded v]]
  from r3 obtain q w2 where q: "run (UpdateFilePathsAndStatus (sf_id frow) ''PUBLISHED'' n (ns_str (sf_real_path frow))
            (ns_str (sf_virt_path frow)) [] (sf_type_id frow)) w1 = (q, w2)"
    and r4: "run (on_error q ?fail (\<lambda>_. do {
            out \<leftarrow> GetFile sid (sf_id frow) False True (u_id u);
            maybeEnqueueMedia e sid (ok_opt out);
            reply 201 (PFile (ok_opt out))})) w2 = (resp, w')" by (rule run_bind_obtain)
  from r4 obtain v2 where v2: "q = Inr v2" and r5: "run (do {
            out \<leftarrow> GetFile sid (sf_id frow) False True (u_id u);
            maybeEnqueueMedia e sid (ok_opt out);
            reply 201 (PFile (ok_opt out))}) w2 = (resp, w')" by (elim on_error_cases) (auto dest: fail)
  note pub = publish_ok[OF q[unfolded v2]]
  from r5 obtain out w3 where g: "run (GetFile sid (sf_id frow) False True (u_id u)) w2 = (out, w3)"
    and r6: "run (maybeEnqueueMedia e sid (ok_opt out)) w3 = ((), w')"
    by (auto split: prod.splits)
  have "files (wdb w') = files (wdb w2)" "wblobs w' = wblobs w2"
    using enqueue_frame[OF r6] reads_same[OF file_reads(5) g] by (simp_all add: same_state_def)
  with be put pub show ?thesis by (simp add: published_def[abs_def])
qed

lemma insert_ok:
  assumes "run (InsertFile f) w = (Inr v, w')"
  shows "files (wdb w') = files (wdb w) @ [new_file_row (wclock w) f] \<and> fresh sf_id f (files (wdb w))
    \<and> wblobs w' = wblobs w \<and> wclock w' = wclock w"
  using exec_ok[OF assms[unfolded InsertFile_def]]
  by (auto simp: ins_file_def stmt_def fresh_def new_file_row_def split: if_splits)

section \<open>What 201 promises\<close>

text \<open>The upload stored: its row is new and published, and its object holds the bytes.\<close>

definition stored_upload :: "ext \<Rightarrow> Env \<Rightarrow> world \<Rightarrow> world \<Rightarrow> uuid \<Rightarrow> uuid \<Rightarrow> string \<Rightarrow> bool" where
  "stored_upload x e w w' sid u bytes \<longleftrightarrow> (\<exists>f\<in>set (files (wdb w')). \<exists>st\<in>set (storages (wdb w)). \<exists>be p.
     st_id st = sid \<and> sf_id f \<notin> sf_id ` set (files (wdb w)) \<and> sf_storage f = sid \<and> sf_owner_id f = Some u
     \<and> sf_status f = ''PUBLISHED'' \<and> \<not> sf_excluded f \<and> sf_size f = int (length bytes) \<and> sf_real_path f = Some p
     \<and> storage_backend x e st = Inr be \<and> open_stmt be p (wblobs w') = Inr bytes)"

lemma mime_reads: "reads (FindMimeByExtension e)"
  by (rule file_reads)

text \<open>From the inserted row to the published one.\<close>

lemma stored_from_finish:
  assumes "files (wdb w1) = files (wdb w)" and "run (InsertFile frow) w1 = (Inr v, w2)"
    and "run (finish_upload x e st frow sid us (Reader bytes er) putSize (int (length bytes)) ct) w2 = (resp, w')"
    and "rs_status resp = 201"
    and "sf_storage frow = sid" "sf_owner_id frow = Some u" "\<not> sf_excluded frow"
      "sf_real_path frow = Some p" "p \<noteq> []"
    and st: "\<exists>s\<in>set (storages (wdb w)). st_id s = sid \<and> storage_backend x e s = storage_backend x e st"
  shows "er = None \<and> stored_upload x e w w' sid u bytes"
proof -
  let ?row = "published frow (int (length bytes)) (wclock w2) (new_file_row (wclock w1) frow)"
  obtain be where be: "storage_backend x e st = Inr be" "er = None" "open_stmt be p (wblobs w') = Inr bytes"
    and f: "files (wdb w') = upd_where (\<lambda>r. sf_id r = sf_id frow) (published frow (int (length bytes)) (wclock w2)) (files (wdb w2))"
    using finish_201[OF assms(3,4)] assms(8) by auto
  obtain s where s: "s \<in> set (storages (wdb w))" "st_id s = sid" "storage_backend x e s = Inr be"
    using st be(1) by auto
  note i = insert_ok[OF assms(2)]
  have "?row \<in> set (files (wdb w'))"
    using i by (auto simp: f set_upd_where new_file_row_def)
  moreover have "sf_id ?row \<notin> sf_id ` set (files (wdb w))"
    using i assms(1) by (auto simp: fresh_def published_def new_file_row_def)
  ultimately show ?thesis
    unfolding stored_upload_def using be s assms(5-9)
    by (intro conjI bexI[of _ ?row] bexI[of _ s] exI[of _ be] exI[of _ p])
      (auto simp: published_def new_file_row_def bare_def nullString_def)
qed

text \<open>
  C5: whatever faults happen, a client whose form upload is answered 201 is an administrator or has an
  access row with write permission, and its file is stored: a new, published row of its own in the
  storage, of the file's size, whose object reads back as the uploaded bytes.
\<close>

theorem uploadMultipart_stores:
  assumes "run (uploadMultipart x e rq us) w = (resp, w')" and "rs_status resp = 201"
  shows "\<exists>sid fh. x_uuid_parse x (rq_param rq ''storageID'') = Some sid \<and> rq_file rq = Some fh
    \<and> (u_admin us \<or> (\<exists>s\<in>set (storage_users (wdb w)). su_storage s = sid \<and> su_user s = u_id us \<and> su_may_write s))
    \<and> stored_upload x e w w' sid (u_id us) (uf_bytes fh)"
proof -
  obtain sid where sid: "x_uuid_parse x (rq_param rq ''storageID'') = Some sid"
    using assms by (auto simp: uploadMultipart_def with_id_def split: option.splits)
  obtain ok w1 where m: "run (StorageUserMayWrite sid (u_id us)) w = (ok, w1)" by force
  note m = may_write_ok[OF m] and mr = m
  have ok: "or_false ok \<or> u_admin us"
    using assms sid mr by (auto simp: uploadMultipart_def with_id_def forbidden_def split: if_splits)
  obtain r w2 where g: "run (GetStorage sid) w1 = (r, w2)" by force
  have s2: "wdb w2 = wdb w"
    using m reads_same[OF data_reads(2) g] by (simp add: same_state_def)
  obtain st where st: "r = Inr st"
    using assms sid mr g ok by (cases r) (auto simp: uploadMultipart_def with_id_def on_error_def)
  obtain fh where fh: "rq_file rq = Some fh" "uf_open_err fh = None"
    using assms sid mr g ok st
    by (auto simp: uploadMultipart_def with_id_def on_error_def split: option.splits)
  let ?i = "wdraws w2 (wdrawn w2)" and ?w3 = "w2\<lparr>wdrawn := Suc (wdrawn w2)\<rparr>"
  obtain sig w4 where sig: "run randomSig ?w3 = (sig, w4)" by force
  let ?ext = "extension_of (uf_name fh)" and ?vp = "''/'' @ x_uuid_string x ?i @ ''/'' @ uf_name fh"
  obtain mt w5 where mt: "run (FindMimeByExtension ?ext) w4 = (mt, w5)" by force
  let ?f = "local_upload_row ?i sig sid (u_id us) (uf_name fh) ?ext ?vp (mime_id mt)"
  obtain ins w6 where ins: "run (InsertFile ?f) w5 = (ins, w6)" by force
  have s5: "files (wdb w5) = files (wdb w)"
    using s2 randomSig_frame[OF sig] reads_same[OF mime_reads mt] by (simp add: same_state_def)
  have run: "run (on_error ins server_error (\<lambda>_. finish_upload x e st ?f sid us (Reader (uf_bytes fh) None)
      (int (length (uf_bytes fh))) (int (length (uf_bytes fh))) (content_type (uf_type fh)))) w6 = (resp, w')"
    using assms(1) sid mr g ok st fh sig mt ins
    by (auto simp: uploadMultipart_def with_id_def on_error_simps st Let_def)
  then obtain v where v: "ins = Inr v" using assms(2) by (cases ins) (auto simp: on_error_def server_error_def)
  with run have fin: "run (finish_upload x e st ?f sid us (Reader (uf_bytes fh) None)
      (int (length (uf_bytes fh))) (int (length (uf_bytes fh))) (content_type (uf_type fh))) w6 = (resp, w')"
    by (simp add: on_error_def)
  have known: "\<exists>s\<in>set (storages (wdb w)). st_id s = sid \<and> storage_backend x e s = storage_backend x e st"
    using GetStorage_ok[OF g[unfolded st]] m by (simp add: same_state_def)
  have "stored_upload x e w w' sid (u_id us) (uf_bytes fh)"
    using known stored_from_finish[OF s5 ins[unfolded v] fin assms(2), of "u_id us" "x_uuid_string x ?i @ ''/'' @ uf_name fh"]
    by (simp add: local_upload_row_def blank_file_def TrimPrefix_def)
  with sid fh ok m show ?thesis by auto
qed

lemma follow_answers: "follow x e left url = (addrs, Inr a) \<Longrightarrow> \<exists>s ct b. a = Answer s ct b"
proof (induction left arbitrary: url addrs)
  case 0
  then show ?case by (auto simp: follow.simps[of _ _ 0] split: sum.splits answer.splits)
next
  case (Suc left)
  then show ?case
    by (fastforce simp: follow.simps[of _ _ "Suc left"] split: sum.splits answer.splits prod.splits)
qed

lemma Get_answers: "snd (Get x e url) = Inr a \<Longrightarrow> \<exists>s ct b. a = Answer s ct b"
  by (cases "check_url x e url"; cases "follow x e (maxRedir e - 1) url")
    (auto simp: Get_def dest: follow_answers)

text \<open>A copy that ends without an error has read the whole body.\<close>

lemma capped_whole:
  assumes "capped_copy cap s = (d, None, n)"
  shows "d = so_rest s \<and> n = int (length d) \<and> n \<le> cap \<and> so_err s = None"
proof (cases "0 < cap")
  case True
  from capped_copy_result[OF this, of s] assms show ?thesis
    by (auto simp: cap_end_def Let_def split: if_splits)
next
  case False
  then have "capped_copy cap s = ([], Some (Err ''urlfetch: Max must be positive''), 0)"
    by (simp add: capped_copy_def capped_read_def numeral_2_eq_2)
  with assms show ?thesis by simp
qed

lemma stored_url_upload:
  assumes "files (wdb w1) = files (wdb w)" and "run (InsertFile frow) w1 = (Inr v, w2)"
    and "run (putStreamURLUpload x e st frow status ct src sid us) w2 = (resp, w')" and "rs_status resp = 201"
    and row: "sf_storage frow = sid" "sf_owner_id frow = Some (u_id us)" "\<not> sf_excluded frow"
      "sf_real_path frow = Some p" "p \<noteq> []"
    and known: "\<exists>s\<in>set (storages (wdb w)). st_id s = sid \<and> storage_backend x e s = storage_backend x e st"
  shows "status = 200 \<and> int (length (so_rest src)) \<le> URLFetchMaxBytes e \<and> so_err src = None
    \<and> stored_upload x e w w' sid (u_id us) (so_rest src)"
proof -
  have st: "status = 200"
    using assms(3,4) by (auto simp: putStreamURLUpload_def split: if_splits prod.splits)
  obtain d er n where c: "capped_copy (URLFetchMaxBytes e) src = (d, er, n)" by (metis prod_cases3)
  have f: "run (finish_upload x e st frow sid us (Reader d er) (-1) n (content_type ct)) w2 = (resp, w')"
    using assms(3) st c by (simp add: putStreamURLUpload_def)
  from finish_201[OF f assms(4)] have er: "er = None" by auto
  with capped_whole c have whole: "d = so_rest src" "n = int (length d)" "n \<le> URLFetchMaxBytes e" "so_err src = None"
    by blast+
  from stored_from_finish[OF assms(1,2) f[unfolded whole(2)] assms(4) row known] st whole show ?thesis by simp
qed

text \<open>
  C6: whatever faults happen and whatever servers answer, a client whose upload from a URL is answered
  201 may write to the storage, and the whole body of a response with status 200, no longer than the
  configured maximum and ended without an error, is stored as its file.
\<close>

theorem uploadFromURL_stores:
  assumes "run (uploadFromURL x e rq us) w = (resp, w')" and "rs_status resp = 201"
  shows "\<exists>sid addrs ct src. x_uuid_parse x (rq_param rq ''storageID'') = Some sid
    \<and> Get x e (bind_url (rq_body rq)) = (addrs, Inr (Answer 200 ct src))
    \<and> int (length (so_rest src)) \<le> URLFetchMaxBytes e \<and> so_err src = None
    \<and> (u_admin us \<or> (\<exists>s\<in>set (storage_users (wdb w)). su_storage s = sid \<and> su_user s = u_id us \<and> su_may_write s))
    \<and> stored_upload x e w w' sid (u_id us) (so_rest src)"
proof -
  obtain sid where sid: "x_uuid_parse x (rq_param rq ''storageID'') = Some sid"
    using assms by (auto simp: uploadFromURL_def with_id_def split: option.splits)
  obtain ok w1 where mr: "run (StorageUserMayWrite sid (u_id us)) w = (ok, w1)" by force
  note m = may_write_ok[OF mr]
  have ok: "or_false ok \<or> u_admin us"
    using assms sid mr by (auto simp: uploadFromURL_def with_id_def forbidden_def split: if_splits)
  let ?url = "bind_url (rq_body rq)"
  have url: "?url \<noteq> []"
    using assms sid mr ok by (auto simp: uploadFromURL_def with_id_def Let_def)
  obtain r w2 where g: "run (GetStorage sid) w1 = (r, w2)" by force
  have s2: "wdb w2 = wdb w"
    using m reads_same[OF data_reads(2) g] by (simp add: same_state_def)
  obtain st where st: "r = Inr st"
    using assms sid mr g ok url by (cases r) (auto simp: uploadFromURL_def with_id_def on_error_def Let_def)
  let ?i = "wdraws w2 (wdrawn w2)" and ?w3 = "w2\<lparr>wdrawn := Suc (wdrawn w2)\<rparr>"
  obtain sig w4 where sig: "run randomSig ?w3 = (sig, w4)" by force
  let ?ext = "extensionFromSourceURL ?url" and ?vp = "CHR ''/'' # x_uuid_string x ?i @ ''/file''"
  obtain mt w5 where mt: "run (FindMimeByExtension ?ext) w4 = (mt, w5)" by force
  let ?f = "url_upload_row ?i sig sid (u_id us) ?url ?ext ?vp (mime_id mt)"
  obtain ins w6 where ins: "run (InsertFile ?f) w5 = (ins, w6)" by force
  have s5: "files (wdb w5) = files (wdb w)"
    using s2 randomSig_frame[OF sig] reads_same[OF mime_reads mt] by (simp add: same_state_def)
  let ?rest = "case snd (Get x e ?url) of
      Inl er \<Rightarrow> do {
        rollbackUploadingFile x e st ?f;
        (if er = ErrURLNotAllowed then reply 400 (PDetail ''url not allowed'')
         else reply 502 (PDetail ''failed to fetch url''))}
    | Inr (Answer status ct body) \<Rightarrow> putStreamURLUpload x e st ?f status ct body sid us
    | Inr (Redirect loc) \<Rightarrow> reply 502 (PDetail ''failed to fetch url'')"
  have run: "run (on_error ins server_error (\<lambda>_. ?rest)) w6 = (resp, w')"
    using assms(1) sid mr g ok st url sig mt ins
    by (auto simp: uploadFromURL_def newUploadingFileFromURL_def with_id_def on_error_simps st Let_def)
  then obtain v where v: "ins = Inr v" using assms(2) by (cases ins) (auto simp: on_error_def server_error_def)
  with run have rest: "run ?rest w6 = (resp, w')" by (simp add: on_error_def)
  obtain a where a: "snd (Get x e ?url) = Inr a"
    using rest assms(2) by (cases "snd (Get x e ?url)") (auto split: prod.splits if_splits)
  then obtain status ct src where ans: "a = Answer status ct src" using Get_answers by blast
  have put: "run (putStreamURLUpload x e st ?f status ct src sid us) w6 = (resp, w')"
    using rest a ans by simp
  have known: "\<exists>s\<in>set (storages (wdb w)). st_id s = sid \<and> storage_backend x e s = storage_backend x e st"
    using GetStorage_ok[OF g[unfolded st]] m by (simp add: same_state_def)
  have "status = 200 \<and> int (length (so_rest src)) \<le> URLFetchMaxBytes e \<and> so_err src = None
      \<and> stored_upload x e w w' sid (u_id us) (so_rest src)"
    using known stored_url_upload[OF s5 ins[unfolded v] put assms(2), of "x_uuid_string x ?i @ ''/file''"]
    by (simp add: url_upload_row_def blank_file_def TrimPrefix_def)
  moreover obtain addrs where "Get x e ?url = (addrs, Inr a)" using a by (cases "Get x e ?url") simp
  ultimately show ?thesis using sid ok m ans by auto
qed

section \<open>What a failure leaves\<close>

text \<open>The database as before; of the objects at most one is gone (the upload's own path).\<close>

definition no_trace :: "world \<Rightarrow> world \<Rightarrow> bool" where
  "no_trace w w' \<longleftrightarrow> wdb w' = wdb w \<and> (\<forall>l. wblobs w' l = wblobs w l \<or> wblobs w' l = None)"

lemma rows_ok_cascade_id:
  assumes "rows_ok d" shows "cascade d = d"
proof -
  note r = assms[unfolded rows_ok_def list_all_iff]
  have "filter (\<lambda>f. has_storage d (sf_storage f)) (files d) = files d"
    "filter (\<lambda>s. has_storage d (su_storage s)) (storage_users d) = storage_users d"
    "filter (\<lambda>r. has_file d (dl_file r)) (downloads d) = downloads d"
    "filter (\<lambda>m. has_file d (md_file m)) (medias d) = medias d"
    "filter (\<lambda>j. has_storage d (mj_storage j) \<and> has_file d (mj_file j)) (jobs d) = jobs d"
    "filter (\<lambda>i. has_media d (mi_media i)) (images d) = images d"
    "filter (\<lambda>v. has_media d (mv_media v)) (videos d) = videos d"
    "filter (\<lambda>y. has_media d (mdoc_media y)) (documents d) = documents d"
    "filter (\<lambda>t. has_media d (th_media t) \<and> has_file d (th_file t)) (thumbs d) = thumbs d"
    "filter (\<lambda>s. has_image d (ms_image s) \<and> has_file d (ms_file s)) (sizeds d) = sizeds d"
    using r by (auto simp: filter_id_conv row_fits)
  then have "cascade_storages d = d" "cascade_files d = d" "cascade_medias d = d" "cascade_images d = d"
    by (simp_all add: cascade_steps)
  then show ?thesis by (simp add: cascade_def)
qed

lemma rollback_calm:
  assumes "calm w" and ok: "db_ok d" and db: "wdb w = d\<lparr>files := files d @ [row]\<rparr>"
    and row: "sf_id row = sf_id frow" "sf_storage row = sf_storage frow" "sf_status row = ''UPLOADING''"
    and new: "fresh sf_id frow (files d)" and run: "run (rollbackUploadingFile x e st frow) w = (u, w')"
  shows "wdb w' = d \<and> (\<forall>l. wblobs w' l = wblobs w l \<or> wblobs w' l = None)"
proof -
  let ?P = "\<lambda>r. sf_storage r = sf_storage frow \<and> sf_id r = sf_id frow \<and> sf_status r = ''UPLOADING''"
  have "filter (\<lambda>r. \<not> ?P r) (files d @ [row]) = files d"
    using new row by (auto simp: fresh_def filter_id_conv image_iff)
  then have "delete_files ?P (wdb w) = cascade d" by (simp add: delete_files_def db)
  also have "\<dots> = d" using ok by (simp add: db_ok_def rows_ok_cascade_id)
  finally have del: "delete_files ?P (wdb w) = d" .
  obtain b where b: "run (if ns_str (sf_real_path frow) \<noteq> [] then
        (case storage_backend x e st of
           Inr be \<Rightarrow> do { _ \<leftarrow> Delete be (ns_str (sf_real_path frow)); ret () }
         | Inl _ \<Rightarrow> ret ())
      else ret ()) w = ((), w\<lparr>wblobs := b\<rparr>)" "\<forall>l. b l = wblobs w l \<or> b l = None"
  proof (cases "ns_str (sf_real_path frow) \<noteq> [] \<and> (\<exists>be. storage_backend x e st = Inr be)")
    case True
    then obtain be where "storage_backend x e st = Inr be" by blast
    with True assms(1) that[of "(wblobs w)(blob_at be (ns_str (sf_real_path frow)) := None)"] show thesis
      by (simp add: Delete_def delete_stmt_blobs)
  next
    case False
    with that[of "wblobs w"] show thesis by (auto split: sum.split)
  qed
  have "run (DeleteFailedUploadingFile (sf_storage frow) (sf_id frow)) (w\<lparr>wblobs := b\<rparr>)
      = (fst (run (DeleteFailedUploadingFile (sf_storage frow) (sf_id frow)) (w\<lparr>wblobs := b\<rparr>)), w\<lparr>wblobs := b, wdb := d\<rparr>)"
    using assms(1) del by (simp add: DeleteFailedUploadingFile_def run_try_bind del_files_def)
  then obtain q where "run (DeleteFailedUploadingFile (sf_storage frow) (sf_id frow)) (w\<lparr>wblobs := b\<rparr>) = (q, w\<lparr>wblobs := b, wdb := d\<rparr>)"
    by blast
  with run b(1) have "w' = w\<lparr>wblobs := b, wdb := d\<rparr>" by (simp add: rollbackUploadingFile_def)
  with b(2) show ?thesis by simp
qed

lemma put_calm_fail:
  assumes "put_stmt be p body n ct b = (Inl e, b')"
  shows "\<forall>l. b' l = b l \<or> b' l = None"
  using assms by (cases be) (auto split: option.splits if_splits)

text \<open>Without faults an upload ends in 201, or in a rollback before anything is published.\<close>

lemma finish_calm_ok:
  assumes calm: "calm w"
    and fits: "\<forall>r\<in>set (files (wdb w)). sf_id r = sf_id frow \<longrightarrow> file_fits (wdb w) (published frow n (wclock w) r)"
    and be: "storage_backend x e st = Inr be"
    and put: "put_stmt be (ns_str (sf_real_path frow)) body ps ct (wblobs w) = (Inr v, b)"
  shows "rs_status (fst (run (finish_upload x e st frow sid us body ps n ct) w)) = 201"
proof -
  let ?w1 = "w\<lparr>wblobs := b\<rparr>"
  have "is_ok (fst (run (UpdateFilePathsAndStatus (sf_id frow) ''PUBLISHED'' n (ns_str (sf_real_path frow))
      (ns_str (sf_virt_path frow)) [] (sf_type_id frow)) ?w1))"
    using calm fits by (auto simp: UpdateFilePathsAndStatus_def run_try_bind upd_files_def stmt_def
        published_def list_all_iff nullString_def)
  then obtain v2 w2 where "run (UpdateFilePathsAndStatus (sf_id frow) ''PUBLISHED'' n (ns_str (sf_real_path frow))
      (ns_str (sf_virt_path frow)) [] (sf_type_id frow)) ?w1 = (Inr v2, w2)"
    by (metis is_ok_iff prod.collapse)
  with be put calm show ?thesis
    by (auto simp: finish_upload_def on_error_simps Put_def Let_def split: prod.splits)
qed

lemma finish_calm:
  assumes calm: "calm w" and ok: "db_ok (wdb w)"
    and fits: "\<forall>r\<in>set (files (wdb w)). sf_id r = sf_id frow \<longrightarrow> file_fits (wdb w) (published frow n (wclock w) r)"
    and run: "run (finish_upload x e st frow sid us body ps n ct) w = (resp, w')"
  shows "rs_status resp = 201 \<or> (\<exists>b. (\<forall>l. b l = wblobs w l \<or> b l = None)
    \<and> snd (run (rollbackUploadingFile x e st frow) (w\<lparr>wblobs := b\<rparr>)) = w')"
proof (cases "storage_backend x e st")
  case (Inl er)
  with run have "snd (run (rollbackUploadingFile x e st frow) (w\<lparr>wblobs := wblobs w\<rparr>)) = w'"
    by (auto simp: finish_upload_def on_error_simps server_error_def Let_def split: prod.splits)
  then show ?thesis by (intro disjI2 exI[of _ "wblobs w"]) simp
next
  case (Inr be)
  obtain p b where p: "put_stmt be (ns_str (sf_real_path frow)) body ps ct (wblobs w) = (p, b)" by force
  show ?thesis
  proof (cases p)
    case (Inl er)
    with Inr p run calm have "snd (run (rollbackUploadingFile x e st frow) (w\<lparr>wblobs := b\<rparr>)) = w'"
      by (auto simp: finish_upload_def on_error_simps server_error_def Put_def Let_def split: prod.splits)
    with put_calm_fail[OF p[unfolded Inl]] show ?thesis by blast
  next
    case ok_put: (Inr v)
    show ?thesis using finish_calm_ok[OF calm fits Inr p[unfolded ok_put], of sid us] run by simp
  qed
qed

lemma insert_calm:
  assumes "calm w" and "db_ok (wdb w)" and "run (InsertFile f) w = (r, w')"
  shows "(r = Inr () \<and> w' = w\<lparr>wdb := (wdb w)\<lparr>files := files (wdb w) @ [new_file_row (wclock w) f]\<rparr>\<rparr>
      \<and> fresh sf_id f (files (wdb w)) \<and> file_fits (wdb w) (new_file_row (wclock w) f) \<and> db_ok (wdb w'))
    \<or> (\<exists>e. r = Inl e \<and> w' = w)"
proof -
  have ok: "db_ok (wdb w')"
    using keeps_allD[OF file_ops_ok(1) _ assms(3)] assms(2) by (simp add: on_db_def)
  let ?row = "new_file_row (wclock w) f"
  show ?thesis
  proof (cases "file_fits (wdb w) ?row \<and> fresh sf_id ?row (files (wdb w))")
    case True
    with assms(1,3) ok show ?thesis
      by (auto simp: InsertFile_def ins_file_def fresh_def new_file_row_def)
  next
    case False
    then have "ins_file ?row (wdb w) = (Inl ErrConstraint, wdb w)" by (auto simp: ins_file_def stmt_def)
    with assms(1,3) show ?thesis by (auto simp: InsertFile_def)
  qed
qed

lemma published_fits:
  assumes "db_ok d" and "d' = d\<lparr>files := files d @ [new_file_row t f]\<rparr>" and "fresh sf_id f (files d)"
    and "file_fits d (new_file_row t f)" and "r \<in> set (files d')" and "sf_id r = sf_id f"
    and "sf_real_path f = Some p" "p \<noteq> []" "sf_virt_path f = Some v" "v \<noteq> []"
  shows "file_fits d' (published f n t' r)"
proof -
  have "r \<notin> set (files d)" using assms(3,6) by (metis fresh_def image_eqI)
  with assms(2,5) have "r = new_file_row t f" by simp
  with assms(2,4,7-10) show ?thesis
    by (simp add: file_fits_def published_def new_file_row_def bare_def nullString_def has_fun
        fits_opt_def fits_def char_length_def)
qed

text \<open>From the insert on, whatever comes after it that is an upload's end or a rollback.\<close>

lemma finish_trace:
  assumes "calm w" and "db_ok (wdb w)" and "run (InsertFile frow) w = (Inr v, w1)"
    and row: "sf_real_path frow = Some p" "p \<noteq> []" "sf_virt_path frow = Some q" "q \<noteq> []" "sf_status frow = ''UPLOADING''"
  shows "run (rollbackUploadingFile x e st frow) w1 = (a, w') \<Longrightarrow> no_trace w w'"
    and "run (finish_upload x e st frow sid us body ps n ct) w1 = (resp, w') \<Longrightarrow> rs_status resp = 201 \<or> no_trace w w'"
proof -
  let ?row = "new_file_row (wclock w) frow"
  have i: "w1 = w\<lparr>wdb := (wdb w)\<lparr>files := files (wdb w) @ [?row]\<rparr>\<rparr>" "fresh sf_id frow (files (wdb w))"
    "file_fits (wdb w) ?row" "db_ok (wdb w1)"
    using insert_calm[OF assms(1-3)] by auto
  have r: "sf_id ?row = sf_id frow" "sf_storage ?row = sf_storage frow" "sf_status ?row = ''UPLOADING''"
    using row(5) by (simp_all add: new_file_row_def)
  have roll: "no_trace w w2" if "run (rollbackUploadingFile x e st frow) (w1\<lparr>wblobs := b\<rparr>) = (a, w2)"
    and "\<forall>l. b l = wblobs w l \<or> b l = None" for a b w2
    using rollback_calm[OF _ assms(2) _ r i(2) that(1)] that(2) assms(1) i(1)
    by (simp add: no_trace_def) metis
  show "run (rollbackUploadingFile x e st frow) w1 = (a, w') \<Longrightarrow> no_trace w w'"
    using roll[of "wblobs w" a w'] i(1) by simp
  assume f: "run (finish_upload x e st frow sid us body ps n ct) w1 = (resp, w')"
  have "\<forall>r\<in>set (files (wdb w1)). sf_id r = sf_id frow \<longrightarrow> file_fits (wdb w1) (published frow n (wclock w1) r)"
    using published_fits[OF assms(2) _ i(2,3) _ _ row(1-4), of "wdb w1"] i(1) by simp
  from finish_calm[OF _ i(4) this f] assms(1) i(1)
  obtain b where "rs_status resp = 201 \<or> (\<forall>l. b l = wblobs w l \<or> b l = None)
      \<and> snd (run (rollbackUploadingFile x e st frow) (w1\<lparr>wblobs := b\<rparr>)) = w'" by auto
  with roll show "rs_status resp = 201 \<or> no_trace w w'" by (metis prod.collapse)
qed

lemma calm_reads:
  "calm w \<Longrightarrow> snd (run (GetStorage sid) w) = w" "calm w \<Longrightarrow> snd (run (FindMimeByExtension ex) w) = w"
  "calm w \<Longrightarrow> snd (run (StorageUserMayWrite sid u) w) = w"
  by (simp_all add: GetStorage_def FindMimeByExtension_def StorageUserMayWrite_def Let_def)

lemma randomSig_calm: "\<exists>s. run randomSig w = (s, w\<lparr>wdrawn := wdrawn w + 3\<rparr>)"
  by (simp add: randomSig_def Let_def numeral_3_eq_3)

lemma no_trace_refl [simp]: "no_trace w w"
  by (simp add: no_trace_def)

lemma no_trace_drawn: "no_trace (w\<lparr>wdrawn := k\<rparr>) w' = no_trace w w'"
  by (simp add: no_trace_def)

lemma multipart_trace:
  assumes calm: "calm w" and ok: "db_ok (wdb w)" and run: "run (uploadMultipart x e rq us) w = (resp, w')"
  shows "rs_status resp = 201 \<or> no_trace w w'"
proof -
  consider "w' = w" | sid st fh where "rq_file rq = Some fh"
    "run (do {
       i \<leftarrow> new_uuid;
       sig \<leftarrow> randomSig;
       let ext = extension_of (uf_name fh);
       mt \<leftarrow> FindMimeByExtension ext;
       let vpath = ''/'' @ x_uuid_string x i @ ''/'' @ uf_name fh;
       let frow = local_upload_row i sig sid (u_id us) (uf_name fh) ext vpath (mime_id mt);
       r \<leftarrow> InsertFile frow;
       on_error r server_error (\<lambda>_.
         finish_upload x e st frow sid us (Reader (uf_bytes fh) None)
           (int (length (uf_bytes fh))) (int (length (uf_bytes fh))) (content_type (uf_type fh)))}) w = (resp, w')"
    using run calm calm_reads[OF calm]
    by (auto simp: uploadMultipart_def with_id_def on_error_def forbidden_def case_prod_beta
        split: option.splits sum.splits if_splits)
  then show ?thesis
  proof cases
    case 2
    let ?i = "wdraws w (wdrawn w)" and ?w3 = "w\<lparr>wdrawn := Suc (wdrawn w)\<rparr>"
    obtain sig where sig: "run randomSig ?w3 = (sig, w\<lparr>wdrawn := Suc (wdrawn w) + 3\<rparr>)"
      using randomSig_calm[of ?w3] by auto
    let ?w4 = "w\<lparr>wdrawn := Suc (wdrawn w) + 3\<rparr>"
    let ?ext = "extension_of (uf_name fh)" and ?vp = "CHR ''/'' # x_uuid_string x ?i @ CHR ''/'' # uf_name fh"
    obtain mt where mt: "run (FindMimeByExtension ?ext) ?w4 = (mt, ?w4)"
      using calm_reads(2)[of ?w4 ?ext] calm by (metis calm_update(4) prod.collapse)
    let ?f = "local_upload_row ?i sig sid (u_id us) (uf_name fh) ?ext ?vp (mime_id mt)"
    obtain ins w6 where ins: "run (InsertFile ?f) ?w4 = (ins, w6)" by force
    have r: "run (on_error ins server_error (\<lambda>_. finish_upload x e st ?f sid us (Reader (uf_bytes fh) None)
        (int (length (uf_bytes fh))) (int (length (uf_bytes fh))) (content_type (uf_type fh)))) w6 = (resp, w')"
      using 2(2) sig mt ins by (simp add: Let_def)
    show ?thesis
    proof (cases ins)
      case (Inl er)
      with ins insert_calm[of ?w4 ?f ins w6] calm ok have "w6 = ?w4" by auto
      with r Inl have "w' = ?w4" by (simp add: on_error_def server_error_def)
      then show ?thesis by (simp add: no_trace_def)
    next
      case (Inr v)
      with r have f: "run (finish_upload x e st ?f sid us (Reader (uf_bytes fh) None)
          (int (length (uf_bytes fh))) (int (length (uf_bytes fh))) (content_type (uf_type fh))) w6 = (resp, w')"
        by (simp add: on_error_def)
      from finish_trace(2)[OF _ _ ins[unfolded Inr] _ _ _ _ _ f, of "x_uuid_string x ?i @ CHR ''/'' # uf_name fh" ?vp]
        calm ok show ?thesis
        by (simp add: local_upload_row_def blank_file_def TrimPrefix_def no_trace_drawn)
    qed
  qed simp
qed

lemma url_end_trace:
  assumes "calm w" and "db_ok (wdb w)" and "run (InsertFile frow) w = (Inr v, w1)"
    and row: "sf_real_path frow = Some p" "p \<noteq> []" "sf_virt_path frow = Some q" "q \<noteq> []" "sf_status frow = ''UPLOADING''"
    and run: "run (case snd (Get x e url) of
        Inl er \<Rightarrow> do {
          rollbackUploadingFile x e st frow;
          (if er = ErrURLNotAllowed then reply 400 (PDetail ''url not allowed'')
           else reply 502 (PDetail ''failed to fetch url''))}
      | Inr (Answer status ct body) \<Rightarrow> putStreamURLUpload x e st frow status ct body sid us
      | Inr (Redirect loc) \<Rightarrow> reply 502 (PDetail ''failed to fetch url'')) w1 = (resp, w')"
  shows "rs_status resp = 201 \<or> no_trace w w'"
proof -
  note tr = finish_trace[OF assms(1-3) row]
  show ?thesis
  proof (cases "snd (Get x e url)")
    case (Inl er)
    then obtain a where "run (rollbackUploadingFile x e st frow) w1 = (a, w')"
      using run by (cases "er = ErrURLNotAllowed") (auto split: prod.splits)
    then show ?thesis using tr(1) by blast
  next
    case (Inr a)
    then obtain status ct body where a: "a = Answer status ct body" using Get_answers by blast
    show ?thesis
    proof (cases "status = 200")
      case True
      obtain d er n where "capped_copy (URLFetchMaxBytes e) body = (d, er, n)" by (metis prod_cases3)
      then have "run (finish_upload x e st frow sid us (Reader d er) (-1) n (content_type ct)) w1 = (resp, w')"
        using run Inr a True by (simp add: putStreamURLUpload_def)
      then show ?thesis by (rule tr(2))
    next
      case False
      then obtain b where "run (rollbackUploadingFile x e st frow) w1 = (b, w')"
        using run Inr a by (auto simp: putStreamURLUpload_def split: prod.splits)
      then show ?thesis using tr(1) by blast
    qed
  qed
qed

lemma url_trace:
  assumes calm: "calm w" and ok: "db_ok (wdb w)" and run: "run (uploadFromURL x e rq us) w = (resp, w')"
  shows "rs_status resp = 201 \<or> no_trace w w'"
proof -
  let ?url = "bind_url (rq_body rq)"
  consider "w' = w" | sid st where "run (newUploadingFileFromURL x us sid ?url (extensionFromSourceURL ?url) (\<lambda>frow.
             case snd (Get x e ?url) of
               Inl er \<Rightarrow> do {
                 rollbackUploadingFile x e st frow;
                 (if er = ErrURLNotAllowed then reply 400 (PDetail ''url not allowed'')
                  else reply 502 (PDetail ''failed to fetch url''))}
             | Inr (Answer status ct body) \<Rightarrow> putStreamURLUpload x e st frow status ct body sid us
             | Inr (Redirect loc) \<Rightarrow> reply 502 (PDetail ''failed to fetch url''))) w = (resp, w')"
    using run calm calm_reads[OF calm]
    by (auto simp: uploadFromURL_def with_id_def on_error_def forbidden_def case_prod_beta Let_def
        split: option.splits sum.splits if_splits)
  then show ?thesis
  proof cases
    case 2
    let ?i = "wdraws w (wdrawn w)" and ?w3 = "w\<lparr>wdrawn := Suc (wdrawn w)\<rparr>"
    obtain sig where sig: "run randomSig ?w3 = (sig, w\<lparr>wdrawn := Suc (wdrawn w) + 3\<rparr>)"
      using randomSig_calm[of ?w3] by auto
    let ?w4 = "w\<lparr>wdrawn := Suc (wdrawn w) + 3\<rparr>"
    let ?ext = "extensionFromSourceURL ?url" and ?vp = "CHR ''/'' # x_uuid_string x ?i @ ''/file''"
    obtain mt where mt: "run (FindMimeByExtension ?ext) ?w4 = (mt, ?w4)"
      using calm_reads(2)[of ?w4 ?ext] calm by (metis calm_update(4) prod.collapse)
    let ?f = "url_upload_row ?i sig sid (u_id us) ?url ?ext ?vp (mime_id mt)"
    obtain ins w6 where ins: "run (InsertFile ?f) ?w4 = (ins, w6)" by force
    have r: "run (on_error ins server_error (\<lambda>_. case snd (Get x e ?url) of
               Inl er \<Rightarrow> do {
                 rollbackUploadingFile x e st ?f;
                 (if er = ErrURLNotAllowed then reply 400 (PDetail ''url not allowed'')
                  else reply 502 (PDetail ''failed to fetch url''))}
             | Inr (Answer status ct body) \<Rightarrow> putStreamURLUpload x e st ?f status ct body sid us
             | Inr (Redirect loc) \<Rightarrow> reply 502 (PDetail ''failed to fetch url''))) w6 = (resp, w')"
      using 2 sig mt ins by (simp add: newUploadingFileFromURL_def Let_def)
    show ?thesis
    proof (cases ins)
      case (Inl er)
      with ins insert_calm[of ?w4 ?f ins w6] calm ok have "w6 = ?w4" by auto
      with r Inl have "w' = ?w4" by (simp add: on_error_def server_error_def)
      then show ?thesis by (simp add: no_trace_def)
    next
      case (Inr v)
      have "rs_status resp = 201 \<or> no_trace ?w4 w'"
        using url_end_trace[OF _ _ ins[unfolded Inr] _ _ _ _ _ r[unfolded Inr on_error_simps],
            of "x_uuid_string x ?i @ ''/file''" ?vp] calm ok
        by (simp add: url_upload_row_def blank_file_def TrimPrefix_def)
      then show ?thesis by (simp add: no_trace_drawn)
    qed
  qed simp
qed

text \<open>
  C7: when the database and the object store work, an upload that is not answered 201 leaves the
  database exactly as it was, and of the objects nothing but the loss of what was at the upload's own
  path: however the URL, the remote server, its redirects or its body fail, and whatever constraint
  the row violates.
\<close>

theorem failed_uploads_leave_no_trace:
  assumes "rt \<in> {UploadMultipartR, UploadFromURLR}" and "calm w" and "db_ok (wdb w)"
    and "run (handler x e rt rq us) w = (resp, w')" and "rs_status resp \<noteq> 201"
  shows "wdb w' = wdb w \<and> (\<forall>l. wblobs w' l = wblobs w l \<or> wblobs w' l = None)"
proof -
  have "no_trace w w'"
    using assms(1,4,5) multipart_trace[OF assms(2,3), of x e rq us resp w']
      url_trace[OF assms(2,3), of x e rq us resp w'] by auto
  then show ?thesis by (simp add: no_trace_def)
qed

section \<open>Examples\<close>

definition ex_upload :: "upload_file option \<Rightarrow> string \<Rightarrow> request" where
  "ex_upload fo body = (ex_request ''POST'' [])\<lparr>rq_file := fo, rq_body := body\<rparr>"

definition ex_file :: upload_file where
  "ex_file = \<lparr>uf_name = ''a.txt'', uf_bytes = ''abc'', uf_type = [], uf_open_err = None\<rparr>"

lemma ex_upload_reads:
  "run (StorageUserMayWrite 10 1) ex_world = (Inr True, ex_world)"
  "run (GetStorage 10) ex_world = (Inr (ex_storage\<lparr>st_total_size := 3\<rparr>), ex_world)"
  by (simp_all add: GetStorage_def may_calm)
    (simp_all add: ex_world_def ex_db_def ex_rows find_by_Cons storage_total_def bigint_def
      in_int64_def min_int64_def max_int64_def access_row_def no_rows_false_def)

lemma mime_empty: "calm w \<Longrightarrow> mimes (wdb w) = [] \<Longrightarrow> run (FindMimeByExtension ext) w = (Inl ErrNoRows, w)"
  by (simp add: FindMimeByExtension_def Let_def)

lemma length_fits: "length s \<le> n \<Longrightarrow> fits n s"
  unfolding fits_def char_length_def by (rule order_trans[OF length_filter_le])

lemma sig_fits: "run randomSig w = (s, w') \<Longrightarrow> fits 64 s"
  by (rule length_fits) (auto simp: randomSig_def Let_def split: if_splits)

lemma ex_backend:
  "storage_backend ex_ext ex_env (ex_storage\<lparr>st_total_size := 3\<rparr>)
     = Inr (LocalBackend (if local_root_cred ''{}'' \<noteq> [] then local_root_cred ''{}'' else LocalRoot ex_env))"
  by (simp add: storage_backend_def ForStorage_def ex_rows Let_def)

lemma ex_multipart: "rs_status (fst (run (uploadMultipart ex_ext ex_env (ex_upload (Some ex_file) []) alice) ex_world)) = 201"
proof -
  let ?w3 = "ex_world\<lparr>wdrawn := 1\<rparr>" and ?w4 = "ex_world\<lparr>wdrawn := 4\<rparr>"
  obtain sig where sig: "run randomSig ?w3 = (sig, ?w4)"
    using randomSig_calm[of ?w3] by auto
  have mt: "run (FindMimeByExtension ext) ?w4 = (Inl ErrNoRows, ?w4)" for ext
    by (rule mime_empty) (simp_all add: ex_world_def ex_db_def calm_def)
  have ext: "extension_of ''a.txt'' = ''txt''" by code_simp
  let ?vp = "''/id/a.txt''"
  let ?f = "local_upload_row 1000 sig 10 1 ''a.txt'' ''txt'' ?vp None"
  let ?row = "new_file_row 1000 ?f"
  let ?w5 = "?w4\<lparr>wdb := ex_db\<lparr>files := files ex_db @ [?row]\<rparr>\<rparr>"
  have fit: "file_fits ex_db ?row" "fresh sf_id ?row (files ex_db)"
    using sig_fits[OF sig]
    by (simp_all add: file_fits_def new_file_row_def bare_def local_upload_row_def blank_file_def fits_def fits_opt_def
        char_length_def null_or_def has_defs nullString_def TrimPrefix_def fresh_def)
      (simp_all add: ex_db_def ex_rows)
  have w4: "calm ?w4" "wclock ?w4 = 1000" "wdb ?w4 = ex_db" by (simp_all add: ex_world_def calm_def)
  have ins: "run (InsertFile ?f) ?w4 = (Inr (), ?w5)"
    using fit w4 by (simp add: InsertFile_def ins_file_def)
  have paths: "sf_real_path ?f = Some ''id/a.txt''" "sf_virt_path ?f = Some ?vp"
    by (simp_all add: local_upload_row_def TrimPrefix_def)
  have new: "fresh sf_id ?f (files ex_db)" using fit(2) by (simp add: fresh_def new_file_row_def)
  have fit2: "\<forall>r\<in>set (files (wdb ?w5)). sf_id r = sf_id ?f \<longrightarrow> file_fits (wdb ?w5) (published ?f 3 (wclock ?w5) r)"
    using published_fits[OF ex_db_ok _ new fit(1) _ _ paths(1) _ paths(2)] by simp
  have "rs_status (fst (run (finish_upload ex_ext ex_env (ex_storage\<lparr>st_total_size := 3\<rparr>) ?f 10 alice
      (Reader ''abc'' None) 3 3 (content_type [])) ?w5)) = 201"
    by (rule finish_calm_ok[OF _ fit2 ex_backend]) (use w4(1) in simp_all)
  moreover have "x_uuid_parse ex_ext (rq_param (ex_upload (Some ex_file) []) ''storageID'') = Some 10"
    "rq_file (ex_upload (Some ex_file) []) = Some ex_file" "u_id alice = 1" "wdraws ex_world 0 = 1000"
    "wdrawn ex_world = 0" "x_uuid_string ex_ext i = ''id''" for i
    by (simp_all add: ex_ext_def ex_ids_def ex_request_def ex_upload_def alice_def ex_world_def)
  ultimately show ?thesis
    using ex_upload_reads sig mt ins ext
    by (simp add: uploadMultipart_def with_id_def on_error_simps or_false_def ex_file_def Let_def mime_id_def)
qed

lemma uploadMultipart_stores_witness:
  "\<exists>w' x e. stored_upload x e ex_world w' 10 1 ''abc''"
proof -
  obtain resp w' where r: "run (uploadMultipart ex_ext ex_env (ex_upload (Some ex_file) []) alice) ex_world = (resp, w')"
    by force
  then have "rs_status resp = 201" using ex_multipart by simp
  from uploadMultipart_stores[OF r this]
  have "stored_upload ex_ext ex_env ex_world w' 10 1 ''abc''"
    by (auto simp: ex_ext_def ex_ids_def ex_request_def ex_upload_def alice_def ex_file_def)
  then show ?thesis by blast
qed

text \<open>A server that answers \<open>abc\<close> to the URL \<open>a\<close>, and one that cannot be reached.\<close>

definition web_ext :: ext where
  "web_ext = ex_ext\<lparr>x_url_parse := (\<lambda>_. Some (''https'', ''h'', ''h'')), x_lookup := (\<lambda>_. Inr [[8, 8, 8, 8]]),
     x_http := (\<lambda>_ _. Inr (Answer 200 [] \<lparr>so_rest = ''abc'', so_chunks = [2], so_early = False, so_err = None\<rparr>))\<rparr>"

definition url_body :: string where
  "url_body = ''{'' @ [CHR 34] @ ''url'' @ [CHR 34] @ '':'' @ [CHR 34] @ ''a'' @ [CHR 34] @ ''}''"

lemma bind_url_body: "bind_url url_body = ''a''"
  by code_simp

lemma ex_url_ext: "extensionFromSourceURL ''a'' = ''bin''"
  by code_simp

definition web_env :: Env where
  "web_env = ex_env\<lparr>URLFetchAllowHTTP := False, URLFetchMaxRedirects := 8, EnvMode := ''development'',
     URLFetchMaxBytes := 100\<rparr>"

lemma web_fetch: "snd (Get web_ext web_env ''a'')
  = Inr (Answer 200 [] \<lparr>so_rest = ''abc'', so_chunks = [2], so_early = False, so_err = None\<rparr>)"
proof -
  have "\<not> EqualFold (TrimSpace ''development'') ''prod''" by code_simp
  then have e: "URLFetchAllowHTTP web_env = False" "maxRedir web_env = 8" "IsProduction web_env = False"
    by (simp_all add: web_env_def maxRedir_def IsProduction_def)
  have "validateFetchURL web_ext ''https'' ''h'' False True = Inr ()" by code_simp
  then have c: "check_url web_ext web_env ''a'' = Inr ()"
    using e by (simp add: check_url_def) (simp add: web_ext_def)
  have d: "dial web_ext True (dial_host web_ext ''a'') = Inr [8, 8, 8, 8]" by code_simp
  show ?thesis
    using c d e by (simp add: Get_def follow.simps[of _ _ 7] numeral_eq_Suc follow.simps[of _ _ "Suc n" for n])
      (simp add: web_ext_def)
qed

lemma web_copy: "capped_copy 100 \<lparr>so_rest = ''abc'', so_chunks = [2], so_early = False, so_err = None\<rparr> = (''abc'', None, 3)"
  using capped_copy_result[of 100 "\<lparr>so_rest = ''abc'', so_chunks = [2], so_early = False, so_err = None\<rparr>"]
  by (cases "capped_copy 100 \<lparr>so_rest = ''abc'', so_chunks = [2], so_early = False, so_err = None\<rparr>") (simp add: cap_end_def)

definition url_request :: request where
  "url_request = ex_upload None url_body"

lemma url_request_reads:
  "x_uuid_parse ex_ext (rq_param url_request ''storageID'') = Some 10"
  "x_uuid_parse web_ext (rq_param url_request ''storageID'') = Some 10"
  "bind_url (rq_body url_request) = ''a''" "u_id alice = 1"
  using bind_url_body
  by (simp_all add: ex_ext_def web_ext_def ex_ids_def url_request_def ex_request_def ex_upload_def alice_def)

lemma ex_from_url: "rs_status (fst (run (uploadFromURL web_ext web_env url_request alice) ex_world)) = 201"
proof -
  let ?w3 = "ex_world\<lparr>wdrawn := 1\<rparr>" and ?w4 = "ex_world\<lparr>wdrawn := 4\<rparr>"
  obtain sig where sig: "run randomSig ?w3 = (sig, ?w4)"
    using randomSig_calm[of ?w3] by auto
  have mt: "run (FindMimeByExtension ext) ?w4 = (Inl ErrNoRows, ?w4)" for ext
    by (rule mime_empty) (simp_all add: ex_world_def ex_db_def calm_def)
  let ?vp = "''/id/file''"
  let ?f = "url_upload_row 1000 sig 10 1 ''a'' ''bin'' ?vp None"
  let ?row = "new_file_row 1000 ?f"
  let ?w5 = "?w4\<lparr>wdb := ex_db\<lparr>files := files ex_db @ [?row]\<rparr>\<rparr>"
  have fit: "file_fits ex_db ?row" "fresh sf_id ?row (files ex_db)"
    using sig_fits[OF sig]
    by (simp_all add: file_fits_def new_file_row_def bare_def url_upload_row_def blank_file_def fits_def fits_opt_def
        char_length_def null_or_def has_defs nullString_def TrimPrefix_def fresh_def)
      (simp_all add: ex_db_def ex_rows)
  have w4: "calm ?w4" "wclock ?w4 = 1000" "wdb ?w4 = ex_db" by (simp_all add: ex_world_def calm_def)
  have ins: "run (InsertFile ?f) ?w4 = (Inr (), ?w5)"
    using fit w4 by (simp add: InsertFile_def ins_file_def)
  have paths: "sf_real_path ?f = Some ''id/file''" "sf_virt_path ?f = Some ?vp"
    by (simp_all add: url_upload_row_def TrimPrefix_def)
  have new: "fresh sf_id ?f (files ex_db)" using fit(2) by (simp add: fresh_def new_file_row_def)
  have fit2: "\<forall>r\<in>set (files (wdb ?w5)). sf_id r = sf_id ?f \<longrightarrow> file_fits (wdb ?w5) (published ?f 3 (wclock ?w5) r)"
    using published_fits[OF ex_db_ok _ new fit(1) _ _ paths(1) _ paths(2)] by simp
  have be: "storage_backend web_ext web_env (ex_storage\<lparr>st_total_size := 3\<rparr>)
     = Inr (LocalBackend (if local_root_cred ''{}'' \<noteq> [] then local_root_cred ''{}'' else LocalRoot web_env))"
    by (simp add: storage_backend_def ForStorage_def ex_rows Let_def)
  have fin: "rs_status (fst (run (finish_upload web_ext web_env (ex_storage\<lparr>st_total_size := 3\<rparr>) ?f 10 alice
      (Reader ''abc'' None) (-1) 3 (content_type [])) ?w5)) = 201"
    by (rule finish_calm_ok[OF _ fit2 be]) (use w4(1) in simp_all)
  have max: "URLFetchMaxBytes web_env = 100" by (simp add: web_env_def)
  have draws: "wdraws ex_world 0 = 1000" "wdrawn ex_world = 0" "x_uuid_string web_ext i = ''id''" for i
    by (simp_all add: ex_ext_def web_ext_def ex_world_def)
  show ?thesis
    using ex_upload_reads sig mt ins fin url_request_reads draws
    by (simp add: uploadFromURL_def newUploadingFileFromURL_def putStreamURLUpload_def with_id_def on_error_simps
        or_false_def Let_def mime_id_def web_fetch web_copy max ex_url_ext)
qed

lemma uploadFromURL_stores_witness:
  "\<exists>w' x e. stored_upload x e ex_world w' 10 1 ''abc''
    \<and> run (uploadFromURL x e url_request alice) ex_world = (fst (run (uploadFromURL x e url_request alice) ex_world), w')"
proof -
  obtain resp w' where r: "run (uploadFromURL web_ext web_env url_request alice) ex_world = (resp, w')"
    by force
  then have "rs_status resp = 201" using ex_from_url by simp
  from uploadFromURL_stores[OF r this] have "stored_upload web_ext web_env ex_world w' 10 1 ''abc''"
    using url_request_reads web_fetch by auto
  with r show ?thesis by (metis fst_conv)
qed

lemma ex_unreachable: "rs_status (fst (run (uploadFromURL ex_ext ex_env url_request alice) ex_world)) \<noteq> 201"
proof -
  have "Get ex_ext ex_env ''a'' = ([], Inl (Err ''urlfetch: parse url''))"
    by (simp add: Get_def check_url_def) (simp add: ex_ext_def)
  then show ?thesis
    using ex_upload_reads url_request_reads
    by (auto simp: uploadFromURL_def newUploadingFileFromURL_def with_id_def on_error_def server_error_def
        or_false_def Let_def split: prod.splits sum.splits)
qed

lemma failed_uploads_leave_no_trace_witness:
  "files (wdb (snd (run (handler ex_ext ex_env UploadFromURLR url_request alice) ex_world))) = [live_file, trash_file]"
proof -
  obtain resp w' where r: "run (handler ex_ext ex_env UploadFromURLR url_request alice) ex_world = (resp, w')"
    by force
  then have "rs_status resp \<noteq> 201" using ex_unreachable by simp
  moreover have "db_ok (wdb ex_world)" "files (wdb ex_world) = [live_file, trash_file]"
    using ex_db_ok by (simp_all add: ex_world_def) (simp add: ex_db_def)
  ultimately show ?thesis
    using failed_uploads_leave_no_trace[OF _ ex_calm _ r] r by simp
qed

end
