(* ===== verification/PropsMedia.thy ===== *)
theory PropsMedia
  imports Examples WorkerPool
begin

text \<open>
  The media pipeline: how the workers of the pool share the queue, what one worker's loop does to it,
  and what processing a job leaves behind when it fails.
\<close>

section \<open>The pool\<close>

text \<open>
  C8: however the workers' claims and marks, the requests that enqueue jobs or delete files, lost marks
  and crashes interleave, no job is ever claimed twice, no two workers hold the same job, and no job
  has been attempted more than once.
\<close>

theorem jobs_claimed_once:
  assumes "db_ok d" and "fresh_jobs d" and "pool_reach n (pool_init d) p"
  shows "distinct (po_claims p)
    \<and> (\<forall>w v j k. po_busy p w = Some j \<longrightarrow> po_busy p v = Some k \<longrightarrow> mj_id j = mj_id k \<longrightarrow> w = v)
    \<and> (\<forall>j\<in>set (jobs (po_db p)). mj_attempts j = (if mj_id j \<in> set (po_claims p) then 1 else 0))"
  using pool_inv_reach[OF assms(3) pool_inv_init[OF assms(1,2)]]
  unfolding pool_inv_def job_state_ok_def by (elim conjE, intro conjI) (simp_all split: if_splits)

lemma ex_pool: "db_ok ex_db" "fresh_jobs ex_db" "jobs ex_db = [ex_job]" "pending ex_job"
  by (simp_all add: ex_db_ok) (simp_all add: fresh_jobs_def ex_db_def ex_job_def pending_def)

lemma ex_claim: "claim_job t ex_db = (Some (claimed t ex_job), ex_db\<lparr>jobs := [claimed t ex_job]\<rparr>)"
  using ex_pool by (simp add: claim_job_def claim_stmt_run next_pending_def upd_where_def)

definition ex_claimed :: pool where
  "ex_claimed = \<lparr>po_db = ex_db\<lparr>jobs := [claimed 7 ex_job]\<rparr>, po_busy = [0 \<mapsto> claimed 7 ex_job],
     po_ids = [40], po_claims = [40]\<rparr>"

lemma ex_claimed_reach: "pool_reach 2 (pool_init ex_db) ex_claimed"
proof -
  let ?p = "pool_init ex_db"
  let ?q = "?p\<lparr>po_db := ex_db\<lparr>jobs := [claimed 7 ex_job]\<rparr>, po_busy := (po_busy ?p)(0 \<mapsto> claimed 7 ex_job),
      po_claims := mj_id (claimed 7 ex_job) # po_claims ?p\<rparr>"
  have "pool_step 2 ?p ?q"
    by (rule pool_step.Claim[where t = 7]) (simp_all add: pool_init_def ex_claim)
  then have "pool_reach 2 ?p ?q" by (rule pool_reach.Step[OF pool_reach.Start])
  moreover have "?q = ex_claimed"
    using ex_pool(3) by (simp add: pool_init_def ex_claimed_def) (simp add: ex_job_def claimed_def)
  ultimately show ?thesis by simp
qed

lemma jobs_claimed_once_witness: "distinct (po_claims ex_claimed) \<and> map mj_attempts (jobs (po_db ex_claimed)) = [1]"
proof -
  have "mj_attempts j = (if mj_id j \<in> set (po_claims ex_claimed) then 1 else 0)"
    if "j \<in> set (jobs (po_db ex_claimed))" for j
    using jobs_claimed_once[OF ex_pool(1,2) ex_claimed_reach] that by blast
  moreover have "distinct (po_claims ex_claimed)"
    using jobs_claimed_once[OF ex_pool(1,2) ex_claimed_reach] by blast
  ultimately show ?thesis by (simp add: ex_claimed_def) (simp add: ex_job_def claimed_def)
qed

text \<open>
  C40: a job that was claimed and is held by no worker (its worker crashed, or the mark of its result
  was lost) stays as it is for ever, or disappears with its file: nothing in the program makes it
  pending again, and enqueueing its file again changes nothing.
\<close>

theorem abandoned_jobs_stay:
  assumes "db_ok d" and "fresh_jobs d" and "pool_reach n (pool_init d) p" and "abandoned p j"
    and "pool_reach n p q"
  shows "\<forall>r\<in>set (jobs (po_db q)). mj_id r = mj_id j \<longrightarrow> r = j
    \<and> enqueue_stmt i s (mj_file j) t (po_db q) = (Inr (), po_db q)"
proof -
  have "abandoned q j"
    using assms(5,4)
  proof (induction rule: pool_reach.induct)
    case (Step q q')
    have "pool_inv q"
      using pool_inv_reach[OF Step(1)] pool_inv_reach[OF assms(3) pool_inv_init[OF assms(1,2)]] by blast
    with Step show ?case by (blast intro: abandoned_step)
  qed
  then show ?thesis by (auto simp: abandoned_def enqueue_stmt_def)
qed

lemma abandoned_jobs_stay_witness:
  "enqueue_stmt 99 10 20 8 (po_db ex_claimed) = (Inr (), po_db ex_claimed)"
proof -
  let ?p = "ex_claimed\<lparr>po_busy := (\<lambda>_. None)\<rparr>"
  have r: "pool_reach 2 (pool_init ex_db) ?p"
    by (rule pool_reach.Step[OF ex_claimed_reach pool_step.Crash])
  have a: "abandoned ?p (claimed 7 ex_job)"
    by (simp add: abandoned_def ex_claimed_def) (simp add: ex_job_def claimed_def)
  from abandoned_jobs_stay[OF ex_pool(1,2) r a pool_reach.Start, of 99 10 8] show ?thesis
    by (simp add: ex_claimed_def) (simp add: ex_job_def claimed_def)
qed

section \<open>One round is steps of the pool\<close>

lemma claim_runs:
  assumes "db_ok (wdb w)" and "run ClaimMediaJob w = (r, w')"
  shows "db_ok (wdb w') \<and> (case r of
      Inl e \<Rightarrow> wdb w' = wdb w
    | Inr None \<Rightarrow> wdb w' = wdb w
    | Inr (Some j) \<Rightarrow> claim_job (wclock w) (wdb w) = (Some j, wdb w'))"
  using assms job_stmts_ok(2)[OF assms(1), of "wclock w"]
  by (auto simp: ClaimMediaJob_def db_exec_def next_fault_def claim_stmt_run claim_job_def
      split: list.splits option.splits prod.splits if_splits)

definition mark :: "MediaJob \<Rightarrow> unit result \<Rightarrow> unit m" where
  "mark job out = (case out of
     Inl e \<Rightarrow> do { _ \<leftarrow> FailMediaJob (mj_id job) (cut_msg (err_text e)); ret () }
   | Inr _ \<Rightarrow> do { _ \<leftarrow> CompleteMediaJob (mj_id job); ret () })"

definition end_text :: "unit result \<Rightarrow> string option" where
  "end_text out = (case out of Inl e \<Rightarrow> Some (cut_msg (err_text e)) | Inr _ \<Rightarrow> None)"

lemma cut_cut: "cut_msg s = (if length s > 8000 then take 8000 s else s)" "\<not> length (cut_msg s) > 8000"
  by (simp_all add: cut_msg_def)

lemma mark_runs:
  assumes "run (mark j out) w = (u, w')"
  shows "wdb w' = wdb w \<or> wdb w' = finish_job (wclock w) j (end_text out) (wdb w)"
  using assms cut_cut(2)
  by (auto simp: mark_def end_text_def FailMediaJob_def CompleteMediaJob_def finish_job_def Let_def
      run_try_bind db_exec_def next_fault_def split: sum.splits list.splits option.splits prod.splits)

lemma worker_round_alt:
  "worker_round process = do {
     r \<leftarrow> ClaimMediaJob;
     (case r of Inl _ \<Rightarrow> ret Waited | Inr None \<Rightarrow> ret Waited
      | Inr (Some job) \<Rightarrow> do { out \<leftarrow> process job; mark job out; ret (Worked job out) })}"
  unfolding worker_round_def mark_def by (rule arg_cong, rule ext) (simp split: sum.split option.split)

lemma round_cases:
  assumes "db_ok (wdb w)" and "run (media_worker_round mx x e) w = (r, w')"
  obtains "r = Waited" "wdb w' = wdb w"
  | j out w1 w2 where "r = Worked j out" "claim_job (wclock w) (wdb w) = (Some j, wdb w1)" "db_ok (wdb w1)"
      "run (Process mx x randomSig e j) w1 = (out, w2)" "run (mark j out) w2 = ((), w')"
proof -
  obtain c w1 where c: "run ClaimMediaJob w = (c, w1)" by force
  note cr = claim_runs[OF assms(1) c]
  show thesis
  proof (cases "\<exists>j. c = Inr (Some j)")
    case True
    then obtain j where j: "c = Inr (Some j)" by blast
    obtain out w2 where p: "run (Process mx x randomSig e j) w1 = (out, w2)" by force
    have m: "run (mark j out) w2 = ((), w')" and r: "r = Worked j out"
      using assms(2) c j p by (auto simp: media_worker_round_def worker_round_alt split: prod.splits)
    show thesis by (rule that(2)[OF r _ _ p m]) (use cr j in simp_all)
  next
    case False
    then have "r = Waited" "w' = w1"
      using assms(2) c by (auto simp: media_worker_round_def worker_round_alt split: sum.splits option.splits)
    moreover have "wdb w1 = wdb w" using cr False by (auto split: sum.splits option.splits)
    ultimately show thesis using that(1) by simp
  qed
qed

lemma process_frame:
  assumes "run (Process mx x randomSig e j) w = (out, w')"
  shows "jobs (wdb w') = jobs (wdb w)" and "db_ok (wdb w) \<Longrightarrow> db_ok (wdb w')"
  using keeps_allD[OF process_jobs[of "jobs (wdb w)"] _ assms]
    keeps_allD[OF process_ok[OF keeps_randomSig] _ assms] by (simp_all add: on_db_def)

text \<open>
  Whatever faults happen, one round of a worker's loop is a sequence of steps of the pool: waiting
  is no step, a job worked on is a claim, a step that leaves the queue alone, and a mark or its loss.
\<close>

lemma worker_round_refines_pool:
  assumes "db_ok (wdb w)" and "po_db p = wdb w" and "k < n" and "po_busy p k = None"
    and "run (media_worker_round mx x e) w = (r, w')"
  shows "\<exists>q. pool_reach n p q \<and> po_db q = wdb w' \<and> po_busy q = po_busy p \<and> po_ids q = po_ids p
    \<and> po_claims q = (case r of Waited \<Rightarrow> po_claims p | Worked j out \<Rightarrow> mj_id j # po_claims p)"
  using assms(1,5)
proof (cases rule: round_cases)
  case 1
  with assms(2) show ?thesis by (intro exI[of _ p]) (simp add: pool_reach.Start)
next
  case (2 j out w1 w2)
  let ?q1 = "p\<lparr>po_db := wdb w1, po_busy := (po_busy p)(k \<mapsto> j), po_claims := mj_id j # po_claims p\<rparr>"
  let ?q2 = "?q1\<lparr>po_db := wdb w2\<rparr>"
  have 1: "pool_step n p ?q1"
    by (rule pool_step.Claim[OF assms(3,4)]) (use 2(2) assms(2) in simp)
  note f = process_frame[OF 2(4)]
  have "pool_step n ?q1 ?q2"
    using pool_step.Other[of "wdb w2" ?q1 n] f 2(3) by (simp add: jobs_shrink_def)
  with 1 have r: "pool_reach n p ?q2" by (blast intro: pool_reach.intros)
  have busy: "(po_busy p)(k := None) = po_busy p" using assms(4) by (simp add: fun_upd_idem)
  let ?q3 = "?q2\<lparr>po_db := wdb w', po_busy := (po_busy ?q2)(k := None)\<rparr>"
  have "pool_step n ?q2 ?q3"
    using mark_runs[OF 2(5)]
  proof
    assume "wdb w' = wdb w2"
    with pool_step.Lost_mark[of k n ?q2 j] assms(3) show ?thesis by simp
  next
    assume "wdb w' = finish_job (wclock w2) j (end_text out) (wdb w2)"
    with pool_step.Finish[of k n ?q2 j "wclock w2" "end_text out"] assms(3) show ?thesis by simp
  qed
  with r have "pool_reach n p ?q3" by (rule pool_reach.Step)
  with 2(1) busy show ?thesis by (intro exI[of _ ?q3]) simp
qed

definition ex_mext :: mext where
  "ex_mext = \<lparr>m_exif = (\<lambda>_. None), m_decode = (\<lambda>_. Fails (Err ''no codec'')), m_resize = (\<lambda>i _ _. i),
     m_fit = (\<lambda>i _ _. i), m_encode = (\<lambda>_ _. Fails (Err ''no codec'')),
     m_temp = (\<lambda>_. None), m_ffprobe = (\<lambda>_. None)\<rparr>"

section \<open>A worker's loop\<close>

text \<open>The loop until nothing waits, or for \<open>n\<close> rounds: the jobs worked on, in order.\<close>

fun worker_loop :: "mext \<Rightarrow> ext \<Rightarrow> Env \<Rightarrow> nat \<Rightarrow> MediaJob list m" where
  "worker_loop mx x e 0 = ret []"
| "worker_loop mx x e (Suc n) = do {
     r \<leftarrow> media_worker_round mx x e;
     (case r of Waited \<Rightarrow> ret []
      | Worked job out \<Rightarrow> do { js \<leftarrow> worker_loop mx x e n; ret (job # js) })}"

text \<open>The queue again, now as the operations of the database client in a world without faults.\<close>

definition world_claim :: "world \<Rightarrow> MediaJob option \<times> world" where
  "world_claim w = (case run ClaimMediaJob w of (r, w') \<Rightarrow> (case r of Inl _ \<Rightarrow> None | Inr o' \<Rightarrow> o', w'))"

definition world_finish :: "MediaJob \<Rightarrow> string option \<Rightarrow> world \<Rightarrow> world" where
  "world_finish j out w = snd (run (mark j (case out of None \<Rightarrow> Inr () | Some s \<Rightarrow> Inl (Err s))) w)"

definition world_work :: "mext \<Rightarrow> ext \<Rightarrow> Env \<Rightarrow> MediaJob \<Rightarrow> world \<Rightarrow> string option \<times> world" where
  "world_work mx x e j w = (case run (Process mx x randomSig e j) w of (out, w') \<Rightarrow>
     (case out of Inl er \<Rightarrow> Some (err_text er) | Inr _ \<Rightarrow> None, w'))"

lemma err_text_Err [simp]: "err_text (Err s) = s"
  by (simp add: err_text_def)

definition world_inv :: "world \<Rightarrow> bool" where
  "world_inv w \<longleftrightarrow> calm w \<and> db_ok (wdb w)"

lemma claim_calm: "world_inv w \<Longrightarrow> world_claim w
  = (fst (claim_job (wclock w) (wdb w)), w\<lparr>wdb := snd (claim_job (wclock w) (wdb w))\<rparr>)"
  by (simp add: world_inv_def world_claim_def ClaimMediaJob_def claim_job_def claim_stmt_run split: option.splits)

lemma finish_calm_job:
  assumes "world_inv w"
  shows "world_finish j out w = w\<lparr>wdb := finish_job (wclock w) j (map_option cut_msg out) (wdb w)\<rparr>"
  using assms cut_cut(2)
  by (cases out) (simp_all add: world_inv_def world_finish_def mark_def FailMediaJob_def CompleteMediaJob_def Let_def
      run_try_bind finish_job_def complete_stmt_run fail_stmt_run)

lemma claim_calm_job:
  assumes "world_inv w" and "world_claim w = (r, w')"
  shows "claim_job (wclock w) (wdb w) = (r, wdb w')" and "calm w'"
proof -
  have "r = fst (claim_job (wclock w) (wdb w))" "w' = w\<lparr>wdb := snd (claim_job (wclock w) (wdb w))\<rparr>"
    using assms(2) by (simp_all add: claim_calm[OF assms(1)])
  then show "claim_job (wclock w) (wdb w) = (r, wdb w')" "calm w'" using assms(1) by (simp_all add: world_inv_def)
qed

interpretation world_jobs: job_queue world_claim world_finish mj_id "\<lambda>w. waiting_jobs (wdb w)" world_inv
proof unfold_locales
  fix s s' :: world and j :: MediaJob and r :: "MediaJob option" and out :: "string option"
  have db: "world_inv s \<Longrightarrow> db_ok (wdb s)" by (simp add: world_inv_def)
  show "world_inv s'" if "world_inv s" "world_claim s = (r, s')"
    using claim_calm_job[OF that] jobs_at.claim_inv[OF db] that(1) by (metis world_inv_def)
  show "world_inv (world_finish j out s)" if "world_inv s"
    using that jobs_at.finish_inv[of "wdb s" "wclock s" j "map_option cut_msg out"]
    by (simp add: finish_calm_job) (simp add: world_inv_def)
  show "waiting_jobs (wdb s) = {} \<and> waiting_jobs (wdb s') = {}" if "world_inv s" "world_claim s = (None, s')"
    by (rule jobs_at.claim_none[OF db[OF that(1)] claim_calm_job(1)[OF that]])
  show "mj_id j \<in> waiting_jobs (wdb s) \<and> waiting_jobs (wdb s') = waiting_jobs (wdb s) - {mj_id j}"
    if "world_inv s" "world_claim s = (Some j, s')"
    by (rule jobs_at.claim_some[OF db[OF that(1)] claim_calm_job(1)[OF that]])
  show "waiting_jobs (wdb (world_finish j out s)) = waiting_jobs (wdb s) - {mj_id j}" if "world_inv s"
    using that jobs_at.finish_waiting[of "wdb s" "wclock s" j "map_option cut_msg out"]
    by (simp add: finish_calm_job) (simp add: world_inv_def)
  show "finite (waiting_jobs (wdb s))" by (rule jobs_at.finite_waiting)
qed

lemma mark_world: "run (mark j out) w
    = ((), world_finish j (case out of Inl er \<Rightarrow> Some (err_text er) | Inr _ \<Rightarrow> None) w)"
  by (cases out) (simp_all add: world_finish_def mark_def prod_eq_iff)

lemma drain_worker_loop:
  "drain world_claim world_finish (world_work mx x e) n w = run (worker_loop mx x e n) w"
proof (induction n arbitrary: w)
  case (Suc n)
  obtain c w1 where c: "run ClaimMediaJob w = (c, w1)" by force
  show ?case
  proof (cases "\<exists>j. c = Inr (Some j)")
    case True
    then obtain j where j: "c = Inr (Some j)" by blast
    obtain out w2 where p: "run (Process mx x randomSig e j) w1 = (out, w2)" by force
    show ?thesis
      using Suc.IH by (simp add: media_worker_round_def worker_round_alt world_claim_def world_work_def c j p mark_world)
  next
    case False
    then show ?thesis
      by (auto simp: media_worker_round_def worker_round_alt world_claim_def c split: sum.splits option.splits)
  qed
qed simp

lemma calm_prims:
  "keeps_all calm new_uuid" "keeps_all calm (db_query q)" "keeps_all calm (db_exec q')" "keeps_all calm (blob_op b)"
  by (simp_all add: keeps_all_def)

lemma calm_in_tx: "keeps_all calm body \<Longrightarrow> keeps_all calm (in_tx body)"
  by (auto simp: keeps_all_def in_tx_def split: prod.splits sum.splits option.splits)

lemma calm_reads_media:
  "keeps_all calm (StorageMediaExistsForFile i)" "keeps_all calm (GetFileForWorker s i)" "keeps_all calm (GetStorage s)"
  "keeps_all calm (GetMimeByMIME mime)" "keeps_all calm (UpdateFileExifMetadata i meta)" "keeps_all calm randomSig"
  unfolding StorageMediaExistsForFile_def GetFileForWorker_def GetStorage_def GetMimeByMIME_def loadFileRow_def
    enrichFile_def set_owner_def set_type_def GetUserPublic_def UpdateFileExifMetadata_def randomSig_def Let_def
  by (intro keeps calm_prims)+

lemma calm_rows:
  "keeps_all calm (insertSizedImageRows mx ids randomSig be img f bs i ty ow oh)"
  "keeps_all calm (insertThumbnailRows mx ids randomSig be img f specs i ty)"
proof -
  note defs = image_steps InsertFileTx_def InsertStorageMediaImageSizedTx_def InsertStorageMediaThumbnailTx_def Put_def Let_def
  show "keeps_all calm (insertSizedImageRows mx ids randomSig be img f bs i ty ow oh)"
    by (induction bs) (auto simp: defs intro!: keeps calm_prims calm_reads_media split: prod.splits)
  show "keeps_all calm (insertThumbnailRows mx ids randomSig be img f specs i ty)"
    by (induction specs) (auto simp: defs intro!: keeps calm_prims calm_reads_media)
qed

lemma process_calm: "keeps_all calm (Process mx x randomSig e job)"
  unfolding Process_def processCategory_def processImage_def storeImage_def processVideo_def processDocument_def image_tx_def probeVideo_def Open_def
    InsertStorageMediaTx_def InsertStorageMediaImageTx_def InsertStorageMediaVideoTx_def
    InsertStorageMediaDocumentTx_def Let_def
  by (intro keeps calm_prims calm_reads_media calm_rows calm_in_tx)+

lemma work_frame: "world_jobs.frame (world_work mx x e)"
  unfolding world_jobs.frame_def
proof (intro allI impI)
  fix j s assume inv: "world_inv s"
  obtain out s' where p: "run (Process mx x randomSig e j) s = (out, s')" by force
  have "calm s'" using keeps_allD[OF process_calm _ p] inv by (simp add: world_inv_def)
  then show "world_inv (snd (world_work mx x e j s)) \<and> waiting_jobs (wdb (snd (world_work mx x e j s))) = waiting_jobs (wdb s)"
    using process_frame[OF p] inv p by (simp add: world_work_def world_inv_def waiting_jobs_def)
qed

text \<open>
  C9: with a working database, a worker left alone empties the queue: within as many rounds as jobs are
  pending it works on every one of them, each once, and then nothing is pending, however the processing
  of the jobs ends.
\<close>

theorem worker_empties_queue:
  assumes "calm w" and "db_ok (wdb w)" and "card (waiting_jobs (wdb w)) \<le> n"
    and "run (worker_loop mx x e n) w = (js, w')"
  shows "waiting_jobs (wdb w') = {} \<and> mj_id ` set js = waiting_jobs (wdb w) \<and> distinct (map mj_id js)"
  by (rule world_jobs.drain_all[OF _ work_frame assms(3)])
    (use assms in \<open>simp_all add: world_inv_def drain_worker_loop\<close>)

lemma worker_empties_queue_witness:
  "waiting_jobs (wdb (snd (run (worker_loop ex_mext ex_ext ex_env 1) ex_world))) = {}"
proof -
  have w: "wdb ex_world = ex_db" by (simp add: ex_world_def)
  have c: "card (waiting_jobs (wdb ex_world)) \<le> 1" using ex_pool(3) card_image_le[of "{j \<in> {ex_job}. pending j}" mj_id]
      by (simp add: w waiting_jobs_def card_le_Suc0_iff_eq)
  from worker_empties_queue[OF ex_calm _ c surjective_pairing] ex_db_ok show ?thesis by (simp add: w)
qed

section \<open>Processing\<close>

text \<open>Actions whose failure leaves the tables as they were.\<close>

definition undone :: "'a result m \<Rightarrow> bool" where
  "undone m \<longleftrightarrow> (\<forall>w er w'. run m w = (Inl er, w') \<longrightarrow> wdb w' = wdb w)"

definition quiet :: "'a m \<Rightarrow> bool" where
  "quiet m \<longleftrightarrow> (\<forall>w. wdb (snd (run m w)) = wdb w)"

named_theorems undone_intros "actions undone by their failure"

lemma undone_rules [undone_intros]:
  "undone (ret r)" "undone (in_tx body)"
  "quiet m \<Longrightarrow> (\<And>v. undone (f v)) \<Longrightarrow> undone (try_bind m f)"
  "quiet m' \<Longrightarrow> (\<And>v. undone (g v)) \<Longrightarrow> undone (do { v \<leftarrow> m'; g v })"
  "undone a \<Longrightarrow> undone b \<Longrightarrow> undone (if c then a else b)"
proof -
  show "undone (in_tx body)"
    by (auto simp: undone_def in_tx_def split: prod.splits option.splits sum.splits dest!: next_fault_db)
  show "undone (try_bind m f)" if "quiet m" "\<And>v. undone (f v)"
    using that by (auto simp: undone_def quiet_def run_try_bind split: prod.splits sum.splits) (metis snd_conv)+
  show "undone (do { v \<leftarrow> m'; g v })" if "quiet m'" "\<And>v. undone (g v)"
    using that by (auto simp: undone_def quiet_def split: prod.splits) (metis snd_conv)+
qed (auto simp: undone_def)

lemma undone_after:
  assumes "undone m" and "\<And>v w. \<exists>u w'. run (f v) w = (Inr u, w')"
  shows "undone (try_bind m f)"
  unfolding undone_def run_try_bind
proof (intro allI impI)
  fix w er w' assume r: "(case run m w of (r, w') \<Rightarrow> case r of Inl e \<Rightarrow> (Inl e, w') | Inr x \<Rightarrow> run (f x) w') = (Inl er, w')"
  obtain a w1 where a: "run m w = (a, w1)" by force
  show "wdb w' = wdb w"
  proof (cases a)
    case (Inl e)
    with a r assms(1) show ?thesis by (simp add: undone_def)
  next
    case (Inr v)
    with a r assms(2)[of v w1] show ?thesis by auto
  qed
qed

lemma undone_cases [undone_intros]:
  "(\<And>e. undone (f e)) \<Longrightarrow> (\<And>x. undone (g x)) \<Longrightarrow> undone (case_sum f g r)"
  "(\<And>v. undone (f1 v)) \<Longrightarrow> (\<And>er. undone (g1 er)) \<Longrightarrow> (\<And>s. undone (h1 s)) \<Longrightarrow> undone (case_call f1 g1 h1 c)"
  "(\<And>a b. undone (k a b)) \<Longrightarrow> undone (case_prod k p)"
  by (cases r, simp_all) (cases c, simp_all, cases p, simp)

lemma quiet_reads: "reads m \<Longrightarrow> quiet m"
  unfolding quiet_def by (metis reads_same same_state_def prod.collapse)

lemma quiet_prims [undone_intros]:
  "quiet new_uuid" "quiet (Open be p)" "quiet (ret r)" "quiet (GetMimeByMIME mime)"
  "quiet (StorageMediaExistsForFile i)" "quiet (GetFileForWorker s i)" "quiet (GetStorage s)"
  by (simp_all add: quiet_reads media_reads data_reads)
    (simp_all add: quiet_def Open_def blob_op_def next_fault_def split: list.splits option.splits prod.splits)

lemma quiet_probe [undone_intros]: "quiet (probeVideo mx x e st f)"
  by (auto simp: quiet_def probeVideo_def run_try_bind Open_def blob_op_def next_fault_def Let_def
      split: sum.splits list.splits option.splits prod.splits)

text \<open>
  C20: a job whose processing fails, by an error or by a panic of a codec, at whatever point, leaves the
  database as it was: the media row, its details and the derived files are stored together or not at
  all.
\<close>

theorem failed_processing_undone:
  assumes "run (Process mx x sig e job) w = (Inl er, w')"
  shows "wdb w' = wdb w"
proof -
  have "undone (Process mx x sig e job)"
    unfolding Process_def processCategory_def processImage_def storeImage_def processVideo_def processDocument_def Let_def
    by (intro undone_after[OF undone_rules(2)] undone_intros) (simp_all split: prod.split)
  with assms show ?thesis by (simp add: undone_def)
qed

lemma ex_process_fails: "run (Process ex_mext ex_ext (ret ''sig'') ex_env ex_job)
    (ex_world\<lparr>wfaults := [Some (Err ''down'')]\<rparr>) = (Inl (Err ''down''), ex_world)"
  by (simp add: Process_def StorageMediaExistsForFile_def run_try_bind db_query_def next_fault_def)
    (simp add: ex_world_def)

lemma failed_processing_undone_witness: "wdb ex_world = wdb (ex_world\<lparr>wfaults := [Some (Err ''down'')]\<rparr>)"
  by (rule failed_processing_undone[OF ex_process_fails])

section \<open>Boxes\<close>

lemma TrimSpace_plain:
  assumes "\<And>c. c \<in> set s \<Longrightarrow> is_digit c \<or> c = CHR ''-'' \<or> c = CHR ''x''"
  shows "TrimSpace s = s"
proof -
  have heads: "\<forall>q\<in>set qs. q \<noteq> [] \<longrightarrow> \<not> is_digit (hd q) \<and> hd q \<noteq> CHR ''-'' \<and> hd q \<noteq> CHR ''x''"
    if "qs = space_seqs \<or> qs = map rev space_seqs" for qs
    using that by (auto simp: space_seqs_def is_digit_def)
  have "strip_seqs qs r = r" if "qs = space_seqs \<or> qs = map rev space_seqs" "set r \<subseteq> set s" for qs r
  proof (cases r)
    case (Cons c r')
    have "\<forall>q\<in>set qs. q \<noteq> [] \<longrightarrow> hd q \<noteq> c" using heads[OF that(1)] assms[of c] that(2) Cons by auto
    with Cons show ?thesis by (simp add: strip_seqs_cons_stop)
  qed simp
  then show ?thesis by (simp add: TrimSpace_def)
qed

text \<open>
  A box written as width, \<open>x\<close>, height in decimal is read back as it is, whatever spaces are put
  around it; nothing with a zero or a negative side is accepted.
\<close>

theorem parseOneSizeString_reads_back:
  assumes "in_int64 w" and "in_int64 h"
  shows "parseOneSizeString (replicate k (CHR '' '') @ Itoa w @ ''x'' @ Itoa h @ replicate l (CHR '' ''))
    = (if 0 < w \<and> 0 < h then Inr \<lparr>box_w = w, box_h = h\<rparr> else Inl (Err (''bad size '' @ Itoa w @ ''x'' @ Itoa h)))"
proof -
  let ?s = "Itoa w @ ''x'' @ Itoa h"
  have chars: "\<And>c. c \<in> set (Itoa n) \<Longrightarrow> c \<noteq> CHR '' '' \<and> c \<noteq> CHR ''x'' \<and> lower_char c = c" for n
    using Itoa_chars[of _ n] by (fastforce simp: is_digit_def lower_char_def)
  have "filter (\<lambda>c. c \<noteq> CHR '' '') (replicate k (CHR '' '') @ ?s @ replicate l (CHR '' '')) = ?s"
    using chars by (auto simp: filter_id_conv)
  moreover have "ToLower ?s = ?s"
    using chars by (simp add: ToLower_def map_idI lower_char_def)
  moreover have "TrimSpace ?s = ?s"
    by (rule TrimSpace_plain) (use Itoa_chars in auto)
  moreover have "split_on (CHR ''x'') ?s = [Itoa w, Itoa h]"
  proof -
    have "CHR ''x'' \<notin> set (Itoa w)" "CHR ''x'' \<notin> set (Itoa h)" using chars by blast+
    then show ?thesis using split_on_append_sep[of "CHR ''x''" "Itoa w" "Itoa h"] by (simp add: split_on_free)
  qed
  ultimately show ?thesis
    using assms by (auto simp: parseOneSizeString_def Let_def Atoi_Itoa)
qed

lemma bit_len_1: "bit_len (Suc 0) = 1"
  by (subst bit_len.simps) (simp add: bit_len.simps[of 0])

lemma bit_len_bounds: "0 < n \<Longrightarrow> 0 < bit_len n \<and> 2 ^ (bit_len n - 1) \<le> n \<and> n < 2 ^ bit_len n"
proof (induction n rule: bit_len.induct)
  case (1 n)
  show ?case
  proof (cases "n div 2 = 0")
    case True
    with 1 have "n = 1" by auto
    then show ?thesis by (simp add: bit_len_1)
  next
    case False
    let ?k = "bit_len (n div 2)"
    have k: "bit_len n = Suc ?k" using 1(2) by (simp add: bit_len.simps[of n])
    have ih: "0 < ?k" "2 ^ (?k - 1) \<le> n div 2" "n div 2 < 2 ^ ?k" using 1 False by auto
    from ih(1) have "(2::nat) ^ ?k = 2 * 2 ^ (?k - 1)" by (cases ?k) simp_all
    then have "(2::nat) ^ ?k \<le> n" "n < 2 * 2 ^ ?k" using ih by linarith+
    with k show ?thesis by simp
  qed
qed

text \<open>Whole numbers up to \<open>2^53\<close> are float64 values.\<close>

lemma round64_int:
  assumes "0 < n" and "n < 2 ^ 53"
  shows "round64 (of_int n) = Fin (of_int n)"
proof -
  let ?k = "bit_len (nat n)"
  have b: "0 < ?k" "2 ^ (?k - 1) \<le> nat n" "nat n < 2 ^ ?k" using bit_len_bounds[of "nat n"] assms(1) by auto
  note one = bit_len_1
  have "int (2 ^ (?k - 1)) \<le> int (nat n)" using b(2) by (simp only: of_nat_le_iff)
  then have low: "(2::int) ^ (?k - 1) \<le> n" using assms(1) by simp
  then have "(2::int) ^ (?k - 1) < 2 ^ 53" using assms(2) by simp
  then have k: "?k \<le> 53" using power_less_imp_less_exp[of "2::int" "?k - 1" 53] by simp
  have "of_int (2 ^ (?k - 1)) \<le> (of_int n :: rat)" using low by (simp only: of_int_le_iff)
  then have "pow2 (int ?k - 1) \<le> of_int n" using b(1) by (simp add: pow2_def nat_diff_distrib)
  then have l: "log2_floor \<bar>of_int n\<bar> = int ?k - 1"
    using assms(1) one by (simp add: log2_floor_def Let_def)
  define j where "j = 53 - ?k"
  have u: "pow2 (max (int ?k - 1 - 52) (- 1074)) = 1 / 2 ^ j"
  proof (cases "?k = 53")
    case True
    then show ?thesis by (simp add: pow2_def j_def)
  next
    case False
    with k have "nat (- (int ?k - 1 - 52)) = j" "int ?k - 1 - 52 < 0" "max (int ?k - 1 - 52) (- 1074) = int ?k - 1 - 52"
      by (auto simp: j_def)
    then show ?thesis by (simp add: pow2_def)
  qed
  have "round_even (of_int n / (1 / 2 ^ j)) = n * 2 ^ j"
  proof -
    have "(of_int n :: rat) / (1 / 2 ^ j) = of_int (n * 2 ^ j)" by simp
    then show ?thesis by (simp add: round_even_def Let_def del: of_int_mult)
  qed
  moreover have "(of_int n :: rat) < pow2 1024"
  proof -
    have "n < 2 ^ 1024" using assms(2) by (rule less_trans) simp
    then have "of_int n < (of_int (2 ^ 1024) :: rat)" by (simp only: of_int_less_iff)
    then show ?thesis by (simp add: pow2_def)
  qed
  ultimately show ?thesis
    using assms(1) l u by (simp add: round64_def Let_def)
qed

text \<open>
  The box's width does not bound a landscape picture: one as high as the box keeps its size, however
  wide it is.
\<close>

lemma landscape_ignores_box_width:
  assumes "0 < h" and "h \<le> w" and "w < 2 ^ 53"
  shows "computeNewImageDimensions w h boxW h = (Some w, Some h)"
proof -
  have f: "float_of_int w = Fin (of_int w)" "float_of_int h = Fin (of_int h)"
    using assms round64_int by (simp_all add: float_of_int_def)
  have "fdiv (Fin (of_int h)) (Fin (of_int h)) = Fin 1"
    using assms(1) round64_int[of 1] by (simp add: fdiv_def)
  moreover have "fmul (Fin (of_int n)) (Fin 1) = Fin (of_int n)" if "0 < n" "n < 2 ^ 53" for n
    using round64_int[OF that] by (simp add: fmul_def)
  moreover have "to_int (Fin (of_int n)) = Some n" if "0 < n" "n < 2 ^ 53" for n
  proof -
    have "\<lfloor>of_int n + 1 / 2 :: rat\<rfloor> = n" by linarith
    with that show ?thesis by (simp add: to_int_def round_half_away_def in_int64_def min_int64_def max_int64_def)
  qed
  ultimately show ?thesis using f assms by (simp add: computeNewImageDimensions_def Let_def)
qed

lemma landscape_ignores_box_width_witness: "computeNewImageDimensions 4000 100 100 100 = (Some 4000, Some 100)"
  by (rule landscape_ignores_box_width) simp_all

lemma parseOneSizeString_reads_back_witness: "parseOneSizeString '' 640x480'' = Inr \<lparr>box_w = 640, box_h = 480\<rparr>"
proof -
  have "in_int64 640" "in_int64 480" by (simp_all add: in_int64_def min_int64_def max_int64_def)
  moreover have "Itoa 640 = ''640''" "Itoa 480 = ''480''" by code_simp+
  ultimately show ?thesis using parseOneSizeString_reads_back[of 640 480 1 0] by simp
qed

end
