(* ===== verification/PropsMeta.thy ===== *)
theory PropsMeta
  imports PropsMedia
begin

text \<open>
  What processing a job leaves behind when it succeeds: the media row with its details and derived
  files, read from the stored bytes; how EXIF tags and ffprobe's output are read.
\<close>

section \<open>What a processed file has\<close>

definition stored_bytes :: "ext \<Rightarrow> Env \<Rightarrow> world \<Rightarrow> StorageFile \<Rightarrow> Backend \<Rightarrow> string \<Rightarrow> bool" where
  "stored_bytes x e w f be bytes \<longleftrightarrow> (\<exists>st\<in>set (storages (wdb w)). st_id st = sf_storage f
     \<and> storage_backend x e st = Inr be \<and> open_stmt be (ns_str (sf_real_path f)) (wblobs w) = Inr bytes)"





section \<open>The inserts\<close>

text \<open>\<open>grows\<close>: nothing is lost on the way, and the listed tables are as they were.\<close>

definition grows :: "world \<Rightarrow> world \<Rightarrow> bool" where
  "grows w w' \<longleftrightarrow> set (files (wdb w)) \<subseteq> set (files (wdb w')) \<and> medias (wdb w') = medias (wdb w)
     \<and> images (wdb w') = images (wdb w) \<and> dom (wblobs w) \<subseteq> dom (wblobs w')"

lemma grows_refl [simp]: "grows w w"
  by (simp add: grows_def)





text \<open>One derived file: its row and its object.\<close>

lemma derived_file_fields [simp]:
  "sf_id (new_file_row t (derived_file f i s n vp z ty ex cu)) = i"
  "sf_origin (new_file_row t (derived_file f i s n vp z ty ex cu)) = ''DERIVED''"
  "sf_status (new_file_row t (derived_file f i s n vp z ty ex cu)) = ''PUBLISHED''"
  "sf_storage (new_file_row t (derived_file f i s n vp z ty ex cu)) = sf_storage f"
  "sf_owner_id (new_file_row t (derived_file f i s n vp z ty ex cu)) = sf_owner_id f"
  "ns_str (sf_real_path (new_file_row t (derived_file f i s n vp z ty ex cu))) = TrimPrefix vp ''/''"
  by (simp_all add: new_file_row_def derived_file_def nullString_def ns_str_def bare_def)


lemma new_uuid_ok: "run new_uuid w = (i, w') \<Longrightarrow> wdb w' = wdb w \<and> wblobs w' = wblobs w"
  by auto










section \<open>Transactions\<close>








lemma same_stored: "same_state w w1 \<Longrightarrow> stored_bytes x e w1 f be bytes = stored_bytes x e w f be bytes"
  by (simp add: same_state_def stored_bytes_def)













section \<open>A processed job\<close>
























section \<open>EXIF tags as JSON\<close>

definition ascii :: "string \<Rightarrow> bool" where
  "ascii s \<longleftrightarrow> list_all (\<lambda>c. (of_char c :: nat) < 128) s"

lemma ascii_valid: "ascii s \<Longrightarrow> ToValidUTF8 s = s"
  by (induction s) (simp_all add: ascii_def)

lemma exif_strings_set: "(n, s) \<in> set (exif_strings x) \<longleftrightarrow> (\<exists>t. (n, t) \<in> set x \<and> tg_string t = Some s)"
  by (induction x) (auto simp: exif_strings_def List.map_filter_simps split: option.splits)

lemma exif_strings_distinct:
  assumes "distinct (map fst x)"
  shows "distinct (map fst (exif_strings x))"
  using assms
proof (induction x)
  case Nil
  then show ?case by (simp add: exif_strings_def List.map_filter_simps)
next
  case (Cons a x)
  obtain n t where a: "a = (n, t)" by force
  have "n \<notin> fst ` set (exif_strings x)"
    using Cons(2) a by (auto simp: exif_strings_set) (metis fst_conv image_eqI)
  with Cons a show ?case
    by (cases "tg_string t") (auto simp: exif_strings_def List.map_filter_simps)
qed

text \<open>The pairs a map is written with: each key once, in order, with its value.\<close>

lemma map_pairs_keys: "map fst (map_pairs kvs) = sort (remdups (map fst kvs))"
  by (simp add: map_pairs_def comp_def)

lemma map_pairs_set:
  assumes "distinct (map fst kvs)"
  shows "set (map_pairs kvs) = set kvs"
proof -
  have lookup: "map_of (rev kvs) k = map_of kvs k" for k
  proof (cases "map_of kvs k")
    case None
    then have "k \<notin> fst ` set (rev kvs)" by (simp add: map_of_eq_None_iff)
    then have "map_of (rev kvs) k = None" by (simp only: map_of_eq_None_iff not_False_eq_True)
    with None show ?thesis by simp
  next
    case (Some v)
    then have "(k, v) \<in> set (rev kvs)" by (simp add: map_of_SomeD)
    with assms Some show ?thesis by (simp add: map_of_is_SomeI rev_map[symmetric])
  qed
  have "(k, v) \<in> set (map_pairs kvs) \<longleftrightarrow> (k, v) \<in> set kvs" for k v
    using assms by (auto simp: map_pairs_def lookup map_of_is_SomeI image_iff intro: rev_bexI)
  then show ?thesis by auto
qed

text \<open>
  C38: the JSON kept for an image parses, and says what its tags say: its members are the tags that are
  strings, each once, in the order of their names, with their texts as UTF-8.
\<close>

theorem exif_reads_back:
  assumes "distinct (map fst x)" and "list_all ascii (map fst x)"
  shows "\<exists>ms. json_parse (exifToJSON x) = Some (JObj ms) \<and> sorted (map fst ms) \<and> distinct (map fst ms)
    \<and> (\<lambda>(n, _, v). (n, v)) ` set ms = {(n, JStr (ToValidUTF8 s)) | n s. Option.bind (map_of x n) tg_string = Some s}"
proof -
  let ?kvs = "exif_strings x" and ?ms = "map pair_member (map_pairs (exif_strings x))"
  have d: "distinct (map fst ?kvs)" by (rule exif_strings_distinct[OF assms(1)])
  have valid: "ToValidUTF8 n = n" if "(n, s) \<in> set (map_pairs ?kvs)" for n s
    using that assms(2) ascii_valid by (auto simp: map_pairs_set[OF d] exif_strings_set list_all_iff)
  then have keys: "map fst ?ms = sort (remdups (map fst ?kvs))"
    unfolding map_pairs_keys[symmetric] by (auto simp: pair_member_def)
  have "(n, s) \<in> set ?kvs \<longleftrightarrow> Option.bind (map_of x n) tg_string = Some s" for n s
    using assms(1) by (auto simp: exif_strings_set bind_eq_Some_conv dest: map_of_SomeD)
  then have "(\<lambda>(n, _, v). (n, v)) ` set ?ms
      = {(n, JStr (ToValidUTF8 s)) | n s. Option.bind (map_of x n) tg_string = Some s}"
    using valid by (force simp: pair_member_def map_pairs_set[OF d] image_iff)
  then show ?thesis
    unfolding exifToJSON_def MarshalMap_def json_parse_pairs using keys by auto
qed

definition ex_tags :: exif where
  "ex_tags = [(''Model'', \<lparr>tg_string = Some ''X <1>'', tg_int = None, tg_rat = None\<rparr>),
     (''Flash'', \<lparr>tg_string = None, tg_int = Some 1, tg_rat = None\<rparr>),
     (''Make'', \<lparr>tg_string = Some ''Acme'', tg_int = None, tg_rat = None\<rparr>)]"

lemma exif_reads_back_witness:
  "json_parse (exifToJSON ex_tags) \<noteq> None \<and> exifToJSON ex_tags \<noteq> []"
proof -
  have "distinct (map fst ex_tags)" "list_all ascii (map fst ex_tags)"
    by (simp_all add: ex_tags_def ascii_def)
  from exif_reads_back[OF this] show ?thesis by (auto simp: exifToJSON_def MarshalMap_def marshal_pairs_def)
qed

end
