(* ===== verification/PropsTypes.thy ===== *)
theory PropsTypes
  imports PropsAccess PropsMedia
begin

text \<open>
  The types of the rows: which words and combinations of columns the tables hold. The schema only
  bounds their widths; that they stay within these types is a property of the statements the program
  sends, whatever the requests and the faults.
\<close>

named_theorems typing "operations and requests that keep the rows typed"

section \<open>The types\<close>

text \<open>
  A file is being uploaded, and then has no size, or is published. Only derived files are marked
  available, only files fetched from the web have an original path, and no file has a hash.
\<close>

definition file_typed :: "StorageFile \<Rightarrow> bool" where
  "file_typed f \<longleftrightarrow> (sf_status f = ''UPLOADING'' \<and> sf_size f = 0 \<and> sf_origin f \<noteq> ''DERIVED'' \<or> sf_status f = ''PUBLISHED'')
     \<and> sf_origin f \<in> {''LOCAL'', ''WEB'', ''DERIVED''} \<and> sf_hash f = None
     \<and> sf_available f = (sf_origin f = ''DERIVED'') \<and> (sf_orig_path f \<noteq> None) = (sf_origin f = ''WEB'')
     \<and> sf_exif f \<noteq> [] \<and> sf_custom f \<noteq> []"

text \<open>A pending job was never tried; exactly the failed jobs carry a message.\<close>

definition job_typed :: "MediaJob \<Rightarrow> bool" where
  "job_typed j \<longleftrightarrow> mj_status j \<in> {''pending'', ''processing'', ''done'', ''failed''} \<and> mj_attempts j \<ge> 0
     \<and> (mj_status j = ''pending'' \<longrightarrow> mj_attempts j = 0) \<and> (mj_last_error j \<noteq> None) = (mj_status j = ''failed'')"

definition media_typed :: "MediaRow \<Rightarrow> bool" where
  "media_typed m \<longleftrightarrow> md_type m \<in> {''IMAGE'', ''VIDEO'', ''DOCUMENT''}"

text \<open>A row of details belongs to media of its kind.\<close>

definition media_is :: "MediaRow list \<Rightarrow> uuid \<Rightarrow> string \<Rightarrow> bool" where
  "media_is ms i ty \<longleftrightarrow> list_all (\<lambda>m. md_id m = i \<longrightarrow> md_type m = ty) ms"

definition image_typed :: "MediaRow list \<Rightarrow> MediaImage \<Rightarrow> bool" where
  "image_typed ms i \<longleftrightarrow> media_is ms (mi_media i) ''IMAGE'' \<and> mi_size_tag i = Some ''SIZE_ORIGINAL''
     \<and> mi_height i \<noteq> None \<and> mi_width i \<noteq> None \<and> mi_exif_h i \<noteq> None \<and> mi_exif_w i \<noteq> None \<and> mi_flipped i = None"

definition video_typed :: "MediaRow list \<Rightarrow> MediaVideo \<Rightarrow> bool" where
  "video_typed ms v \<longleftrightarrow> media_is ms (mv_media v) ''VIDEO'' \<and> mv_size_tag v = Some ''SIZE_ORIGINAL''
     \<and> (mv_megapixels v \<noteq> None) = (mv_height v \<noteq> None \<and> mv_width v \<noteq> None)"

definition document_typed :: "MediaRow list \<Rightarrow> MediaDocument \<Rightarrow> bool" where
  "document_typed ms x \<longleftrightarrow> media_is ms (mdoc_media x) ''DOCUMENT'' \<and> mdoc_pages x = None \<and> \<not> mdoc_bw x"

definition thumb_typed :: "MediaRow list \<Rightarrow> MediaThumb \<Rightarrow> bool" where
  "thumb_typed ms t \<longleftrightarrow> media_is ms (th_media t) ''IMAGE'' \<and> th_size_tag t \<in> fst ` set thumbSpecs"

definition db_typed :: "db \<Rightarrow> bool" where
  "db_typed d \<longleftrightarrow> list_all file_typed (files d) \<and> list_all job_typed (jobs d) \<and> list_all media_typed (medias d)
     \<and> list_all (image_typed (medias d)) (images d) \<and> list_all (video_typed (medias d)) (videos d)
     \<and> list_all (document_typed (medias d)) (documents d) \<and> list_all (thumb_typed (medias d)) (thumbs d)"

lemmas row_typed = image_typed_def video_typed_def document_typed_def thumb_typed_def

section \<open>Statements\<close>

text \<open>
  The invariant of a transaction: an integral and typed database that has the media rows \<open>M\<close>, given by
  id and type.
\<close>

definition typed :: "(uuid \<times> string) set \<Rightarrow> db \<Rightarrow> bool" where
  "typed M d \<longleftrightarrow> db_ok d \<and> db_typed d \<and> M \<subseteq> (\<lambda>m. (md_id m, md_type m)) ` set (medias d)"

lemma media_is_sub: "media_is ms i ty \<Longrightarrow> set ms' \<subseteq> set ms \<Longrightarrow> media_is ms' i ty"
  by (auto simp: media_is_def list_all_iff)

lemma row_typed_sub:
  assumes "set ms' \<subseteq> set ms"
  shows "image_typed ms i \<Longrightarrow> image_typed ms' i" "video_typed ms v \<Longrightarrow> video_typed ms' v"
    "document_typed ms x \<Longrightarrow> document_typed ms' x" "thumb_typed ms t \<Longrightarrow> thumb_typed ms' t"
  using media_is_sub[OF _ assms] by (simp_all add: row_typed)

lemma db_typed_sub:
  assumes "db_typed d" and "set (files d') \<subseteq> set (files d)" "set (jobs d') \<subseteq> set (jobs d)"
    "set (medias d') \<subseteq> set (medias d)" "set (images d') \<subseteq> set (images d)" "set (videos d') \<subseteq> set (videos d)"
    "set (documents d') \<subseteq> set (documents d)" "set (thumbs d') \<subseteq> set (thumbs d)"
  shows "db_typed d'"
  using assms(1) row_typed_sub[OF assms(4)] assms(2-)[THEN subsetD]
  by (auto simp: db_typed_def list_all_iff)

definition same_typed :: "db \<Rightarrow> db \<Rightarrow> bool" where
  "same_typed d d' \<longleftrightarrow> files d' = files d \<and> jobs d' = jobs d \<and> medias d' = medias d \<and> images d' = images d
     \<and> videos d' = videos d \<and> documents d' = documents d \<and> thumbs d' = thumbs d"

lemma typed_same: "typed M d \<Longrightarrow> db_ok d' \<Longrightarrow> same_typed d d' \<Longrightarrow> typed M d'"
  by (simp add: typed_def db_typed_def same_typed_def)

lemma typed_ok: "typed M d \<Longrightarrow> db_ok d"
  by (simp add: typed_def)

text \<open>Statements on tables that have no types.\<close>

lemma same_others:
  "same_typed d (snd (ins_user u d))" "same_typed d (snd (ins_storage st d))"
  "same_typed d (snd (ins_storage_user su d))" "same_typed d (snd (ins_download dl d))"
  "same_typed d (snd (ins_sized sz cb d))" "same_typed d (snd (ins_token k d))"
  "same_typed d (snd (upd_tokens T ft d))" "same_typed d (snd (upd_users P fu d))"
  "same_typed d (snd (upd_storages Q fs d))" "same_typed d (snd (upd_downloads D fd d))"
  "same_typed d (snd (upd_storage_users R fa d))" "same_typed d (snd (del_storage_users S d))"
  by (simp_all add: same_typed_def ins_defs upd_defs stmt_def del_storage_users_def)

lemma same_upsert: "same_typed d (snd (upsert_token k d))"
  using same_others(6,7)[of d] by (auto simp: upsert_token_def split: prod.splits sum.splits) (metis snd_conv)+

lemmas typed_others = typed_same[OF _ _ same_others(1)] typed_same[OF _ _ same_others(2)]
  typed_same[OF _ _ same_others(3)] typed_same[OF _ _ same_others(4)] typed_same[OF _ _ same_others(5)]
  typed_same[OF _ _ same_others(8)] typed_same[OF _ _ same_others(9)] typed_same[OF _ _ same_others(10)]
  typed_same[OF _ _ same_others(11)] typed_same[OF _ _ same_others(12)] typed_same[OF _ _ same_upsert]

text \<open>Rows of the typed tables.\<close>

lemma typed_ins_file:
  assumes "typed M d" and "file_typed r"
  shows "typed M (snd (ins_file r d))"
  using assms ins_file_ok[of d r] by (auto simp: typed_def db_typed_def ins_file_def stmt_def)

lemma typed_upd_files:
  assumes "typed M d" and "\<And>r. sf_id (f r) = sf_id r" and "\<And>r. file_typed r \<Longrightarrow> P r \<Longrightarrow> file_typed (f r)"
  shows "typed M (snd (upd_files P f d))"
proof -
  have "list_all file_typed (upd_where P f (files d))"
    using assms by (auto simp: typed_def db_typed_def list_all_iff set_upd_where)
  with assms(1) upd_files_ok[OF typed_ok[OF assms(1)] assms(2)] show ?thesis
    by (auto simp: typed_def db_typed_def upd_files_def stmt_def)
qed

lemma typed_cascade:
  assumes "db_typed d" and "set (files d') \<subseteq> set (files d)" and "medias d' = medias d" "images d' = images d"
    "videos d' = videos d" "documents d' = documents d" "thumbs d' = thumbs d" "jobs d' = jobs d"
  shows "db_typed (cascade d')"
  by (rule db_typed_sub[OF assms(1)]) (use assms(2-) in \<open>auto dest!: in_cascade\<close>)

lemma typed_dels:
  assumes "typed {} d"
  shows "typed {} (snd (del_files P d))" "typed {} (snd (del_storages Q d))"
proof -
  have d: "db_ok d" "db_typed d" using assms by (simp_all add: typed_def)
  have "db_typed (delete_files P d)" "db_typed (delete_storages Q d)"
    unfolding delete_files_def delete_storages_def by (rule typed_cascade[OF d(2)]; auto)+
  with del_files_ok[OF d(1), of P] del_storages_ok[OF d(1), of Q]
  show "typed {} (snd (del_files P d))" "typed {} (snd (del_storages Q d))"
    by (simp_all add: typed_def del_files_def del_storages_def)
qed

lemma typed_enqueue:
  assumes "typed M d"
  shows "typed M (snd (enqueue_stmt i s f t d))"
  using assms job_stmts_ok(1)[of d i s f t]
  by (auto simp: typed_def db_typed_def enqueue_stmt_def ins_job_def stmt_def job_typed_def)

lemma typed_upd_jobs:
  assumes "typed M d" and "\<And>r. mj_id (f r) = mj_id r" "\<And>r. mj_file (f r) = mj_file r"
    and "\<And>r. r \<in> set (jobs d) \<Longrightarrow> job_typed r \<Longrightarrow> P r \<Longrightarrow> job_typed (f r)"
  shows "typed M (snd (upd_jobs P f d))"
proof -
  have "list_all job_typed (upd_where P f (jobs d))"
    using assms(1,4) by (auto simp: typed_def db_typed_def list_all_iff set_upd_where)
  with assms(1) upd_jobs_ok[OF typed_ok[OF assms(1)] assms(2,3)] show ?thesis
    by (auto simp: typed_def db_typed_def upd_jobs_def stmt_def)
qed

lemma typed_claim:
  assumes "typed M d"
  shows "typed M (snd (claim_stmt t d))"
proof (cases "next_pending d")
  case (Some j)
  note j = next_pending_Some(1,2)[OF Some]
  have only: "r = j" if "r \<in> set (jobs d)" "mj_id r = mj_id j" for r
    using job_ids_distinct[OF typed_ok[OF assms]] that j(1) by (metis distinct_map inj_onD)
  have "typed M (snd (upd_jobs (\<lambda>r. mj_id r = mj_id j) (claimed t) d))"
  proof (rule typed_upd_jobs[OF assms])
    fix r assume "r \<in> set (jobs d)" "job_typed r" "mj_id r = mj_id j"
    with only[of r] j(2) show "job_typed (claimed t r)" by (simp add: claimed_def job_typed_def pending_def)
  qed (simp_all add: claimed_def)
  with Some show ?thesis by (auto simp: claim_stmt_def split: prod.splits sum.splits)
qed (simp add: claim_stmt_def assms)

lemma typed_marks:
  assumes "typed M d"
  shows "typed M (snd (complete_stmt i t d))" "typed M (snd (fail_stmt i msg t d))"
  unfolding complete_stmt_def fail_stmt_def
  by (rule typed_upd_jobs[OF assms]; simp add: job_typed_def)+

text \<open>
  Media rows and their details: a media row only grows the typed database, because its id is fresh;
  a row of details needs a media row of its kind.
\<close>

lemma typed_ins_media:
  assumes "typed M d" and "media_typed r" and "ins_media r d = (Inr (), d')"
  shows "typed (insert (md_id r, md_type r) M) d'"
proof -
  have d': "d' = d\<lparr>medias := medias d @ [r]\<rparr>" and fresh: "md_id r \<notin> md_id ` set (medias d)"
    using assms(3) by (auto simp: ins_media_def stmt_def fresh_def split: if_splits)
  have rows: "rows_ok d" using assms(1) by (simp add: typed_def db_ok_def)
  have other: "has_media d i \<Longrightarrow> i \<noteq> md_id r" for i using fresh by (simp add: has_fun) (metis imageI image_eqI)
  have "\<forall>i\<in>set (images d). mi_media i \<noteq> md_id r" "\<forall>i\<in>set (videos d). mv_media i \<noteq> md_id r"
    "\<forall>i\<in>set (documents d). mdoc_media i \<noteq> md_id r" "\<forall>i\<in>set (thumbs d). th_media i \<noteq> md_id r"
    using rows other unfolding rows_ok_def list_all_iff row_fits by blast+
  moreover have "db_ok d'" using ins_media_ok[OF typed_ok[OF assms(1)], of r] assms(3) by simp
  ultimately show ?thesis
    using assms(1,2) by (auto simp: typed_def db_typed_def d' list_all_iff row_typed media_is_def)
qed

lemma typed_kind:
  assumes "typed M d" and "(i, ty) \<in> M"
  shows "media_is (medias d) i ty"
proof -
  obtain m where "m \<in> set (medias d)" "md_id m = i" "md_type m = ty" using assms by (auto simp: typed_def)
  moreover have "distinct (map md_id (medias d))" using assms(1) by (simp add: typed_def db_ok_def keys_ok_def)
  ultimately show ?thesis by (auto simp: media_is_def list_all_iff distinct_map dest: inj_onD)
qed

lemma typed_ins_details:
  assumes "typed M d"
  shows "image_typed (medias d) im \<Longrightarrow> typed M (snd (ins_image im cb d))"
    "video_typed (medias d) v \<Longrightarrow> typed M (snd (ins_video v d))"
    "document_typed (medias d) x \<Longrightarrow> typed M (snd (ins_document x d))"
    "thumb_typed (medias d) th \<Longrightarrow> typed M (snd (ins_thumb th cb d))"
  using assms ins_image_ok[of d im cb] ins_video_ok[of d v] ins_document_ok[of d x] ins_thumb_ok[of d th cb]
  by (auto simp: typed_def db_typed_def ins_defs stmt_def)

section \<open>Operations\<close>

lemma row_bare: "file_typed (new_file_row t f) \<longleftrightarrow> file_typed (f\<lparr>sf_exif := ''{}'', sf_custom := ''{}''\<rparr>)"
  by (simp add: file_typed_def new_file_row_def bare_def jsonOrEmpty_def)

lemmas typed_stmts = typed_others typed_upd_files typed_dels typed_enqueue typed_claim typed_marks typed_ins_details

lemma storage_ops_typed [typing]:
  "keeps_all (on_db (typed {})) (InsertStorage a b c)" "keeps_all (on_db (typed {})) (UpdateStorage i a b c)"
  "keeps_all (on_db (typed {})) (DeleteStorage i)"
  "keeps_all (on_db (typed {})) (InsertStorageUser i j r w act)"
  "keeps_all (on_db (typed {})) (UpdateStorageUser i j r' w' act)"
  "keeps_all (on_db (typed {})) (DeleteStorageUser i j)"
  unfolding InsertStorage_def UpdateStorage_def DeleteStorage_def InsertStorageUser_def
    UpdateStorageUser_def DeleteStorageUser_def Let_def
  by (intro keeps keeps_db_exec reads_keeps data_reads typed_stmts ok_intros typed_ok; (assumption | simp))+

lemma file_ops_typed [typing]:
  "keeps_all (on_db (typed {})) (UpdateFileMeta s i n v c p act)"
  "keeps_all (on_db (typed {})) (SetFileExcluded s i x act)"
  "keeps_all (on_db (typed {})) (DeleteFailedUploadingFile s i)"
  "keeps_all (on_db (typed {})) (PermaDeleteFile s i)"
  "keeps_all (on_db (typed {})) (InsertDownload r)" "keeps_all (on_db (typed {})) (UpdateDownloadURL i url)"
  "keeps_all (on_db (typed {})) (UpdateFilePathsAndStatus i ''PUBLISHED'' z rp vp [] mt)"
  "keeps_all (on_db (typed {})) (EnqueueMediaProcessing s i)"
  "keeps_all (on_db (typed {})) ClaimMediaJob" "keeps_all (on_db (typed {})) (CompleteMediaJob i)"
  "keeps_all (on_db (typed {})) (FailMediaJob i msg)"
  unfolding UpdateFileMeta_def SetFileExcluded_def UpdateFilePathsAndStatus_def EnqueueMediaProcessing_def
    DeleteFailedUploadingFile_def PermaDeleteFile_def InsertDownload_def UpdateDownloadURL_def Let_def
    ClaimMediaJob_def CompleteMediaJob_def FailMediaJob_def
  by (intro keeps keeps_db_exec reads_keeps file_reads typed_stmts ok_intros typed_ok;
      (assumption | simp add: file_typed_def jsonOrEmpty_def nullString_def))+

lemma InsertFile_typed [typing]:
  "file_typed (f\<lparr>sf_exif := ''{}'', sf_custom := ''{}''\<rparr>) \<Longrightarrow> keeps_all (on_db (typed M)) (InsertFile f)"
  "file_typed (f\<lparr>sf_exif := ''{}'', sf_custom := ''{}''\<rparr>) \<Longrightarrow> keeps_all (on_db (typed M)) (InsertFileTx f)"
  unfolding InsertFile_def InsertFileTx_def by (intro keeps_db_exec typed_ins_file; simp add: row_bare)+

lemma upload_rows_typed:
  "file_typed ((local_upload_row i sg sid o' nm ext vp mt)\<lparr>sf_exif := ''{}'', sf_custom := ''{}''\<rparr>)"
  "file_typed ((url_upload_row i sg sid o' nm ext vp mt)\<lparr>sf_exif := ''{}'', sf_custom := ''{}''\<rparr>)"
  "file_typed ((derived_file f i sg nm vp sz mt ex cu)\<lparr>sf_exif := ''{}'', sf_custom := ''{}''\<rparr>)"
  by (simp_all add: file_typed_def local_upload_row_def url_upload_row_def derived_file_def blank_file_def)

section \<open>Requests\<close>

lemma Authenticate_typed [typing]: "keeps_all (on_db (typed {})) (Authenticate x base tok)"
  unfolding Authenticate_def userByToken_def store_me_def loadOrCreateUserFromMe_def cacheBearerToken_def Let_def
  by (intro keeps keeps_db_exec typed_stmts upsert_token_ok ok_intros typed_ok; (assumption | simp))

interpretation typed_requests: request_ops "on_db (typed {})"
  by (rule request_ops.intro[OF on_db_frame]) (unfold_locales; intro typing upload_rows_typed)

section \<open>The media processor\<close>

text \<open>What a transaction of the processor does once its media row is there.\<close>

lemma insert_media_run:
  assumes "run (InsertStorageMediaTx i ty f cb) w = (r, w')" and "typed M (wdb w)"
    and "ty \<in> {''IMAGE'', ''VIDEO'', ''DOCUMENT''}"
  shows "case r of Inl _ \<Rightarrow> typed M (wdb w') | Inr _ \<Rightarrow> typed (insert (i, ty) M) (wdb w')"
proof -
  let ?row = "\<lambda>t. \<lparr>md_id = i, md_created_at = t, md_type = ty, md_file = f, md_created_by = cb\<rparr>"
  have media: "media_typed (?row t)" for t using assms(3) by (simp add: media_typed_def)
  have "typed M d \<Longrightarrow> ins_media (?row t) d = (Inl er, d') \<Longrightarrow> typed M d'" for t d er d'
    by (auto simp: ins_media_def stmt_def split: if_splits)
  with assms(1,2) typed_ins_media[OF _ media] show ?thesis
    by (auto simp: InsertStorageMediaTx_def db_exec_def next_fault_def split: list.splits option.splits prod.splits sum.splits)
qed

lemma media_then [typing]:
  assumes "ty \<in> {''IMAGE'', ''VIDEO'', ''DOCUMENT''}" and k: "keeps_all (on_db (typed (insert (i, ty) M))) (k ())"
  shows "keeps_all (on_db (typed M)) (try_bind (InsertStorageMediaTx i ty f cb) k)"
  unfolding keeps_all_def
proof (intro allI impI)
  fix w assume w: "on_db (typed M) w"
  obtain r w1 where r: "run (InsertStorageMediaTx i ty f cb) w = (r, w1)" by force
  obtain s w2 where s: "run (k ()) w1 = (s, w2)" by force
  have mono: "typed (insert a M) d \<Longrightarrow> typed M d" for a d by (auto simp: typed_def)
  show "on_db (typed M) (snd (run (try_bind (InsertStorageMediaTx i ty f cb) k) w))"
    using insert_media_run[OF r _ assms(1)] w keeps_allD[OF k _ s] mono r s
    by (cases r) (auto simp: run_try_bind on_db_def)
qed

lemma detail_ops_typed [typing]:
  "(i, ''IMAGE'') \<in> M \<Longrightarrow> (\<And>ms. media_is ms i ''IMAGE'' \<Longrightarrow> image_typed ms im)
     \<Longrightarrow> keeps_all (on_db (typed M)) (InsertStorageMediaImageTx im cb)"
  "(i, ''VIDEO'') \<in> M \<Longrightarrow> (\<And>ms. media_is ms i ''VIDEO'' \<Longrightarrow> video_typed ms (v\<lparr>mv_duration := duration_text du\<rparr>))
     \<Longrightarrow> keeps_all (on_db (typed M)) (InsertStorageMediaVideoTx v du)"
  "(i, ''DOCUMENT'') \<in> M \<Longrightarrow> (\<And>ms. media_is ms i ''DOCUMENT'' \<Longrightarrow> document_typed ms doc)
     \<Longrightarrow> keeps_all (on_db (typed M)) (InsertStorageMediaDocumentTx doc)"
  "(i, ''IMAGE'') \<in> M \<Longrightarrow> (\<And>ms. media_is ms i ''IMAGE'' \<Longrightarrow> thumb_typed ms th)
     \<Longrightarrow> keeps_all (on_db (typed M)) (InsertStorageMediaThumbnailTx th cb)"
  "keeps_all (on_db (typed M)) (InsertStorageMediaImageSizedTx sz cb)"
  unfolding InsertStorageMediaImageTx_def InsertStorageMediaVideoTx_def InsertStorageMediaDocumentTx_def
    InsertStorageMediaThumbnailTx_def InsertStorageMediaImageSizedTx_def
  by (intro keeps_db_exec typed_ins_details typed_others ok_intros typed_ok;
      (assumption | blast dest: typed_kind))+

lemma exif_typed [typing]: "keeps_all (on_db (typed M)) (UpdateFileExifMetadata fid meta)"
  unfolding UpdateFileExifMetadata_def
  by (intro keeps keeps_db_exec typed_upd_files; (assumption | simp add: file_typed_def jsonOrEmpty_def))

lemma derived_typed [typing]:
  "keeps_all (on_db (typed M)) (storeDerived be (derived_file f i sg nm vp sz mt ex cu) vpath bout)"
  unfolding storeDerived_def Put_def by (intro keeps typing upload_rows_typed)

lemma sized_typed [typing]:
  "keeps_all (on_db (typed M)) (insertSizedImageRows mx ids randomSig be img f bs i ty ow oh)"
proof (induction bs)
  case (Cons b bs)
  have "keeps_all (on_db (typed M)) (sizedImageRow mx ids randomSig be img f b i ty ow oh)"
    unfolding sizedImageRow_def Let_def by (intro keeps typing)
  with Cons show ?case by (auto intro: keeps)
qed (simp add: keeps)

lemma thumbnail_typed:
  assumes "(i, ''IMAGE'') \<in> M" and "tag \<in> fst ` set thumbSpecs"
  shows "keeps_all (on_db (typed M)) (thumbnailRow mx ids randomSig be img f (tag, bw, bh) i ty)"
  unfolding thumbnailRow_def Let_def prod.case
  by (intro keeps typing detail_ops_typed(4)[OF assms(1)]) (use assms(2) in \<open>simp add: thumb_typed_def\<close>)

lemma thumbs_typed:
  assumes "(i, ''IMAGE'') \<in> M" and "set specs \<subseteq> set thumbSpecs"
  shows "keeps_all (on_db (typed M)) (insertThumbnailRows mx ids randomSig be img f specs i ty)"
  using assms(2) by (induction specs) (auto intro!: keeps thumbnail_typed assms(1) intro: rev_image_eqI)

lemma image_row_typed:
  "image_typed ms (fillEXIF ((blank_image r i)\<lparr>mi_size_tag := Some ''SIZE_ORIGINAL'', mi_height := Some h,
     mi_width := Some w, mi_megapixels := mp\<rparr>) x w' h') \<longleftrightarrow> media_is ms i ''IMAGE''"
  by (auto simp: image_typed_def fillEXIF_def blank_image_def or_keep_def Let_def split: option.splits)

lemma image_tx_typed [typing]:
  assumes "\<And>ms. media_is ms i ''IMAGE'' \<Longrightarrow> image_typed ms row"
  shows "keeps_all (on_db (typed {})) (image_tx mx ids randomSig be img f cfg i row ty)"
  unfolding image_tx_def
  by (intro keeps typing detail_ops_typed(1)[of i] thumbs_typed; (use assms in blast | simp))

lemma processors_typed [typing]:
  "keeps_all (on_db (typed {})) (storeImage mx x randomSig be cfg f img exifs)"
  "keeps_all (on_db (typed {})) (processVideo mx x e st f)"
  "keeps_all (on_db (typed {})) (processDocument f)"
proof -
  show "keeps_all (on_db (typed {})) (storeImage mx x randomSig be cfg f img exifs)"
    unfolding storeImage_def Let_def by (intro keeps typing reads_keeps media_reads) (simp add: image_row_typed)
  show "keeps_all (on_db (typed {})) (processVideo mx x e st f)"
    unfolding processVideo_def probeVideo_def Open_def Let_def
    by (intro keeps typing detail_ops_typed(2); simp add: video_typed_def video_row_def)
  show "keeps_all (on_db (typed {})) (processDocument f)"
    unfolding processDocument_def
    by (intro keeps typing detail_ops_typed(3); simp add: document_typed_def)
qed

lemma Process_typed [typing]: "keeps_all (on_db (typed {})) (Process mx x randomSig e job)"
  unfolding Process_def processCategory_def processImage_def Open_def Let_def
  by (intro keeps typing reads_keeps media_reads data_reads)+

section \<open>The service\<close>

lemma worker_typed: "keeps_all (on_db (typed {})) (media_worker_round mx x e)"
  unfolding media_worker_round_def worker_round_def by (intro keeps typing)

interpretation typed_service: service_world "on_db (typed {})" mx x e for mx x e
  by unfold_locales (rule worker_typed, simp add: on_db_def)

text \<open>
  C22: the rows stay within their types, whatever requests arrive and whatever fails. A file is being
  uploaded, and has no size yet, or published; exactly the derived files are marked available, exactly
  the files fetched from the web have an original path, no file has a hash, and both JSON columns are
  filled. A pending job was never tried, and exactly the failed jobs have a message. Every detail row
  belongs to a media row of its kind, and every thumbnail has one of the three sizes.
\<close>

theorem service_types:
  assumes "service_reach mx x e b s s'" and "db_ok (wdb (snd s))" and "db_typed (wdb (snd s))"
  shows "db_typed (wdb (snd s'))"
  using typed_service.reach[OF assms(1)] assms(2,3) by (simp add: typed_def on_db_def)

definition typed_world :: world where
  "typed_world = ex_world\<lparr>wdb := ex_db\<lparr>files := [live_file\<lparr>sf_origin := ''LOCAL'', sf_exif := ''{}'', sf_custom := ''{}''\<rparr>]\<rparr>\<rparr>"

lemma typed_world_ok: "db_ok (wdb typed_world)" "db_typed (wdb typed_world)"
proof -
  show "db_ok (wdb typed_world)"
    by (simp add: typed_world_def ex_db_def ex_rows db_ok_def keys_ok_def rows_ok_def row_fits has_defs fits_def
        fits_opt_def char_length_def null_or_def)
  show "db_typed (wdb typed_world)"
    by (simp add: typed_world_def ex_db_def ex_rows db_typed_def file_typed_def job_typed_def)
qed

lemma service_types_witness:
  "db_typed (wdb (snd (run (media_worker_round ex_mext ex_ext ex_env) (typed_world\<lparr>wfaults := [None, Some (Err ''connection reset'')]\<rparr>))))"
proof -
  let ?w = "typed_world\<lparr>wfaults := [None, Some (Err ''connection reset'')]\<rparr>"
  obtain r w where r: "run (media_worker_round ex_mext ex_ext ex_env) ?w = (r, w)" by force
  have "service_reach ex_mext ex_ext ex_env ex_buckets (ex_limiters, typed_world) (ex_limiters, w)"
    by (rule service_reach.Then[OF service_reach.Then[OF service_reach.Refl service_step.Faults] service_step.Worker[OF r]])
  from service_types[OF this] r typed_world_ok show ?thesis by simp
qed

end
