(* ===== verification/PropsService.thy ===== *)
theory PropsService
  imports PropsAccess PropsMedia
begin

text \<open>
  The service refines the worker pool: every request, whatever it does, and every round of a worker is
  a sequence of the pool's atomic steps, so what is proved of the pool's interleavings holds of the
  program.
\<close>

section \<open>Random values are drawn, never put back\<close>

definition draws_on :: "(nat \<Rightarrow> uuid) \<Rightarrow> nat \<Rightarrow> world \<Rightarrow> bool" where
  "draws_on D N w \<longleftrightarrow> wdraws w = D \<and> N \<le> wdrawn w"

interpretation draws: world_frame "draws_on D N" for D N
  by unfold_locales (simp_all add: draws_on_def)

lemma draws_query: "keeps_all (draws_on D N) (db_query q)"
  by (rule draws.reading) (rule reads_query)

lemma draws_exec: "keeps_all (draws_on D N) (db_exec q)"
  by (auto simp: keeps_all_def db_exec_def draws_on_def next_fault_def split: list.splits option.splits prod.splits)

lemma draws_tx:
  assumes "keeps_all (draws_on D N) body"
  shows "keeps_all (draws_on D N) (in_tx body)"
  unfolding keeps_all_def
proof (intro allI impI)
  fix w assume w: "draws_on D N w"
  obtain f w1 where f: "run next_fault w = (f, w1)" by force
  obtain r w2 where r: "run body w1 = (r, w2)" by force
  obtain g w3 where g: "run next_fault w2 = (g, w3)" by force
  have 1: "draws_on D N w1" using draws.next_fault[OF f w] .
  have 2: "draws_on D N w2" using keeps_allD[OF assms 1 r] .
  have 3: "draws_on D N w3" using draws.next_fault[OF g 2] .
  have restore: "draws_on D N u \<Longrightarrow> draws_on D N (u\<lparr>wdb := d\<rparr>)" for u d by (simp add: draws_on_def)
  show "draws_on D N (snd (run (in_tx body) w))"
    using f r g 1 2 3 by (simp add: in_tx_def restore split: option.split sum.split)
qed

lemmas draw_rules = draws.frame draws_query draws_exec draws_tx

lemma draws_store_me: "keeps_all (draws_on D N) (store_me tok me tt)"
  unfolding store_me_def loadOrCreateUserFromMe_def cacheBearerToken_def Let_def by (intro keeps draw_rules)

lemma draws_rows:
  "keeps_all (draws_on D N) (InsertFileTx f)" "keeps_all (draws_on D N) (InsertStorageMediaTx i ty fid cb)"
  "keeps_all (draws_on D N) (InsertStorageMediaImageTx im cb)"
  "keeps_all (draws_on D N) (InsertStorageMediaVideoTx v dur)"
  "keeps_all (draws_on D N) (InsertStorageMediaDocumentTx doc)"
  "keeps_all (draws_on D N) (InsertStorageMediaThumbnailTx th cb)"
  "keeps_all (draws_on D N) (InsertStorageMediaImageSizedTx sz cb)"
  "keeps_all (draws_on D N) (UpdateFileExifMetadata fid meta)"
  unfolding InsertFileTx_def InsertStorageMediaTx_def InsertStorageMediaImageTx_def
    InsertStorageMediaVideoTx_def InsertStorageMediaDocumentTx_def InsertStorageMediaThumbnailTx_def
    InsertStorageMediaImageSizedTx_def UpdateFileExifMetadata_def
  by (intro keeps draw_rules)+

lemma draws_images:
  "keeps_all (draws_on D N) (insertSizedImageRows mx ids randomSig be img f bs i ty ow oh)"
  "keeps_all (draws_on D N) (insertThumbnailRows mx ids randomSig be img f specs i ty)"
proof -
  show "keeps_all (draws_on D N) (insertSizedImageRows mx ids randomSig be img f bs i ty ow oh)"
    by (induction bs) (auto simp: image_steps Put_def Let_def intro!: keeps draw_rules draws_rows split: prod.splits)
  show "keeps_all (draws_on D N) (insertThumbnailRows mx ids randomSig be img f specs i ty)"
    by (induction specs) (auto simp: image_steps Put_def Let_def intro!: keeps draw_rules draws_rows)
qed

lemma draws_process: "keeps_all (draws_on D N) (Process mx x randomSig e job)"
  unfolding Process_def processCategory_def processImage_def storeImage_def processVideo_def processDocument_def
    image_tx_def probeVideo_def Open_def Let_def
  by (intro keeps draw_rules draws_rows draws_images draws.reading media_reads data_reads)+

lemma draws_worker: "keeps_all (draws_on D N) (media_worker_round mx x e)"
  unfolding media_worker_round_def worker_round_def ClaimMediaJob_def CompleteMediaJob_def FailMediaJob_def Let_def
  by (intro keeps draw_rules draws_process)

section \<open>The simulation\<close>

text \<open>The values drawn next, up to the \<open>N\<close>-th, differ from each other and from the ids in use.\<close>

definition ids_fresh :: "nat \<Rightarrow> uuid list \<Rightarrow> world \<Rightarrow> bool" where
  "ids_fresh N xs w \<longleftrightarrow> (\<forall>k. wdrawn w \<le> k \<longrightarrow> k < N \<longrightarrow> wdraws w k \<notin> set xs
     \<and> (\<forall>l. k < l \<longrightarrow> l < N \<longrightarrow> wdraws w l \<noteq> wdraws w k))"

text \<open>
  The pool can reach the database of the world, with no worker in the middle of a round, as long as
  no more than \<open>N\<close> values are drawn.
\<close>

definition pool_at :: "nat \<Rightarrow> nat \<Rightarrow> pool \<Rightarrow> world \<Rightarrow> bool" where
  "pool_at N n p w \<longleftrightarrow> db_ok (wdb w) \<and> (wdrawn w \<le> N \<longrightarrow>
     (\<exists>q. pool_reach n p q \<and> po_db q = wdb w \<and> po_busy q = (\<lambda>_. None) \<and> ids_fresh N (po_ids q) w))"

lemma fresh_draws: "ids_fresh N xs w \<Longrightarrow> draws_on (wdraws w) (wdrawn w) w' \<Longrightarrow> ids_fresh N xs w'"
  by (simp add: ids_fresh_def draws_on_def)

lemma pool_at_draws:
  assumes "pool_at N n p w" and "wdb w' = wdb w" and "draws_on (wdraws w) (wdrawn w) w'"
  shows "pool_at N n p w'"
proof -
  have "wdrawn w' \<le> N \<Longrightarrow> wdrawn w \<le> N" using assms(3) by (simp add: draws_on_def)
  with assms fresh_draws[OF _ assms(3)] show ?thesis by (auto simp: pool_at_def)
qed

lemma pool_at_frame: "world_frame (pool_at N n p)"
  by unfold_locales (erule pool_at_draws; simp add: draws_on_def)+

text \<open>A statement that leaves the integrity and adds no job is one step of the pool.\<close>

definition spares_jobs :: "(int \<Rightarrow> db \<Rightarrow> 'a result \<times> db) \<Rightarrow> bool" where
  "spares_jobs q \<longleftrightarrow> (\<forall>t d. db_ok d \<longrightarrow> db_ok (snd (q t d)) \<and> set (jobs (snd (q t d))) \<subseteq> set (jobs d))"

lemma pool_at_other:
  assumes w: "pool_at N n p w" and d: "db_ok d'" "set (jobs d') \<subseteq> set (jobs (wdb w))"
  shows "pool_at N n p (w\<lparr>wdb := d'\<rparr>)"
  unfolding pool_at_def
proof (intro conjI impI)
  assume "wdrawn (w\<lparr>wdb := d'\<rparr>) \<le> N"
  then obtain q where q: "pool_reach n p q" "po_db q = wdb w" "po_busy q = (\<lambda>_. None)" "ids_fresh N (po_ids q) w"
    using w by (auto simp: pool_at_def)
  have "pool_step n q (q\<lparr>po_db := d'\<rparr>)"
    using d q(2) by (intro pool_step.Other) (simp_all add: jobs_shrink_def)
  with q(1) have "pool_reach n p (q\<lparr>po_db := d'\<rparr>)" by (rule pool_reach.Step)
  with q show "\<exists>q. pool_reach n p q \<and> po_db q = wdb (w\<lparr>wdb := d'\<rparr>) \<and> po_busy q = (\<lambda>_. None)
      \<and> ids_fresh N (po_ids q) (w\<lparr>wdb := d'\<rparr>)"
    by (intro exI[of _ "q\<lparr>po_db := d'\<rparr>"]) (simp add: ids_fresh_def)
qed (use d in simp)

lemma pool_at_exec:
  assumes "spares_jobs q"
  shows "keeps_all (pool_at N n p) (db_exec q)"
proof -
  have "pool_at N n p w \<Longrightarrow> q t (wdb w) = (r, d') \<Longrightarrow> pool_at N n p (w\<lparr>wdb := d'\<rparr>)" for w t r d'
    using assms pool_at_other[of N n p w d'] by (metis pool_at_def snd_conv spares_jobs_def)
  with world_frame.next_fault[OF pool_at_frame, of _ _ _ N n p] show ?thesis
    by (auto simp: keeps_all_def db_exec_def split: prod.splits option.splits)
qed

text \<open>Enqueueing draws the id of the new job.\<close>

lemma pool_at_new_job:
  assumes w: "pool_at N n p w" and u: "wdb u = wdb w" "wdraws u = wdraws w" "wdrawn u = Suc (wdrawn w)"
    and run: "enqueue_stmt (wdraws w (wdrawn w)) s f t (wdb u) = (Inr (), d')"
  shows "pool_at N n p (u\<lparr>wdb := d'\<rparr>)"
  unfolding pool_at_def
proof (intro conjI impI)
  let ?i = "wdraws w (wdrawn w)"
  show "db_ok (wdb (u\<lparr>wdb := d'\<rparr>))"
    using job_stmts_ok(1)[of "wdb w" ?i s f t] w run u(1) by (simp add: pool_at_def)
  assume "wdrawn (u\<lparr>wdb := d'\<rparr>) \<le> N"
  with u(3) have i: "wdrawn w < N" by simp
  with w obtain q where q: "pool_reach n p q" "po_db q = wdb w" "po_busy q = (\<lambda>_. None)" "ids_fresh N (po_ids q) w"
    by (auto simp: pool_at_def)
  let ?q = "q\<lparr>po_db := d', po_ids := ?i # po_ids q\<rparr>"
  have "pool_step n q ?q"
    using run q(2,4) u(1) i by (intro pool_step.Enqueue) (simp_all add: ids_fresh_def)
  with q(1) have "pool_reach n p ?q" by (rule pool_reach.Step)
  moreover have "ids_fresh N (po_ids ?q) (u\<lparr>wdb := d'\<rparr>)"
    using q(4) u(2,3) i by (auto simp: ids_fresh_def)
  ultimately show "\<exists>q. pool_reach n p q \<and> po_db q = wdb (u\<lparr>wdb := d'\<rparr>) \<and> po_busy q = (\<lambda>_. None)
      \<and> ids_fresh N (po_ids q) (u\<lparr>wdb := d'\<rparr>)"
    using q(3) by (intro exI[of _ ?q]) simp
qed

lemma pool_at_enqueue: "keeps_all (pool_at N n p) (EnqueueMediaProcessing s f)"
  unfolding keeps_all_def
proof (intro allI impI)
  fix w assume w: "pool_at N n p w"
  have idle: "pool_at N n p u" if "wdb u = wdb w" "wdraws u = wdraws w" "wdrawn u = Suc (wdrawn w)" for u
    using pool_at_draws[OF w that(1)] that(2,3) by (simp add: draws_on_def)
  have step: "pool_at N n p (u\<lparr>wdb := d'\<rparr>)"
    if "enqueue_stmt (wdraws w (wdrawn w)) s f t (wdb u) = (r, d')"
      "wdb u = wdb w" "wdraws u = wdraws w" "wdrawn u = Suc (wdrawn w)" for u r t d'
  proof (cases r)
    case (Inl er)
    with that(1) have "d' = wdb u" by (auto simp: enqueue_stmt_def ins_job_def stmt_def split: if_splits)
    with that(2-) show ?thesis by (intro idle) simp_all
  qed (use pool_at_new_job[OF w that(2-)] that(1) in simp)
  show "pool_at N n p (snd (run (EnqueueMediaProcessing s f) w))"
    using idle step
    by (auto simp: EnqueueMediaProcessing_def db_exec_def next_fault_def split: list.splits option.splits prod.splits)
qed

text \<open>The statements of requests other than enqueueing.\<close>

lemma spares_jobsI [intro]:
  "(\<And>t d. db_ok d \<Longrightarrow> db_ok (snd (q t d))) \<Longrightarrow> (\<And>t d. set (jobs (snd (q t d))) \<subseteq> set (jobs d)) \<Longrightarrow> spares_jobs q"
  by (simp add: spares_jobs_def)

lemma stmts_spare:
  "set (jobs (snd (ins_user r1 d))) \<subseteq> set (jobs d)" "set (jobs (snd (ins_storage r2 d))) \<subseteq> set (jobs d)"
  "set (jobs (snd (ins_storage_user r3 d))) \<subseteq> set (jobs d)" "set (jobs (snd (ins_file r4 d))) \<subseteq> set (jobs d)"
  "set (jobs (snd (ins_download r5 d))) \<subseteq> set (jobs d)" "set (jobs (snd (ins_token r6 d))) \<subseteq> set (jobs d)"
  "set (jobs (snd (upd_users P1 f1 d))) \<subseteq> set (jobs d)" "set (jobs (snd (upd_storages P2 f2 d))) \<subseteq> set (jobs d)"
  "set (jobs (snd (upd_storage_users P3 f3 d))) \<subseteq> set (jobs d)" "set (jobs (snd (upd_files P4 f4 d))) \<subseteq> set (jobs d)"
  "set (jobs (snd (upd_downloads P5 f5 d))) \<subseteq> set (jobs d)" "set (jobs (snd (upd_tokens P6 f6 d))) \<subseteq> set (jobs d)"
  "set (jobs (snd (del_storage_users P7 d))) \<subseteq> set (jobs d)"
  "set (jobs (snd (del_files P8 d))) \<subseteq> set (jobs d)" "set (jobs (snd (del_storages P9 d))) \<subseteq> set (jobs d)"
  by (auto simp: ins_defs upd_defs stmt_def del_storage_users_def del_files_def delete_files_def
      del_storages_def delete_storages_def dest!: in_cascade)

lemma upsert_spares: "set (jobs (snd (upsert_token r d))) \<subseteq> set (jobs d)"
  using stmts_spare(6)[of r d] stmts_spare(12)[of "\<lambda>k. tok_token k = tok_token r"
      "\<lambda>k. k\<lparr>tok_expires := tok_expires r, tok_user := tok_user r\<rparr>" d]
  by (auto simp: upsert_token_def split: prod.splits sum.splits)

lemmas pool_frame = world_frame.reading[OF pool_at_frame] world_frame.drawing[OF pool_at_frame]

lemma pool_storage_ops:
  "keeps_all (pool_at N n p) (InsertStorage tp cr md)" "keeps_all (pool_at N n p) (UpdateStorage i tp cr md)"
  "keeps_all (pool_at N n p) (DeleteStorage i)"
  "keeps_all (pool_at N n p) (InsertStorageUser i j r wr act)"
  "keeps_all (pool_at N n p) (UpdateStorageUser i j r' wr' act)" "keeps_all (pool_at N n p) (DeleteStorageUser i j)"
  unfolding InsertStorage_def UpdateStorage_def DeleteStorage_def InsertStorageUser_def
    UpdateStorageUser_def DeleteStorageUser_def Let_def
  by (intro keeps pool_frame(2-) pool_at_exec pool_frame(1) data_reads spares_jobsI ok_intros stmts_spare; simp)+

lemma pool_file_ops:
  "keeps_all (pool_at N n p) (UpdateFileMeta s i nm v c pt act)" "keeps_all (pool_at N n p) (SetFileExcluded s i exc act)"
  "keeps_all (pool_at N n p) (DeleteFailedUploadingFile s i)" "keeps_all (pool_at N n p) (PermaDeleteFile s i)"
  "keeps_all (pool_at N n p) (UpdateFilePathsAndStatus i st z rp vp h mt)"
  "keeps_all (pool_at N n p) (InsertDownload dl)" "keeps_all (pool_at N n p) (UpdateDownloadURL i url)"
  "keeps_all (pool_at N n p) (InsertFile f)"
  unfolding UpdateFileMeta_def SetFileExcluded_def UpdateFilePathsAndStatus_def InsertFile_def
    DeleteFailedUploadingFile_def PermaDeleteFile_def InsertDownload_def UpdateDownloadURL_def Let_def
  by (intro keeps pool_frame(2-) pool_at_exec pool_frame(1) file_reads spares_jobsI ok_intros stmts_spare; simp)+

text \<open>A transaction that fails gives the database back, but not the values drawn.\<close>

lemma pool_at_tx:
  assumes "keeps_all (pool_at N n p) body" and d: "\<And>D N. keeps_all (draws_on D N) body"
  shows "keeps_all (pool_at N n p) (in_tx body)"
  unfolding keeps_all_def
proof (intro allI impI)
  fix w assume w: "pool_at N n p w"
  obtain f w1 where f: "run next_fault w = (f, w1)" by force
  obtain r w2 where r: "run body w1 = (r, w2)" by force
  obtain g w3 where g: "run next_fault w2 = (g, w3)" by force
  note fault = world_frame.next_fault[OF pool_at_frame]
  have 1: "pool_at N n p w1" using fault[OF f w] .
  have 2: "pool_at N n p w2" using keeps_allD[OF assms(1) 1 r] .
  have 3: "pool_at N n p w3" using fault[OF g 2] .
  let ?on = "draws_on (wdraws w1) (wdrawn w1)"
  have "?on w2" using keeps_allD[OF d[of "wdraws w1" "wdrawn w1"] _ r] by (simp add: draws_on_def)
  moreover from this have "?on w3" using draws.next_fault[OF g] by blast
  ultimately have "pool_at N n p (w2\<lparr>wdb := wdb w1\<rparr>)" "pool_at N n p (w3\<lparr>wdb := wdb w1\<rparr>)"
    by (auto intro!: pool_at_draws[OF 1] simp: draws_on_def)
  with 1 3 f r g show "pool_at N n p (snd (run (in_tx body) w))"
    by (simp add: in_tx_def split: option.split sum.split)
qed

lemma pool_login: "keeps_all (pool_at N n p) (Authenticate x base tok)"
proof -
  have "keeps_all (pool_at N n p) (store_me t me tt)" for t me tt
    unfolding store_me_def loadOrCreateUserFromMe_def cacheBearerToken_def Let_def
    by (intro keeps pool_frame(2-) pool_at_exec pool_frame(1) reads_query spares_jobsI ok_intros
        stmts_spare upsert_spares; simp)
  from pool_at_tx[OF this draws_store_me] show ?thesis
    unfolding Authenticate_def userByToken_def by (intro keeps; simp add: keeps pool_frame(1) reads_query)
qed

interpretation pool_requests: request_ops "pool_at N n p" for n p
  by (rule request_ops.intro[OF pool_at_frame])
    (unfold_locales; rule pool_storage_ops pool_file_ops pool_at_enqueue pool_login)

section \<open>The service\<close>

lemma pool_reach_trans: "pool_reach n q r \<Longrightarrow> pool_reach n p q \<Longrightarrow> pool_reach n p r"
  by (induction rule: pool_reach.induct) (auto intro: pool_reach.Step)

lemma pool_worker: "keeps_all (pool_at N (Suc n) p) (media_worker_round mx x e)"
  unfolding keeps_all_def
proof (intro allI impI)
  fix w assume w: "pool_at N (Suc n) p w"
  then have d: "db_ok (wdb w)" by (simp add: pool_at_def)
  obtain r w' where r: "run (media_worker_round mx x e) w = (r, w')" by force
  have on: "draws_on (wdraws w) (wdrawn w) w'"
    using keeps_allD[OF draws_worker _ r, of "wdraws w" "wdrawn w"] by (simp add: draws_on_def)
  have "\<exists>q. pool_reach (Suc n) p q \<and> po_db q = wdb w' \<and> po_busy q = (\<lambda>_. None) \<and> ids_fresh N (po_ids q) w'"
    if le: "wdrawn w' \<le> N"
  proof -
    obtain q where q: "pool_reach (Suc n) p q" "po_db q = wdb w" "po_busy q = (\<lambda>_. None)" "ids_fresh N (po_ids q) w"
      using w le_trans[OF _ le, of "wdrawn w"] on by (auto simp: pool_at_def draws_on_def)
    obtain q' where "pool_reach (Suc n) q q'" "po_db q' = wdb w'" "po_busy q' = (\<lambda>_. None)" "po_ids q' = po_ids q"
      using worker_round_refines_pool[OF d q(2) _ _ r, of 0 "Suc n"] q(3) by auto
    with pool_reach_trans[OF _ q(1)] fresh_draws[OF q(4) on] show ?thesis by (intro exI[of _ q']) simp
  qed
  moreover have "db_ok (wdb w')" using keeps_allD[OF service.worker _ r] d by (simp add: on_db_def)
  ultimately show "pool_at N (Suc n) p (snd (run (media_worker_round mx x e) w))"
    using r by (simp add: pool_at_def)
qed

interpretation pool_service: service_world "pool_at N (Suc n) p" mx x e for N n p mx x e
  by unfold_locales (rule pool_worker, erule pool_at_draws, simp_all add: draws_on_def)

lemma service_pool:
  assumes "service_reach mx x e b (ls, w) (ls', w')" and "db_ok (wdb w)"
    and "ids_fresh (wdrawn w') (map mj_id (jobs (wdb w))) w"
  obtains q where "pool_reach (Suc n) (pool_init (wdb w)) q" "po_db q = wdb w'" "po_busy q = (\<lambda>_. None)"
proof -
  have "pool_at (wdrawn w') (Suc n) (pool_init (wdb w)) w"
    unfolding pool_at_def using assms(2,3)
    by (intro conjI impI exI[of _ "pool_init (wdb w)"]) (simp_all add: pool_reach.Start, simp_all add: pool_init_def)
  with pool_service.reach[OF assms(1)] that show thesis by (auto simp: pool_at_def)
qed

text \<open>
  C19: the service refines the pool of workers: whatever requests are served, whatever workers do and
  whatever fails, the database that results is one the pool reaches by its atomic steps, as long as
  the random ids drawn meanwhile differ. Requests only enqueue jobs, or delete them with their files.
\<close>

theorem service_refines_pool:
  assumes "service_reach mx x e b (ls, w) (ls', w')" and "db_ok (wdb w)"
    and "ids_fresh (wdrawn w') (map mj_id (jobs (wdb w))) w"
  shows "\<exists>q. pool_reach (Suc n) (pool_init (wdb w)) q \<and> po_db q = wdb w' \<and> po_busy q = (\<lambda>_. None)"
  by (rule service_pool[OF assms, of n]) blast

text \<open>What the pool's invariant says of the rows: no job is attempted twice.\<close>

lemma service_attempts_once:
  assumes "service_reach mx x e b (ls, w) (ls', w')" and "db_ok (wdb w)"
    and "ids_fresh (wdrawn w') (map mj_id (jobs (wdb w))) w"
    and "fresh_jobs (wdb w)" and "j \<in> set (jobs (wdb w'))"
  shows "mj_attempts j = (if pending j then 0 else 1)"
proof -
  obtain q where "pool_reach (Suc 0) (pool_init (wdb w)) q" "po_db q = wdb w'"
    using service_pool[OF assms(1-3)] .
  with pool_inv_reach[OF _ pool_inv_init[OF assms(2,4)]] have "pool_inv q" "j \<in> set (jobs (po_db q))"
    using assms(5) by auto
  then show ?thesis by (auto simp: pool_inv_def job_state_ok_def split: if_splits)
qed

lemma ex_round_draws:
  "wdrawn (snd (run (media_worker_round ex_mext ex_ext ex_env) (ex_world\<lparr>wfaults := [None, Some (Err ''down'')]\<rparr>))) = 0"
proof -
  let ?w = "ex_world\<lparr>wfaults := [None, Some (Err ''down'')]\<rparr>"
  let ?c = "claimed 1000 ex_job" and ?d = "ex_db\<lparr>jobs := [claimed 1000 ex_job]\<rparr>"
  let ?v = "ex_world\<lparr>wdb := ?d, wfaults := [Some (Err ''down'')]\<rparr>"
  have "claim_stmt 1000 ex_db = (Inr ?c, ?d)"
    using ex_claim[of 1000] ex_db_ok by (auto simp: claim_job_def claim_stmt_run split: option.splits)
  then have "run ClaimMediaJob ?w = (Inr (Some ?c), ?v)"
    by (simp add: ClaimMediaJob_def db_exec_def next_fault_def) (simp add: ex_world_def)
  moreover have "run (Process ex_mext ex_ext randomSig ex_env ?c) ?v = (Inl (Err ''down''), ?v\<lparr>wfaults := []\<rparr>)"
    by (simp add: Process_def StorageMediaExistsForFile_def run_try_bind db_query_def next_fault_def)
  moreover obtain u v where m: "run (mark ?c (Inl (Err ''down''))) (?v\<lparr>wfaults := []\<rparr>) = (u, v)" by (rule prod.exhaust)
  moreover have "wdrawn v = wdrawn ex_world"
    using arg_cong[OF m, of "\<lambda>r. wdrawn (snd r)"]
    by (auto simp: mark_def FailMediaJob_def Let_def run_try_bind calm_def split: sum.splits prod.splits)
  moreover have "wdrawn ex_world = 0" by (simp add: ex_world_def)
  ultimately show ?thesis by (simp add: media_worker_round_def worker_round_alt)
qed

lemma service_refines_pool_witness:
  "\<exists>q. pool_reach 2 (pool_init ex_db) q \<and> po_db q = wdb (snd (run (media_worker_round ex_mext ex_ext ex_env)
     (ex_world\<lparr>wfaults := [None, Some (Err ''down'')]\<rparr>))) \<and> po_busy q = (\<lambda>_. None)"
proof -
  let ?w = "ex_world\<lparr>wfaults := [None, Some (Err ''down'')]\<rparr>"
  obtain r w where r: "run (media_worker_round ex_mext ex_ext ex_env) ?w = (r, w)" by force
  have s: "service_reach ex_mext ex_ext ex_env ex_buckets (ex_limiters, ?w) (ex_limiters, w)"
    by (rule service_reach.Then[OF service_reach.Refl service_step.Worker[OF r]])
  have "wdb ?w = ex_db" "wdrawn w = 0" using ex_round_draws r by (simp_all add: ex_world_def)
  with service_refines_pool[OF s, of 1] ex_db_ok r show ?thesis
    by (simp add: numeral_2_eq_2 ids_fresh_def)
qed

end
