(* ===== verification/PropsPool.thy ===== *)
theory PropsPool
  imports PropsMedia Startup
begin

text \<open>
  The pool from its start to its stop, and what the process takes from its configuration.
\<close>

section \<open>Stopping\<close>





section \<open>Starting\<close>

text \<open>
  The health probe of the container finds the server: with the same environment it asks the
  address \<open>app:serve\<close> listens on, and reports success for what \<open>/healthz\<close> answers.
\<close>

lemma probe_finds_server:
  "HealthProbeCommand env (listening (ServeCommand (NewEnv env lookPath))) = Inr ()"
  by (simp add: HealthProbeCommand_def probe_url_def listening_def ServeCommand_def healthz_def NewEnv_def Let_def)

text \<open>
  The workers' ticker never panics for a poll interval of up to 9223372036854 milliseconds, and
  ticks at most five times a second.
\<close>

lemma poll_interval_bounds:
  assumes "env_int env ''MEDIA_WORKER_POLL_MS'' ''1500'' \<le> 9223372036854"
  shows "200000000 \<le> poll_interval (NewEnv env lookPath) \<and> \<not> ticker_panics (NewEnv env lookPath)"
proof -
  have ms: "MediaWorkerPollMS (NewEnv env lookPath) = at_least 200 (env_int env ''MEDIA_WORKER_POLL_MS'' ''1500'')"
    by (simp add: NewEnv_def Let_def)
  then have "MediaWorkerPollMS (NewEnv env lookPath) \<ge> 200" "MediaWorkerPollMS (NewEnv env lookPath) \<le> 9223372036854"
    using assms by (simp_all add: at_least_def)
  with poll_interval_ok show ?thesis by simp
qed

lemma poll_interval_bounds_witness: "200000000 \<le> poll_interval ex_env"
proof -
  have "env_int (\<lambda>_. []) ''MEDIA_WORKER_POLL_MS'' ''1500'' = 1500" by code_simp
  with poll_interval_bounds[of "\<lambda>_. []" None] show ?thesis by (simp add: ex_env_def poll_interval_def)
qed

text \<open>A longer interval is accepted, wraps around, and makes every worker panic when it starts.\<close>

lemma long_interval_panics:
  assumes "MediaProcessingEnabled e" and "MediaWorkerCount e > 0"
  shows "ticker_panics (e\<lparr>MediaWorkerPollMS := 9300000000000\<rparr>)"
  using assms by (simp add: ticker_panics_def Start_def poll_interval_def wrap64_def)

text \<open>
  The server gives up writing an answer after two minutes, but an upload from a URL may be configured
  to take ten.
\<close>

lemma fetch_outlives_answer: "sv_write_timeout (ServeCommand e) < secs (clamp 5 600 600)"
  by (simp add: ServeCommand_def secs_def clamp_def wrap64_def)

end
