(* ===== verification/PropsAnswers.thy ===== *)
theory PropsAnswers
  imports PropsAccess
begin

text \<open>
  What clients are answered: on every route an answer is the success of that route, with its status
  and the kind of body it has, or a failure with a detail; and no answer carries the credentials of a
  storage.
\<close>

section \<open>Answers\<close>

text \<open>The success of a route: its status and its body.\<close>

fun success :: "route \<Rightarrow> response \<Rightarrow> bool" where
  "success ListStoragesR r \<longleftrightarrow> rs_status r = 200
     \<and> (case rs_body r of PStorages sts n l \<Rightarrow> list_all (\<lambda>s. st_creds s = []) sts | _ \<Rightarrow> False)"
| "success CreateStorageR r \<longleftrightarrow> rs_status r = 200 \<and> (case rs_body r of PStorage s \<Rightarrow> st_creds s = [] | _ \<Rightarrow> False)"
| "success GetStorageR r \<longleftrightarrow> rs_status r = 200 \<and> (case rs_body r of PStorage s \<Rightarrow> st_creds s = [] | _ \<Rightarrow> False)"
| "success UpdateStorageR r \<longleftrightarrow> rs_status r = 200 \<and> (case rs_body r of PStorage s \<Rightarrow> st_creds s = [] | _ \<Rightarrow> False)"
| "success PatchStorageR r \<longleftrightarrow> rs_status r = 200 \<and> (case rs_body r of PStorage s \<Rightarrow> st_creds s = [] | _ \<Rightarrow> False)"
| "success DeleteStorageR r \<longleftrightarrow> rs_status r = 204 \<and> rs_body r = PNone"
| "success ListFilesR r \<longleftrightarrow> rs_status r = 200 \<and> (case rs_body r of PFiles fs n l \<Rightarrow> True | _ \<Rightarrow> False)"
| "success GetFileR r \<longleftrightarrow> rs_status r = 200 \<and> (case rs_body r of PFile (Some f) \<Rightarrow> True | _ \<Rightarrow> False)"
| "success PatchFileR r \<longleftrightarrow> rs_status r = 200 \<and> (case rs_body r of PFile f \<Rightarrow> True | _ \<Rightarrow> False)"
| "success DeleteFileR r \<longleftrightarrow> rs_status r = 204 \<and> rs_body r = PNone"
| "success CreateDownloadR r \<longleftrightarrow> rs_status r = 201
     \<and> (case rs_body r of PDownload d \<Rightarrow> dl_url d \<noteq> None | _ \<Rightarrow> False)"
| "success ListTrashR r \<longleftrightarrow> rs_status r = 200 \<and> (case rs_body r of PFiles fs n l \<Rightarrow> True | _ \<Rightarrow> False)"
| "success GetTrashFileR r \<longleftrightarrow> rs_status r = 200 \<and> (case rs_body r of PFile (Some f) \<Rightarrow> True | _ \<Rightarrow> False)"
| "success PermaDeleteR r \<longleftrightarrow> rs_status r = 204 \<and> rs_body r = PNone"
| "success ListStorageUsersR r \<longleftrightarrow> rs_status r = 200
     \<and> (case rs_body r of PStorageUsers rows n \<Rightarrow> n = length rows | _ \<Rightarrow> False)"
| "success CreateStorageUserR r \<longleftrightarrow> rs_status r = 201 \<and> (case rs_body r of PStorageUser su \<Rightarrow> True | _ \<Rightarrow> False)"
| "success GetStorageUserR r \<longleftrightarrow> rs_status r = 200 \<and> (case rs_body r of PStorageUser su \<Rightarrow> True | _ \<Rightarrow> False)"
| "success PatchStorageUserR r \<longleftrightarrow> rs_status r = 200 \<and> (case rs_body r of PStorageUser su \<Rightarrow> True | _ \<Rightarrow> False)"
| "success DeleteStorageUserR r \<longleftrightarrow> rs_status r = 204 \<and> rs_body r = PNone"
| "success UploadMultipartR r \<longleftrightarrow> rs_status r = 201 \<and> (case rs_body r of PFile f \<Rightarrow> True | _ \<Rightarrow> False)"
| "success UploadFromURLR r \<longleftrightarrow> rs_status r = 201 \<and> (case rs_body r of PFile f \<Rightarrow> True | _ \<Rightarrow> False)"
| "success StreamDownloadR r \<longleftrightarrow> (case rs_body r of PAttachment n d \<Rightarrow> rs_status r = 200
     | PRedirect url \<Rightarrow> rs_status r = 302 \<and> (HasPrefix url ''http://'' \<or> HasPrefix url ''https://'') | _ \<Rightarrow> False)"
| "success ListMediaR r \<longleftrightarrow> rs_status r = 200 \<and> (case rs_body r of PMedias ms n l \<Rightarrow> True | _ \<Rightarrow> False)"
| "success GetMediaR r \<longleftrightarrow> rs_status r = 200 \<and> (case rs_body r of PMedia m \<Rightarrow> True | _ \<Rightarrow> False)"

text \<open>
  A failure names its reason. A fetch may fail with 502, and a file missing on the disk is a bare 404.
\<close>

definition failure :: "route \<Rightarrow> response \<Rightarrow> bool" where
  "failure rt r \<longleftrightarrow> (rs_status r \<in> {400, 403, 404, 500} \<or> rs_status r = 502 \<and> rt = UploadFromURLR)
     \<and> (case rs_body r of PDetail d \<Rightarrow> True | PNone \<Rightarrow> rt = StreamDownloadR \<and> rs_status r = 404 | _ \<Rightarrow> False)"

definition answer_ok :: "route \<Rightarrow> response \<Rightarrow> bool" where
  "answer_ok rt r \<longleftrightarrow> success rt r \<or> failure rt r"

section \<open>All answers of an action\<close>

named_theorems answering "answers of the handlers' control structure"

definition answers :: "(response \<Rightarrow> bool) \<Rightarrow> response m \<Rightarrow> bool" where
  "answers P m \<longleftrightarrow> (\<forall>w. P (fst (run m w)))"

lemma answers_reply [answering]: "P r \<Longrightarrow> answers P (ret r)"
  by (simp add: answers_def)

lemma answers_bind [answering]: "(\<And>a. answers P (f a)) \<Longrightarrow> answers P (do { a \<leftarrow> m; f a })"
  by (simp add: answers_def split: prod.splits)

lemma answers_structure [answering]:
  "(c \<Longrightarrow> answers P f) \<Longrightarrow> (\<not> c \<Longrightarrow> answers P g) \<Longrightarrow> answers P (if c then f else g)"
  "(\<And>a b. answers P (h a b)) \<Longrightarrow> answers P (case_prod h p)"
  "answers P f \<Longrightarrow> (\<And>v. answers P (k v)) \<Longrightarrow> answers P (case_option f k q)"
  "(\<And>er. answers P (i er)) \<Longrightarrow> (\<And>v. answers P (k v)) \<Longrightarrow> answers P (case_sum i k s)"
  "(\<And>l. answers P (j l)) \<Longrightarrow> (\<And>st ct b. answers P (n st ct b)) \<Longrightarrow> answers P (case_answer j n z)"
  by (simp_all split: prod.split option.split sum.split answer.split)

lemma answers_guards [answering]:
  "P \<lparr>rs_status = 403, rs_body = PDetail ''forbidden''\<rparr> \<Longrightarrow> answers P forbidden"
  "answers P forbidden \<Longrightarrow> answers P h \<Longrightarrow> answers P (admin_only u h)"
  "P \<lparr>rs_status = 400, rs_body = PDetail msg\<rparr> \<Longrightarrow> (\<And>i. answers P (g i)) \<Longrightarrow> answers P (with_id x rq nm msg g)"
  "(\<And>er. answers P (f er)) \<Longrightarrow> (\<And>v. r = Inr v \<Longrightarrow> answers P (k v)) \<Longrightarrow> answers P (on_error r f k)"
  "(\<And>msg. P \<lparr>rs_status = 500, rs_body = PDetail msg\<rparr>) \<Longrightarrow> answers P (server_error er)"
  "P \<lparr>rs_status = 404, rs_body = PDetail ''not found''\<rparr> \<Longrightarrow> answers P (server_error er)
     \<Longrightarrow> answers P (not_found_or_500 er)"
  unfolding forbidden_def admin_only_def with_id_def on_error_def server_error_def not_found_or_500_def
  by (auto intro!: answering split: option.splits sum.splits)

lemma failures [answering]:
  "s \<in> {400, 403, 404, 500} \<Longrightarrow> answer_ok rt \<lparr>rs_status = s, rs_body = PDetail d\<rparr>"
  "answer_ok UploadFromURLR \<lparr>rs_status = 502, rs_body = PDetail d\<rparr>"
  by (simp_all add: answer_ok_def failure_def)


section \<open>The handlers\<close>











end
