(* ===== verification/PropsApp.thy ===== *)
theory PropsApp
  imports Application
begin

text \<open>
  The life of the process: every dependency is provided, the hooks run in an order in which nothing
  is used after it is closed, and what the migration commands do besides migrating.
\<close>

section \<open>Orders of calls\<close>

lemma invoked_append [simp]: "invoked (cs @ ds) = invoked cs + invoked ds"
  by (induction cs rule: invoked.induct) simp_all

lemma built_invoked: "built a cs \<Longrightarrow> Invoked i \<in> set cs \<longleftrightarrow> i < invoked cs"
  by (induction rule: built.induct) auto

text \<open>What no constructor needs is built only for an invocation that needs it itself.\<close>

lemma required_root:
  assumes "required ps roots c" and "\<forall>k\<in>set ps. c \<notin> set (needs k)"
  shows "c \<in> set roots"
  using assms by cases auto

lemma built_needs:
  assumes "built a cs" and "Constructed c \<in> set cs"
  shows "\<exists>k\<in>set (provides a). gives k = c \<and> Constructed ` set (needs k) \<subseteq> set cs"
  using assms
proof (induction rule: built.induct)
  case (Construct cs k)
  show ?case
  proof (cases "c = gives k")
    case True
    with Construct.hyps show ?thesis by (intro bexI[of _ k]) auto
  next
    case False
    with Construct show ?thesis by fastforce
  qed
next
  case (Invoke cs)
  then show ?case by fastforce
qed simp

lemma built_invoke_needs:
  assumes "built a cs" and "Invoked i \<in> set cs"
  shows "Constructed ` set (iv_needs (invokes a ! i)) \<subseteq> set cs"
  using assms by (induction rule: built.induct) auto

section \<open>The application\<close>

lemmas constructors = lib_NewEnv_def lib_GetLogger_def lib_NewRequestHandler_def lib_NewDatabase_def data_NewDB_def
  auth_NewService_def object_store_NewFactory_def media_processor_NewProcessor_def media_worker_NewPool_def
  urlfetch_NewClient_def http_api_NewRouter_def ServeCommand_Run_def hookless_def

lemma application_parts:
  assumes "application_of c = Some a"
  shows "provides a = provides CommonModules @ (if c = AppServe then [ServeCommand_Run] else [])"
    and "invokes a = media_worker_Register # (case c of
      AppServe \<Rightarrow> [\<lparr>iv_needs = [HTTPServer], iv_does = [], iv_hooks = []\<rparr>]
    | MigrateUp \<Rightarrow> [migrate_command Up] | MigrateDown \<Rightarrow> [migrate_command Down] | _ \<Rightarrow> [])"
  using assms by (cases c; force simp: WrapServerCommand_def WrapSubCommand_def CommonModules_def ServeCommand_Run_def)+

text \<open>Every dependency is provided, by one constructor.\<close>

lemma provided_once:
  assumes "application_of c = Some a"
  shows "distinct (map gives (provides a))"
    and "list_all (\<lambda>k. list_all (\<lambda>d. d \<in> gives ` set (provides a)) (needs k)) (provides a)"
proof -
  have "distinct (map gives (provides CommonModules @ [ServeCommand_Run]))"
    by (simp add: CommonModules_def lib_Module_def constructors)
  then show "distinct (map gives (provides a))" by (simp add: application_parts(1)[OF assms])
  have "list_all (\<lambda>k. list_all (\<lambda>d. d \<in> gives ` set (provides CommonModules)) (needs k)) (provides CommonModules @ [ServeCommand_Run])"
    by (simp add: CommonModules_def lib_Module_def constructors)
  then show "list_all (\<lambda>k. list_all (\<lambda>d. d \<in> gives ` set (provides a)) (needs k)) (provides a)"
    unfolding application_parts(1)[OF assms] list_all_iff by fastforce
qed

text \<open>What the constructors have in common, and which of them append hooks.\<close>

definition wired :: "constructor \<Rightarrow> bool" where
  "wired k \<longleftrightarrow> HTTPServer \<notin> set (needs k) \<and> (gives k = Pool \<longrightarrow> DataDB \<in> set (needs k))
     \<and> (gives k = DataDB \<longrightarrow> Database \<in> set (needs k))
     \<and> hooks k = (if gives k = Database then hooks lib_NewDatabase
         else if gives k = HTTPServer then hooks ServeCommand_Run else [])"

lemma all_wired:
  assumes "application_of c = Some a" and "k \<in> set (provides a)"
  shows "wired k"
proof -
  have "list_all wired (provides CommonModules @ [ServeCommand_Run])"
    by (simp add: wired_def CommonModules_def lib_Module_def constructors)
  with assms show ?thesis by (auto simp: application_parts(1)[OF assms(1)] list_all_iff split: if_splits)
qed

text \<open>Where the hooks of an application come from: the database, then the pool, then the server.\<close>

definition hooks_of :: "fx_call list \<Rightarrow> hook list" where
  "hooks_of cs = (if Constructed Database \<in> set cs then hooks lib_NewDatabase else [])
     @ (if Invoked 0 \<in> set cs then iv_hooks media_worker_Register else [])
     @ (if Constructed HTTPServer \<in> set cs then hooks ServeCommand_Run else [])"

lemma pool_needs_database:
  assumes "built a cs" and "application_of c = Some a"
  shows "Constructed Pool \<in> set cs \<Longrightarrow> Constructed Database \<in> set cs"
proof -
  have needs: "k \<in> set (provides a) \<Longrightarrow> gives k = Pool \<Longrightarrow> DataDB \<in> set (needs k)"
    "k \<in> set (provides a) \<Longrightarrow> gives k = DataDB \<Longrightarrow> Database \<in> set (needs k)" for k
    using all_wired[OF assms(2)] by (simp_all add: wired_def)
  show "Constructed Pool \<in> set cs \<Longrightarrow> Constructed Database \<in> set cs"
    using built_needs[OF assms(1)] needs by (metis image_subset_iff)
qed

lemma server_after_pool:
  assumes "built a cs" and "application_of c = Some a"
  shows "Constructed HTTPServer \<in> set cs \<Longrightarrow> Invoked 0 \<in> set cs"
  using assms
proof (induction rule: built.induct)
  case (Construct cs k)
  have "\<forall>k\<in>set (provides a). HTTPServer \<notin> set (needs k)"
    using all_wired[OF Construct.prems(2)] by (simp add: wired_def)
  moreover have "iv_needs (invokes a ! 0) = [Pool]"
    by (simp add: application_parts(2)[OF Construct.prems(2)] media_worker_Register_def)
  ultimately have "gives k = HTTPServer \<Longrightarrow> invoked cs \<noteq> 0"
    using required_root[OF Construct.hyps(4)] by (auto intro: ccontr)
  with Construct show ?case by (auto simp: built_invoked[OF Construct.hyps(1)])
qed auto

lemma pool_after_database:
  assumes "built a cs" and "application_of c = Some a" and "Invoked 0 \<in> set cs"
  shows "Constructed Database \<in> set cs"
proof -
  have "iv_needs (invokes a ! 0) = [Pool]"
    by (simp add: application_parts(2)[OF assms(2)] media_worker_Register_def)
  then show ?thesis
    using built_invoke_needs[OF assms(1,3)] pool_needs_database[OF assms(1,2)] by simp
qed

lemma only_one:
  "distinct (map f xs) \<Longrightarrow> x \<in> set xs \<Longrightarrow> filter (\<lambda>y. f y = f x) xs = [x]"
  by (induction xs) (auto simp: filter_empty_conv image_iff)

lemma hooks_in_order:
  assumes "built a cs" and "application_of c = Some a"
  shows "concat (map (call_hooks a) cs) = hooks_of cs"
  using assms
proof (induction rule: built.induct)
  case New
  show ?case by (simp add: hooks_of_def)
next
  case (Construct cs k)
  have "filter (\<lambda>l. gives l = gives k) (provides a) = [k]"
    using provided_once(1)[OF Construct.prems] Construct.hyps(3) by (rule only_one)
  then have h: "call_hooks a (Constructed (gives k)) = hooks k" by (simp add: call_hooks_def)
  have k: "hooks k = (if gives k = Database then hooks lib_NewDatabase
      else if gives k = HTTPServer then hooks ServeCommand_Run else [])"
    using all_wired[OF Construct.prems Construct.hyps(3)] by (simp add: wired_def)
  have "Constructed Database \<notin> set cs \<Longrightarrow> Invoked 0 \<notin> set cs"
    using pool_after_database[OF Construct.hyps(1) Construct.prems] by blast
  with k h Construct server_after_pool[OF Construct.hyps(1) Construct.prems] show ?case
    by (auto simp: hooks_of_def)
next
  case (Invoke cs)
  have h: "call_hooks a (Invoked i) = (if i = 0 then iv_hooks media_worker_Register else [])"
    if "i < length (invokes a)" for i
    using that application_parts(2)[OF Invoke.prems]
    by (auto simp: call_hooks_def migrate_command_def nth_Cons' less_Suc_eq split: command.splits)
  have "Constructed HTTPServer \<in> set cs \<Longrightarrow> invoked cs \<noteq> 0"
    using server_after_pool[OF Invoke.hyps(1) Invoke.prems] built_invoked[OF Invoke.hyps(1)] by simp
  with h[OF Invoke.hyps(2)] Invoke built_invoked[OF Invoke.hyps(1)] show ?case
    by (auto simp: hooks_of_def)
qed

text \<open>Invocations act in their order.\<close>

lemma does_in_order:
  "built a cs \<Longrightarrow> concat (map (call_does a) cs) = concat (map iv_does (take (invoked cs) (invokes a)))"
  by (induction rule: built.induct) (simp_all add: call_does_def take_Suc_conv_app_nth)

lemma built_all:
  assumes "built a cs" and "application_of c = Some a" and "invoked cs = length (invokes a)"
  shows "Invoked 0 \<in> set cs" and "Constructed Database \<in> set cs"
    and "c = AppServe \<Longrightarrow> Constructed HTTPServer \<in> set cs"
    and "c \<noteq> AppServe \<Longrightarrow> Constructed HTTPServer \<notin> set cs"
proof -
  show i: "Invoked 0 \<in> set cs"
    using assms(3) built_invoked[OF assms(1), of 0] application_parts(2)[OF assms(2)] by simp
  then show "Constructed Database \<in> set cs" by (rule pool_after_database[OF assms(1,2)])
  show "Constructed HTTPServer \<in> set cs" if "c = AppServe"
    using built_invoke_needs[OF assms(1), of 1] built_invoked[OF assms(1), of 1] assms(3) that
    by (simp add: application_parts(2)[OF assms(2)])
  have "list_all (\<lambda>k. gives k \<noteq> HTTPServer) (provides CommonModules)"
    by (simp add: CommonModules_def lib_Module_def constructors)
  then show "Constructed HTTPServer \<notin> set cs" if "c \<noteq> AppServe"
    using built_needs[OF assms(1), of HTTPServer] that by (auto simp: application_parts(1)[OF assms(2)] list_all_iff)
qed

text \<open>
  C33: in whatever order fx builds the server, it starts the workers, then registers the routes and
  listens; it stops in the reverse order: no request comes in once the workers stop, and the database
  closes after both.
\<close>

theorem serve_life:
  assumes "application_of AppServe = Some a" and "built a cs" and "invoked cs = length (invokes a)"
  shows "life a cs = ([], [StartWorkers, RegisterRoutes, Listen], [ShutdownServer, StopWorkers, CloseDatabase])"
proof -
  have "concat (map (call_does a) cs) = []"
    using does_in_order[OF assms(2)] assms(3) by (simp add: application_parts(2)[OF assms(1)] media_worker_Register_def)
  with hooks_in_order[OF assms(2,1)] built_all[OF assms(2,1,3)] show ?thesis
    by (simp add: life_def Let_def hooks_of_def lib_NewDatabase_def media_worker_Register_def ServeCommand_Run_def)
qed

definition serve_calls :: "fx_call list" where
  "serve_calls = map Constructed [Env, Logger, Database, DataDB, ObjectFactory, Processor, Pool] @ [Invoked 0]
     @ map Constructed [RequestHandler, AuthService, URLFetchClient, APIRouter, HTTPServer] @ [Invoked 1]"

text \<open>One order of calls, in which everything comes as early as it is needed.\<close>

lemma pool_requires:
  assumes "application_of AppServe = Some a"
  shows "list_all (required (provides a) [Pool]) [Pool, Env, DataDB, Processor, Logger, Database, ObjectFactory]"
proof -
  have k: "media_worker_NewPool \<in> set (provides a)" "media_processor_NewProcessor \<in> set (provides a)"
    "data_NewDB \<in> set (provides a)"
    by (simp_all add: application_parts(1)[OF assms] CommonModules_def)
  have "required (provides a) [Pool] (gives media_worker_NewPool)" by (rule required.Root) (simp add: constructors)
  note pool = required.Needed[OF this k(1)]
  have "required (provides a) [Pool] (gives media_processor_NewProcessor)"
    "required (provides a) [Pool] (gives data_NewDB)" by (rule pool, simp add: constructors)+
  note dep = required.Needed[OF this(1) k(2)] required.Needed[OF this(2) k(3)]
  show ?thesis using pool dep required.Root[of Pool "[Pool]"] by (simp add: constructors)
qed

lemma server_requires:
  assumes "application_of AppServe = Some a"
  shows "list_all (required (provides a) [HTTPServer]) [HTTPServer, RequestHandler, APIRouter, AuthService, URLFetchClient]"
proof -
  have k: "ServeCommand_Run \<in> set (provides a)" "http_api_NewRouter \<in> set (provides a)"
    by (simp_all add: application_parts(1)[OF assms] CommonModules_def)
  have "required (provides a) [HTTPServer] (gives ServeCommand_Run)" by (rule required.Root) (simp add: constructors)
  note server = required.Needed[OF this k(1)]
  have "required (provides a) [HTTPServer] (gives http_api_NewRouter)" by (rule server) (simp add: constructors)
  note dep = required.Needed[OF this k(2)]
  show ?thesis using server dep required.Root[of HTTPServer "[HTTPServer]"] by (simp add: constructors)
qed

fun constructible :: "application \<Rightarrow> fx_call list \<Rightarrow> constructor list \<Rightarrow> bool" where
  "constructible a cs [] \<longleftrightarrow> True"
| "constructible a cs (k # ks) \<longleftrightarrow> k \<in> set (provides a)
     \<and> required (provides a) (iv_needs (invokes a ! invoked cs)) (gives k)
     \<and> Constructed (gives k) \<notin> set cs \<and> Constructed ` set (needs k) \<subseteq> set cs
     \<and> constructible a (cs @ [Constructed (gives k)]) ks"

lemma built_constructors:
  "built a cs \<Longrightarrow> invoked cs < length (invokes a) \<Longrightarrow> constructible a cs ks
     \<Longrightarrow> built a (cs @ map (\<lambda>k. Constructed (gives k)) ks)"
proof (induction ks arbitrary: cs)
  case (Cons k ks)
  then have "built a (cs @ [Constructed (gives k)])" by (auto intro: built.Construct)
  from Cons.IH[OF this] Cons.prems show ?case by simp
qed simp

lemma serve_built:
  assumes "application_of AppServe = Some a"
  shows "built a serve_calls"
proof -
  note parts = application_parts[OF assms] CommonModules_def lib_Module_def media_worker_Register_def constructors
  note req = pool_requires[OF assms] server_requires[OF assms]
  have "built a ([] @ map (\<lambda>k. Constructed (gives k)) [lib_NewEnv, lib_GetLogger, lib_NewDatabase, data_NewDB,
      object_store_NewFactory, media_processor_NewProcessor, media_worker_NewPool])"
    by (rule built_constructors[OF built.New]) (use req in \<open>simp_all add: parts\<close>)
  from built.Invoke[OF this] have b: "built a (map Constructed [Env, Logger, Database, DataDB, ObjectFactory,
      Processor, Pool] @ [Invoked 0])" by (simp add: parts)
  have "built a (map Constructed [Env, Logger, Database, DataDB, ObjectFactory, Processor, Pool] @ [Invoked 0]
      @ map (\<lambda>k. Constructed (gives k)) [lib_NewRequestHandler, auth_NewService, urlfetch_NewClient,
        http_api_NewRouter, ServeCommand_Run])"
    using built_constructors[OF b, of "[lib_NewRequestHandler, auth_NewService, urlfetch_NewClient,
        http_api_NewRouter, ServeCommand_Run]"] req by (simp add: parts)
  from built.Invoke[OF this] show ?thesis by (simp add: parts serve_calls_def)
qed

lemma serve_life_witness:
  "life (WrapServerCommand ServeCommand_Run CommonModules) serve_calls
     = ([], [StartWorkers, RegisterRoutes, Listen], [ShutdownServer, StopWorkers, CloseDatabase])"
proof (rule serve_life)
  show s: "application_of AppServe = Some (WrapServerCommand ServeCommand_Run CommonModules)" by simp
  show "built (WrapServerCommand ServeCommand_Run CommonModules) serve_calls" by (rule serve_built[OF s])
  show "invoked serve_calls = length (invokes (WrapServerCommand ServeCommand_Run CommonModules))"
    by (simp add: application_parts(2)[OF s] serve_calls_def)
qed

text \<open>
  The migration commands build the same modules, whose first invocation registers the pool: after the
  migration they start the workers, and stop them again.
\<close>

lemma migration_starts_workers:
  assumes "application_of c = Some a" and "c = MigrateUp \<or> c = MigrateDown"
    and "built a cs" and "invoked cs = length (invokes a)"
  shows "life a cs = ([Migrate (if c = MigrateUp then Up else Down)], [StartWorkers], [StopWorkers, CloseDatabase])"
proof -
  have "concat (map (call_does a) cs) = [Migrate (if c = MigrateUp then Up else Down)]"
    using does_in_order[OF assms(3)] assms(2,4)
    by (auto simp: application_parts(2)[OF assms(1)] media_worker_Register_def migrate_command_def)
  with hooks_in_order[OF assms(3,1)] built_all[OF assms(3,1,4)] assms(2) show ?thesis
    by (auto simp: life_def Let_def hooks_of_def lib_NewDatabase_def media_worker_Register_def)
qed

end
