(* ===== verification/PropsWire.thy ===== *)
theory PropsWire
  imports AnswerText Examples
begin

text \<open>
  The bodies of the answers are JSON that a client reads back: the fields of a file, the times as the
  instants they are, and the raw messages with their value.
\<close>

section \<open>Members of the bodies\<close>

text \<open>Strings that are UTF-8 arrive as they are.\<close>

definition utf8_ok :: "string \<Rightarrow> bool" where
  "utf8_ok s \<longleftrightarrow> ToValidUTF8 s = s"

lemma member_object:
  assumes "list_all (\<lambda>(k, w). utf8_ok k) ms"
  shows "member k (wire_value (WObj ms)) = map_option (\<lambda>w. (wire_text w, wire_value w)) (map_of ms k)"
  using assms by (induction ms) (auto simp: member_def utf8_ok_def)

lemma read_members:
  assumes "list_all (\<lambda>(k, w). utf8_ok k) ms"
  shows "map_of ms k = Some (WText s) \<Longrightarrow> utf8_ok s \<Longrightarrow> text_at k (wire_value (WObj ms)) = Some s"
    "map_of ms k = Some (WBool b) \<Longrightarrow> bool_at k (wire_value (WObj ms)) = Some b"
    "map_of ms k = Some (WInt i) \<Longrightarrow> in_int64 i \<Longrightarrow> int_at k (wire_value (WObj ms)) = Some i"
    "map_of ms k = Some (WRaw r) \<Longrightarrow> r \<noteq> [] \<Longrightarrow> raw_at k (wire_value (WObj ms)) = Some (Compact r)"
    "map_of ms k = Some (time_text zone t) \<Longrightarrow> writable (zone t) t \<Longrightarrow> utf8_ok (FormatTime (zone t) t)
       \<Longrightarrow> time_at k (wire_value (WObj ms)) = Some t"
    "map_of ms k = None \<Longrightarrow> member k (wire_value (WObj ms)) = None"
  using member_object[OF assms, of k] FormatTime_reads_back[of "zone t" t]
  by (simp_all add: text_at_def bool_at_def int_at_def raw_at_def time_at_def time_text_def utf8_ok_def Atoi_Itoa)

lemma utf8_names:
  "utf8_ok ''String''" "utf8_ok ''Valid''"
  by (simp_all add: utf8_ok_def)

lemma read_null:
  assumes "list_all (\<lambda>(k, w). utf8_ok k) ms" and "map_of ms k = Some (null_string s)"
    and "case s of None \<Rightarrow> True | Some t \<Rightarrow> utf8_ok t"
  shows "null_at k (wire_value (WObj ms)) = Some s" "text_at k (wire_value (WObj ms)) = None"
proof -
  let ?ms = "[(''String'', WText (case s of None \<Rightarrow> [] | Some t \<Rightarrow> t)), (''Valid'', WBool (s \<noteq> None))]"
  have k: "list_all (\<lambda>(k, w). utf8_ok k) ?ms" by (simp add: utf8_names)
  have "utf8_ok (case s of None \<Rightarrow> [] | Some t \<Rightarrow> t)" using assms(3) by (cases s) (simp_all add: utf8_ok_def)
  then have "text_at ''String'' (wire_value (WObj ?ms)) = Some (case s of None \<Rightarrow> [] | Some t \<Rightarrow> t)"
    "bool_at ''Valid'' (wire_value (WObj ?ms)) = Some (s \<noteq> None)"
    using read_members(1,2)[OF k] by simp_all
  moreover have m: "member k (wire_value (WObj ms)) = Some (wire_text (null_string s), wire_value (null_string s))"
    using member_object[OF assms(1), of k] assms(2) by simp
  ultimately show "null_at k (wire_value (WObj ms)) = Some s"
    by (cases s) (simp_all add: null_at_def null_string_def del: wire_value.simps wire_text.simps)
  show "text_at k (wire_value (WObj ms)) = None" unfolding text_at_def m by (simp add: null_string_def)
qed

text \<open>Texts of times are ASCII.\<close>

lemma ascii_utf8: "list_all (\<lambda>c. (of_char c :: nat) < 128) s \<Longrightarrow> utf8_ok s"
  by (induction s) (simp_all add: utf8_ok_def)

lemma time_utf8: "writable off t \<Longrightarrow> utf8_ok (FormatTime off t)"
  by (rule ascii_utf8[OF FormatTime_ascii])

section \<open>A file\<close>

definition file_members :: "ext \<Rightarrow> (int \<Rightarrow> int) \<Rightarrow> StorageFile \<Rightarrow> (string \<times> wire) list" where
  "file_members x zone f = (case StorageFile_json x zone f of WObj ms \<Rightarrow> ms | _ \<Rightarrow> [])"

lemma file_names: "list_all (\<lambda>(k, w). utf8_ok k) (file_members x zone f)"
  by (simp add: file_members_def StorageFile_json_def omitempty_def utf8_ok_def split: option.split)

lemma file_map_of:
  "map_of (file_members x zone f) ''id'' = Some (uuid_text x (sf_id f))"
  "map_of (file_members x zone f) ''created_at'' = Some (time_text zone (sf_created_at f))"
  "map_of (file_members x zone f) ''updated_at'' = map_option (time_text zone) (sf_updated_at f)"
  "map_of (file_members x zone f) ''signature_key'' = Some (WText (sf_sig f))"
  "map_of (file_members x zone f) ''name'' = Some (null_string (sf_name f))"
  "map_of (file_members x zone f) ''status'' = Some (WText (sf_status f))"
  "map_of (file_members x zone f) ''visibility'' = Some (WText (sf_visibility f))"
  "map_of (file_members x zone f) ''size'' = Some (WInt (sf_size f))"
  "map_of (file_members x zone f) ''hash'' = Some (null_string (sf_hash f))"
  "map_of (file_members x zone f) ''custom_metadata'' = Some (WRaw (sf_custom f))"
  "map_of (file_members x zone f) ''exif_metadata'' = Some (WRaw (sf_exif f))"
  "map_of (file_members x zone f) ''real_path'' = Some (null_string (sf_real_path f))"
  "map_of (file_members x zone f) ''virtual_path'' = Some (null_string (sf_virt_path f))"
  "map_of (file_members x zone f) ''available'' = Some (WBool (sf_available f))"
  "map_of (file_members x zone f) ''excluded'' = Some (WBool (sf_excluded f))"
  "map_of (file_members x zone f) ''owner_id'' = None"
  by (simp_all add: file_members_def StorageFile_json_def omitempty_def split: option.split)

lemma file_object: "StorageFile_json x zone f = WObj (file_members x zone f)"
  by (simp add: file_members_def StorageFile_json_def)

lemma file_raws: "raws (StorageFile_json x zone f) = [sf_exif f, sf_custom f]"
proof -
  have n: "raws (null_string s) = []" for s by (simp add: null_string_def)
  have "raws (UserPublic_json x zone u) = []" "raws (MimeType_json x m) = []" "raws (time_text zone t) = []"
    "raws (uuid_text x i) = []" for u m t i
    by (simp_all add: UserPublic_json_def MimeType_json_def time_text_def uuid_text_def n)
  with n show ?thesis by (auto simp: StorageFile_json_def omitempty_def split: option.split)
qed

text \<open>A row whose texts are UTF-8, whose times have years of four digits and whose metadata is JSON.\<close>

definition some_ok :: "('a \<Rightarrow> bool) \<Rightarrow> 'a option \<Rightarrow> bool" where
  "some_ok P s = (case s of None \<Rightarrow> True | Some v \<Rightarrow> P v)"

definition readable_file :: "ext \<Rightarrow> (int \<Rightarrow> int) \<Rightarrow> StorageFile \<Rightarrow> bool" where
  "readable_file x zone f \<longleftrightarrow>
     list_all utf8_ok [x_uuid_string x (sf_id f), sf_sig f, sf_status f, sf_visibility f, sf_origin f]
     \<and> list_all (some_ok utf8_ok) [sf_name f, sf_hash f, sf_ext f, sf_orig_path f, sf_real_path f, sf_virt_path f]
     \<and> writable (zone (sf_created_at f)) (sf_created_at f) \<and> some_ok (\<lambda>t. writable (zone t) t) (sf_updated_at f)
     \<and> in_int64 (sf_size f) \<and> json_parse (sf_exif f) \<noteq> None \<and> json_parse (sf_custom f) \<noteq> None"

lemma file_parses:
  assumes "readable_file x zone f"
  shows "json_parse (wire_text (StorageFile_json x zone f)) = Some (wire_value (WObj (file_members x zone f)))"
proof -
  have "list_all raw_ok (raws (StorageFile_json x zone f))"
    using assms by (simp add: file_raws raw_ok_def readable_file_def)
  from wire_round_trip[OF this] show ?thesis by (simp only: file_object)
qed

lemma parse_nonempty: "json_parse s \<noteq> None \<Longrightarrow> s \<noteq> []"
  by (auto simp: json_parse_def)

text \<open>
  C29: the body a client gets for a file parses as JSON, and gives back its id, times, size, flags,
  texts, and the metadata up to white space; of the nullable texts the client gets an object with
  the members String and Valid, never the text itself; columns without a tag are not sent.
\<close>

theorem file_answer_reads_back:
  assumes "body_text x zone (PFile (Some f)) = Some t" and f: "readable_file x zone f"
  shows "\<exists>v. json_parse t = Some v
    \<and> text_at ''id'' v = Some (x_uuid_string x (sf_id f)) \<and> time_at ''created_at'' v = Some (sf_created_at f)
    \<and> (case sf_updated_at f of None \<Rightarrow> member ''updated_at'' v = None | Some u \<Rightarrow> time_at ''updated_at'' v = Some u)
    \<and> text_at ''signature_key'' v = Some (sf_sig f) \<and> text_at ''status'' v = Some (sf_status f)
    \<and> text_at ''visibility'' v = Some (sf_visibility f) \<and> int_at ''size'' v = Some (sf_size f)
    \<and> bool_at ''available'' v = Some (sf_available f) \<and> bool_at ''excluded'' v = Some (sf_excluded f)
    \<and> null_at ''name'' v = Some (sf_name f) \<and> text_at ''name'' v = None \<and> null_at ''hash'' v = Some (sf_hash f)
    \<and> null_at ''real_path'' v = Some (sf_real_path f) \<and> null_at ''virtual_path'' v = Some (sf_virt_path f)
    \<and> Option.bind (raw_at ''custom_metadata'' v) json_parse = map_option squeeze (json_parse (sf_custom f))
    \<and> Option.bind (raw_at ''exif_metadata'' v) json_parse = map_option squeeze (json_parse (sf_exif f))
    \<and> member ''owner_id'' v = None"
proof -
  let ?v = "wire_value (WObj (file_members x zone f))"
  have t: "json_parse t = Some ?v" using assms(1) file_parses[OF f] by (simp add: body_text_def del: wire_value.simps)
  note m = file_map_of[of x zone f] and read = read_members[OF file_names] and null = read_null[OF file_names]
  have raw: "Option.bind (raw_at k ?v) json_parse = map_option squeeze (json_parse r)"
    if "map_of (file_members x zone f) k = Some (WRaw r)" "json_parse r \<noteq> None" for k r
    using read(4)[OF that(1) parse_nonempty[OF that(2)]] that(2) json_parse_compact by auto
  have time: "time_at k ?v = Some u" if "map_of (file_members x zone f) k = Some (time_text zone u)" "writable (zone u) u" for k u
    by (rule read(5)[OF that time_utf8[OF that(2)]])
  have upd: "case sf_updated_at f of None \<Rightarrow> member ''updated_at'' ?v = None | Some u \<Rightarrow> time_at ''updated_at'' ?v = Some u"
    using m(3) f time[of "''updated_at''"] read(6)[of x zone f "''updated_at''"]
    by (cases "sf_updated_at f") (simp_all add: readable_file_def some_ok_def)
  show ?thesis
    by (intro exI[of _ ?v] conjI t upd time[OF m(2)] read(1)[OF m(4)] read(1)[OF m(6)] read(1)[OF m(7)] read(3)[OF m(8)]
        read(2)[OF m(14)] read(2)[OF m(15)] null(1)[OF m(5)] null(2)[OF m(5)] null(1)[OF m(9)] null(1)[OF m(12)]
        null(1)[OF m(13)] raw[OF m(10)] raw[OF m(11)] read(6)[OF m(16)] read(1)[OF m(1)[unfolded uuid_text_def]])
      (use f in \<open>simp_all add: readable_file_def some_ok_def\<close>)
qed

definition wire_file :: StorageFile where
  "wire_file = live_file\<lparr>sf_created_at := 1700000000123456000, sf_updated_at := Some 1700000001000000000,
     sf_exif := ''{}'', sf_custom := [CHR ''{'', CHR 0x22, CHR ''a'', CHR 0x22, CHR '':'', CHR '' '', CHR ''1'', CHR ''}'']\<rparr>"

lemma wire_file_readable: "readable_file ex_ext (\<lambda>_. 120) wire_file"
proof -
  have "writable 120 1700000000123456000" "writable 120 1700000001000000000" by code_simp+
  moreover have "json_parse ''{}'' \<noteq> None"
    "json_parse [CHR ''{'', CHR 0x22, CHR ''a'', CHR 0x22, CHR '':'', CHR '' '', CHR ''1'', CHR ''}''] \<noteq> None"
    by code_simp+
  moreover have "utf8_ok ''id''" "utf8_ok []" "utf8_ok ''PUBLISHED''" "utf8_ok ''USER''" "utf8_ok ''a.txt''" "utf8_ok ''x/a.txt''"
    by (rule ascii_utf8; simp)+
  ultimately show ?thesis
    by (simp add: readable_file_def some_ok_def wire_file_def live_file_def blank_file_def ex_ext_def in_int64_def
        min_int64_def max_int64_def)
qed

lemma file_answer_reads_back_witness:
  "\<exists>v. json_parse (the (body_text ex_ext (\<lambda>_. 120) (PFile (Some wire_file)))) = Some v
     \<and> text_at ''visibility'' v = Some ''USER'' \<and> time_at ''created_at'' v = Some 1700000000123456000
     \<and> null_at ''name'' v = Some (Some ''a.txt'') \<and> text_at ''name'' v = None"
proof -
  have "body_text ex_ext (\<lambda>_. 120) (PFile (Some wire_file)) = Some (the (body_text ex_ext (\<lambda>_. 120) (PFile (Some wire_file))))"
    by (simp add: body_text_def)
  moreover have "sf_visibility wire_file = ''USER''" "sf_created_at wire_file = 1700000000123456000"
    "sf_name wire_file = Some ''a.txt''" by (simp_all add: wire_file_def live_file_def)
  ultimately show ?thesis using file_answer_reads_back[OF _ wire_file_readable] by metis
qed

text \<open>Listings without rows: the two that hand on a nil slice send null, that of files sends an empty array.\<close>

lemma empty_listings:
  "body_json x zone (PStorageUsers [] 0) = Some (WObj [(''count'', WInt 0), (''items'', WNull)])"
  "body_json x zone (PStorages [] n l) = Some (WObj [(''_links'', pageLinks_json l), (''count'', WInt (int n)), (''items'', WNull)])"
  "body_json x zone (PFiles [] n l) = Some (WObj [(''_links'', pageLinks_json l), (''count'', WInt (int n)), (''items'', WArr [])])"
  by (simp_all add: nil_slice_def page_json_def)

text \<open>A storage is sent without its credentials, whatever they are.\<close>

lemma storage_sends_no_credentials:
  "member ''credentials'' (wire_value (Storage_json x s)) = None"
  "Storage_json x (s\<lparr>st_creds := c\<rparr>) = Storage_json x s"
proof -
  have k: "list_all (\<lambda>(k, w). utf8_ok k) ([(''id'', uuid_text x (st_id s)), (''type'', null_string (st_type s))]
      @ omitempty ''media_convert_configuration'' (if st_media_cfg s = [] then None else Some (WRaw (st_media_cfg s)))
      @ [(''total_size'', WInt (st_total_size s))])"
    by (simp add: omitempty_def utf8_ok_def)
  show "member ''credentials'' (wire_value (Storage_json x s)) = None"
    unfolding Storage_json_def by (rule read_members(6)[OF k]) (simp add: omitempty_def)
  show "Storage_json x (s\<lparr>st_creds := c\<rparr>) = Storage_json x s" by (simp add: Storage_json_def)
qed

end
