(* ===== verification/PropsRaces.thy ===== *)
theory PropsRaces
  imports Examples
begin

text \<open>
  Requests whose statements interleave: a patch of a file reads the row and then writes all of its
  columns, so a patch that was answered in between is lost; a first login looks for the user and then
  inserts him, and nothing in the schema keeps two requests from inserting the same user twice.
\<close>

section \<open>A patch as two statements\<close>

definition patched :: "string option \<Rightarrow> string option \<Rightarrow> string \<Rightarrow> string option \<Rightarrow> StorageFile \<Rightarrow> StorageFile" where
  "patched name visibility customMeta virtualPath f =
     (let f = (case name of Some s \<Rightarrow> f\<lparr>sf_name := Some s\<rparr> | None \<Rightarrow> f);
          f = (case visibility of Some s \<Rightarrow> f\<lparr>sf_visibility := s\<rparr> | None \<Rightarrow> f);
          f = (if length customMeta > 0 then f\<lparr>sf_custom := customMeta\<rparr> else f)
      in (case virtualPath of Some s \<Rightarrow> f\<lparr>sf_virt_path := Some s\<rparr> | None \<Rightarrow> f))"

definition write_meta :: "uuid \<Rightarrow> uuid \<Rightarrow> uuid \<Rightarrow> StorageFile \<Rightarrow> unit result m" where
  "write_meta storageID fileID actor f =
     try_bind (db_exec (\<lambda>t. upd_files
       (\<lambda>r. sf_storage r = storageID \<and> sf_id r = fileID \<and> \<not> sf_excluded r)
       (\<lambda>r. r\<lparr>sf_name := sf_name f, sf_visibility := sf_visibility f, sf_custom := jsonOrEmpty (sf_custom f),
              sf_virt_path := sf_virt_path f, sf_updated_at := Some t, sf_updated_by_id := Some actor\<rparr>)))
     (\<lambda>_. ret (Inr ()))"

lemma UpdateFileMeta_steps:
  "UpdateFileMeta sid fid n v c p actor = try_bind (loadFileRow sid fid False) (\<lambda>f. write_meta sid fid actor (patched n v c p f))"
  by (simp add: UpdateFileMeta_def write_meta_def patched_def Let_def)

lemma updated_row: "r \<in> set (upd_where P g xs) \<Longrightarrow> \<exists>q. r = (if P q then g q else q)"
  by (auto simp: upd_where_def)

text \<open>Whatever happened since the row was read, the last write restores what it does not change.\<close>

lemma last_patch_wins:
  assumes "run (write_meta sid fid actor (patched n v c p f)) w = (Inr (), w')"
    and "r \<in> set (files (wdb w'))" "sf_storage r = sid" "sf_id r = fid" "\<not> sf_excluded r"
  shows "sf_name r = (case n of Some s \<Rightarrow> Some s | None \<Rightarrow> sf_name f)"
    and "sf_visibility r = (case v of Some s \<Rightarrow> s | None \<Rightarrow> sf_visibility f)"
    and "sf_virt_path r = (case p of Some s \<Rightarrow> Some s | None \<Rightarrow> sf_virt_path f)"
proof -
  let ?g = "patched n v c p f"
  let ?P = "\<lambda>r. sf_storage r = sid \<and> sf_id r = fid \<and> \<not> sf_excluded r"
  obtain k w1 where k: "run (db_exec (\<lambda>t. upd_files ?P (\<lambda>r. r\<lparr>sf_name := sf_name ?g, sf_visibility := sf_visibility ?g,
      sf_custom := jsonOrEmpty (sf_custom ?g), sf_virt_path := sf_virt_path ?g, sf_updated_at := Some t,
      sf_updated_by_id := Some actor\<rparr>))) w = (Inr k, w1)" "w' = w1"
    using assms(1) unfolding write_meta_def by (rule try_bind_ok) simp
  then have "files (wdb w') = upd_where ?P (\<lambda>r. r\<lparr>sf_name := sf_name ?g, sf_visibility := sf_visibility ?g,
      sf_custom := jsonOrEmpty (sf_custom ?g), sf_virt_path := sf_virt_path ?g, sf_updated_at := Some (wclock w),
      sf_updated_by_id := Some actor\<rparr>) (files (wdb w))"
    using exec_ok[OF k(1)] by (auto simp: upd_files_def stmt_def split: if_splits)
  with assms(2) obtain q where "r = (if ?P q then q\<lparr>sf_name := sf_name ?g, sf_visibility := sf_visibility ?g,
      sf_custom := jsonOrEmpty (sf_custom ?g), sf_virt_path := sf_virt_path ?g, sf_updated_at := Some (wclock w),
      sf_updated_by_id := Some actor\<rparr> else q)"
    using updated_row by fastforce
  with assms(3-) have "sf_name r = sf_name ?g \<and> sf_visibility r = sf_visibility ?g \<and> sf_virt_path r = sf_virt_path ?g"
    by (auto split: if_splits)
  moreover have "sf_name ?g = (case n of Some s \<Rightarrow> Some s | None \<Rightarrow> sf_name f)"
    "sf_visibility ?g = (case v of Some s \<Rightarrow> s | None \<Rightarrow> sf_visibility f)"
    "sf_virt_path ?g = (case p of Some s \<Rightarrow> Some s | None \<Rightarrow> sf_virt_path f)"
    by (simp_all add: patched_def Let_def split: option.split)
  ultimately show "sf_name r = (case n of Some s \<Rightarrow> Some s | None \<Rightarrow> sf_name f)"
    "sf_visibility r = (case v of Some s \<Rightarrow> s | None \<Rightarrow> sf_visibility f)"
    "sf_virt_path r = (case p of Some s \<Rightarrow> Some s | None \<Rightarrow> sf_virt_path f)" by simp_all
qed

text \<open>
  One interleaving: a renaming reads the row, another request makes the file PUBLIC and succeeds, the
  renaming writes: the file is a USER file again, and neither request has failed.
\<close>

definition renaming :: "StorageFile result \<Rightarrow> unit result m" where
  "renaming r = (case r of Inr f \<Rightarrow> write_meta 10 20 1 (patched (Some ''b.txt'') None [] None f) | Inl e \<Rightarrow> ret (Inl e))"

definition raced :: "unit result \<times> unit result \<times> string list \<times> string list" where
  "raced = (case run (loadFileRow 10 20 False) ex_world of (r, w1) \<Rightarrow>
     case run (UpdateFileMeta 10 20 None (Some ''PUBLIC'') [] None 1) w1 of (b, w2) \<Rightarrow>
     case run (renaming r) w2 of (a, w3) \<Rightarrow>
       (b, a, map sf_visibility (files (wdb w2)), map sf_visibility (files (wdb w3))))"

lemma concurrent_patch_lost: "raced = (Inr (), Inr (), [''PUBLIC'', ''USER''], [''USER'', ''USER''])"
  by code_simp

section \<open>A first login as two statements\<close>

definition find_user :: "MeResponse \<Rightarrow> User result m" where
  "find_user me = db_query (\<lambda>t d. find_by (\<lambda>u. u_username u = me_username me) (users d))"

definition create_user :: "MeResponse \<Rightarrow> User result m" where
  "create_user me = do {
     uid \<leftarrow> new_uuid;
     t0 \<leftarrow> now;
     let user = \<lparr>u_id = uid, u_username = me_username me, u_system = me_system me,
       u_admin = me_admin me, u_active = True, u_registered = t0, u_last_activity = t0\<rparr>;
     try_bind (db_exec (\<lambda>t. ins_user (user\<lparr>u_registered := t, u_last_activity := t\<rparr>)))
       (\<lambda>_. ret (Inr user))}"

lemma first_login_steps:
  assumes "run (find_user me) w = (Inl ErrNoRows, w')"
  shows "run (loadOrCreateUserFromMe me) w = run (create_user me) w'"
  using assms by (simp add: loadOrCreateUserFromMe_def find_user_def create_user_def)

text \<open>The schema accepts a second user of the same name.\<close>

lemma names_are_not_unique:
  assumes "user_fits r" and "fresh u_id r (users d)"
  shows "ins_user r d = (Inr (), d\<lparr>users := users d @ [r]\<rparr>)"
  using assms by (simp add: ins_user_def stmt_def)

definition newcomer :: MeResponse where
  "newcomer = \<lparr>me_uuid = ''u'', me_username = ''dora'', me_system = ''s1'', me_admin = False, me_message = [],
     me_token = []\<rparr>"

definition raced_logins :: "User result \<times> uuid list" where
  "raced_logins = (case run (find_user newcomer) ex_world of (r, w1) \<Rightarrow>
     case run (loadOrCreateUserFromMe newcomer) w1 of (b, w2) \<Rightarrow>
     case run (create_user newcomer) w2 of (a, w3) \<Rightarrow>
       (r, map u_id (filter (\<lambda>u. u_username u = ''dora'') (users (wdb w3)))))"

lemma concurrent_logins_duplicate: "raced_logins = (Inl ErrNoRows, [1000, 1001])"
  by code_simp

end
