(* ===== verification/Spec2Isabelle.thy ===== *)
theory Spec2Isabelle
  imports Prelude GoStrings GoFloat GoTime GoNet EnvFile EnvPersist Schema World Tables Json JsonText Float64 DataStorage DataFiles
    DataJobs DataMedia ObjectStore Config Auth UrlFetch RateLimit MediaRules Ffprobe Http HandlersStorage
    HandlersFiles HandlersUpload Router Requests MediaProc WorkerPool PoolLoop Startup Bootstrap EnvConfig Application JsonCompact Wire
    TimeText AnswerText Runs Examples
    PropsEnv PropsFiles PropsLifecycle PropsAccess PropsFetch PropsUpload PropsMedia PropsMeta PropsTypes
    PropsService PropsPool PropsAnswers PropsApp PropsWire PropsRaces
begin

text \<open>
  A verification development for uServer FileMgr, a file manager behind an HTTP API: files live in
  storages (a local folder or an S3 bucket), rows describing them in PostgreSQL, users come from
  uServer-Auth, and a pool of workers derives thumbnails and metadata.

  \<^bold>\<open>The program and its parts.\<close> A request passes the rate limiter, authentication and, for uploads from
  a URL, a second limiter (\<open>internal/http_api/router.go\<close>). Authentication (\<open>internal/auth\<close>) looks a token
  up in the cache and otherwise asks uServer-Auth. A handler calls the database client
  (\<open>internal/data\<close>) and the object store (\<open>internal/object_store\<close>); uploads from a URL use the hardened
  client of \<open>internal/urlfetch\<close>. Published files that may be media are enqueued in a table; the pool
  (\<open>internal/media_worker\<close>) claims jobs and hands them to \<open>internal/media_processor\<close>. Before any of this
  the configuration is read (\<open>lib/env.go\<close>) and \<open>internal/userver_auth\<close> may create the system and its first
  administrator at uServer-Auth, keeping what it got in an env file.

  \<^bold>\<open>State.\<close> \<open>World.world\<close> is what an action acts on: the tables (\<open>Schema.db\<close>, one list of rows per table of
  \<open>migrations\<close>), the objects of all stores, the audit log, the clock, the supply of random UUIDs (nothing
  says they differ) and a schedule of faults. An action is a state monad; a fallible one returns
  \<open>err + 'a\<close>. Every call to PostgreSQL or an object store takes an entry of the schedule and fails
  without effect when it is an error, so a theorem about all worlds covers every pattern of failures;
  \<open>calm\<close> says that none are left. A statement is atomic; \<open>in_tx\<close> restores the tables when its body or
  the commit fails. Inserts and updates check the column widths, unique columns and foreign keys of the
  schema, and deletes cascade as it says (\<open>Tables\<close>, \<open>Schema\<close>).

  \<^bold>\<open>Which theory models what.\<close>
  \<^item> \<open>Prelude\<close>, \<open>GoStrings\<close>, \<open>Json\<close>, \<open>JsonText\<close>, \<open>Float64\<close>, \<open>GoFloat\<close>, \<open>GoTime\<close>, \<open>GoNet\<close>: 64-bit ranges and
    errors; what the program uses of Go's library: \<open>strings\<close>, \<open>strconv\<close> (also \<open>ParseFloat\<close> and \<open>%g\<close>),
    \<open>encoding/json\<close> in both directions, float64 arithmetic, \<open>time.Parse\<close> for its two layouts and
    \<open>net.ParseIP\<close>.
  \<^item> \<open>Schema\<close>, \<open>World\<close>, \<open>Tables\<close>: rows, constraints, the world, statements.
  \<^item> \<open>DataStorage\<close>, \<open>DataFiles\<close>, \<open>DataJobs\<close>, \<open>DataMedia\<close>: \<open>internal/data\<close>, one definition per function.
  \<^item> \<open>ObjectStore\<close>, \<open>Config\<close>: \<open>internal/object_store\<close>; the record \<open>lib.Env\<close> and the external code (\<open>ext\<close>).
  \<^item> \<open>Auth\<close>, \<open>UrlFetch\<close>, \<open>RateLimit\<close>: \<open>internal/auth\<close>, \<open>internal/urlfetch\<close>, \<open>middleware_ratelimit.go\<close>.
  \<^item> \<open>Http\<close>, \<open>HandlersStorage\<close>, \<open>HandlersFiles\<close>, \<open>HandlersUpload\<close>, \<open>Router\<close>: requests and answers, paging,
    audit, CORS and headers; the handlers; routes and the middleware chain. \<open>Requests\<close> reduces what a
    request keeps to the operations it calls.
  \<^item> \<open>MediaRules\<close>, \<open>Ffprobe\<close>, \<open>MediaProc\<close>: \<open>internal/media_processor\<close> (sizes, ffprobe's output, one job).
  \<^item> \<open>WorkerPool\<close>, \<open>PoolLoop\<close>: \<open>internal/media_worker\<close>. The pool is a transition system in which steps of
    several workers, of requests and crashes interleave; \<open>PoolLoop\<close> adds the loop of a worker with its
    ticker, and \<open>Start\<close> and \<open>Stop\<close>.
  \<^item> \<open>EnvPersist\<close>, \<open>EnvFile\<close>, \<open>Bootstrap\<close>, \<open>EnvConfig\<close>: \<open>internal/userver_auth\<close>; \<open>lib/env.go\<close>, \<open>lib/db.go\<close> and
    \<open>lib/handler.go\<close>.
  \<^item> \<open>Startup\<close>: what is built from the configuration: \<open>lib/logger.go\<close>, \<open>lib/http_transport.go\<close>, the pool of
    \<open>lib/db.go\<close>, the clients, the router's limiters and CORS options, and \<open>cmd/commands\<close> (the server, the
    migrations, the health probe).
  \<^item> \<open>JsonCompact\<close>, \<open>Wire\<close>, \<open>TimeText\<close>, \<open>AnswerText\<close>: how \<open>encoding/json\<close> copies raw messages and writes structs,
    maps and times, and the bodies of the answers after the \<open>json\<close> tags of \<open>internal/data\<close>.
  \<^item> \<open>Application\<close>: \<open>cmd\<close>, \<open>lib/lib.go\<close> and the constructors they name: the commands, what each constructor
    needs, gives and appends to the life cycle, and the orders in which fx may call them; the one logger.
  \<^item> \<open>Runs\<close>, \<open>Examples\<close>: inversion of successful runs, and a small concrete world for the witnesses.

  \<^bold>\<open>Interfaces.\<close> \<open>codec\<close> (encode/decode: env values, decimals, times, the connection string), \<open>job_queue\<close>
  (claim/finish: the table of jobs, and again the operations of the client in a world without
  faults), \<open>blob_store\<close> (put/get/delete: every backend), and a chain of three about predicates on
  worlds: \<open>world_frame\<close> (kept by whatever leaves the tables alone), \<open>request_ops\<close> (kept by the operations
  of the database client, hence by every handler) and \<open>service_world\<close> (kept by workers and the clock
  too, hence by the whole service) are locales. Their laws are proved for the model's own operations,
  the last chain for the integrity of the database, the types of its rows and the refinement of the
  worker pool; the properties of the worker's loop, of uploads and of the service rest on them.

  \<^bold>\<open>What the theorems show.\<close>
  \<^item> \<open>PropsAccess\<close>: the integrity of the database and the bound on the limiter tables are invariants of the
    whole service; who a token authenticates, and that failures leave nothing behind; what requests
    without credentials or rights can do.
  \<^item> \<open>PropsTypes\<close>: the rows stay within their types (statuses, origins, kinds of details) in the whole
    service.
  \<^item> \<open>PropsFiles\<close>: who sees a file, that listing and reading agree (and where they do not), that a system
    file is hidden from its owner, and that strangers change nothing.
  \<^item> \<open>PropsLifecycle\<close>: trash, permanent deletion, deletion of storages, access rows, download links.
  \<^item> \<open>PropsUpload\<close>: what a client told 201 may rely on under any faults, and that failed uploads leave no
    trace.
  \<^item> \<open>PropsFetch\<close>: addresses a fetch may connect to, the size cap, objects and their paths, paging.
  \<^item> \<open>PropsMedia\<close>: no job is claimed twice under any interleaving, a worker's round refines the pool's
    steps, a worker empties the queue, failed processing is undone; boxes and dimensions.
  \<^item> \<open>PropsService\<close>: the whole service, requests included, refines the pool, so its jobs are attempted at
    most once.
  \<^item> \<open>PropsMeta\<close>: what a job processed without error leaves behind: the media row, its details read from
    the stored bytes, the derived files with their objects; the EXIF tags as JSON.
  \<^item> \<open>PropsAnswers\<close>: every answer is the success of its route, a failure with a detail, or the
    middleware's refusal, and none carries the credentials of a storage.
  \<^item> \<open>PropsWire\<close>: the body for a file reads back as the file; a storage is sent without its credentials.
  \<^item> \<open>PropsRaces\<close>: a patch answered between the two statements of another patch is lost, and the first
    logins of one user, at the same time, make two users.
  \<^item> \<open>PropsApp\<close>: in every order fx may build the server, what starts and stops after what; that the
    migration commands start the workers too.
  \<^item> \<open>PropsPool\<close>: \<open>Stop\<close> ends after at most two steps of each worker and without another claim; the health
    probe finds the server; the interval of the ticker.
  \<^item> \<open>PropsEnv\<close>: what the env file reads as after the bootstrap, the connection string, and the bounds of
    the configuration.

  \<^bold>\<open>Fuel and termination.\<close> The JSON parser takes twice the length of its text plus two as fuel;
  \<open>Json.parsers_fuel\<close> shows that any larger amount gives the same result. Copying through the size cap is
  bounded by the length of the body plus two reads (\<open>UrlFetch.capped_copy_result\<close> shows the bound is
  enough). Redirects are bounded by the client's own limit. \<open>worker_loop\<close> and \<open>crawl\<close> take a number of
  rounds, and the properties say which number is enough. The other recursions are structural or come
  with a measure.

  \<^bold>\<open>Not modelled, and why.\<close>
  \<^item> Handlers run one after another; only the workers' claims, marks and the requests' effects on the
    queue interleave, and in \<open>PropsRaces\<close> the statements of two patches and of two logins. Queries with
    ties in their order return rows in the order of the table.
  \<^item> Strings are bytes. PostgreSQL's refusal of NUL and invalid UTF-8, and the normal form of JSONB, are
    not; case mapping is that of ASCII. \<open>encoding/json\<close> refuses values nested deeper than 10000,
    the model does not. PostgreSQL's reading of an interval's text is left out.
  \<^item> The bodies of media answers: the tables of details keep times of creation the model does not. The
    zone in which the database session gives its times is a parameter.
  \<^item> \<open>net/url\<close>, the resolver, proxies, \<open>math.Pow\<close>, the text of a UUID, the rate library, the AWS SDK, the
    image codecs, the EXIF decoder and the text ffprobe prints are parameters.
  \<^item> A local put that fails on the disk itself (not through its reader) is a fault without effect, and
    paths that collide with directories are such faults. A failing commit is one that did not happen.
  \<^item> Texts of errors are those of the program where it makes them up; those of libraries, and what
    \<open>%w\<close> appends, are abbreviated. Log lines other than the audit log are left out.
  \<^item> A float64 out of the range of int converts to the smallest int, as on amd64.
  \<^item> fx, cobra, zap, gin and golang-migrate are libraries: \<open>Application\<close> says what the program hands to fx
    and which orders of calls fx's documentation allows; a constructor or hook that fails ends the
    process and is not followed further. Listening and the parsing of the command line are I/O;
    \<open>lib/command.go\<close> is an interface without behaviour.
\<close>

end
